(* ===== verification/Prelude.thy ===== *)
theory Prelude
  imports Main "HOL-Library.Word"
begin

unbundle bit_operations_syntax

text \<open>
  Shared material: names for the machine integers of the C program, the type of programs
  (state passing with C faults and non-termination as values), byte images of integers in
  memory, and the interface \<open>codec\<close> of every structure that is written to and read from
  memory as bytes.
\<close>

section \<open>Machine integers\<close>

type_synonym u8 = "8 word"
type_synonym u16 = "16 word"
type_synonym u32 = "32 word"
type_synonym u64 = "64 word"

text \<open>
  \<open>size_t\<close> is a natural number below \<open>2 ^ 64\<close>; an addition of sizes in the code
  wraps around. \<open>SIZE_MAX\<close> is what a \<open>return -1\<close> of type \<open>size_t\<close> gives.
\<close>

abbreviation SIZE_MAX :: nat where
  "SIZE_MAX \<equiv> 2 ^ 64 - 1"

definition size_add :: "nat \<Rightarrow> nat \<Rightarrow> nat" where
  "size_add a b = (a + b) mod 2 ^ 64"

text \<open>A C \<open>int\<close> or \<open>ssize_t\<close> converted to \<open>size_t\<close>.\<close>

definition size_of_int :: "int \<Rightarrow> nat" where
  "size_of_int i = nat (i mod 2 ^ 64)"

text \<open>The conversion of a \<open>size_t\<close> to \<open>uint16_t\<close>, and back.\<close>

definition u16_of_size :: "nat \<Rightarrow> u16" where
  "u16_of_size n = word_of_nat n"

lemma size_add_small [simp]: "a + b < 2 ^ 64 \<Longrightarrow> size_add a b = a + b"
  by (simp add: size_add_def)

lemma unat_u16_of_size [simp]: "unat (u16_of_size n) = n mod 65536"
  by (simp add: u16_of_size_def unat_of_nat)

lemma unat_minus_1_u16 [simp]: "unat (-1 :: u16) = 65535"
  by (simp add: unsigned_minus_1_eq_mask mask_eq_exp_minus_1)

section \<open>Programs\<close>

text \<open>
  What a C operation can do besides returning a value. Each fault is undefined behaviour
  of the C program (or a failed \<open>assert\<close>), detected where it happens.
\<close>

datatype fault =
    NullDeref         \<comment> \<open>read or write through a null pointer\<close>
  | OutOfBounds       \<comment> \<open>access outside the block a pointer points into\<close>
  | UseAfterFree      \<comment> \<open>access to a block that was freed or moved by \<open>realloc\<close>\<close>
  | WildPointer       \<comment> \<open>access through a pointer to no block, or to one of another type\<close>
  | InvalidFree       \<comment> \<open>\<open>free\<close> or \<open>realloc\<close> of no live block\<close>
  | ReallocZero       \<comment> \<open>\<open>realloc\<close> with size 0\<close>
  | SignedOverflow    \<comment> \<open>overflow of \<open>int\<close> arithmetic\<close>
  | StaleStrtok       \<comment> \<open>\<open>strtok\<close> of null with no live string to go on with\<close>
  | AssertFailed      \<comment> \<open>a failed \<open>assert\<close>\<close>

text \<open>
  A program over states \<open>'s\<close> with results \<open>'a\<close>: \<open>None\<close> when it does not return,
  \<open>Some (Inl f)\<close> when it faults, \<open>Some (Inr (x, s))\<close> when it returns \<open>x\<close> in state \<open>s\<close>.
\<close>

type_synonym ('s, 'a) outcome = "(fault + 'a \<times> 's) option"
type_synonym ('s, 'a) prog = "'s \<Rightarrow> ('s, 'a) outcome"

abbreviation Diverges :: "('s, 'a) outcome" where
  "Diverges \<equiv> None"

abbreviation Faults :: "fault \<Rightarrow> ('s, 'a) outcome" where
  "Faults f \<equiv> Some (Inl f)"

abbreviation Returns :: "'a \<Rightarrow> 's \<Rightarrow> ('s, 'a) outcome" where
  "Returns x s \<equiv> Some (Inr (x, s))"

definition retp :: "'a \<Rightarrow> ('s, 'a) prog" where
  "retp x s = Returns x s"

definition faultp :: "fault \<Rightarrow> ('s, 'a) prog" where
  "faultp f s = Faults f"

definition bindp :: "('s, 'a) prog \<Rightarrow> ('a \<Rightarrow> ('s, 'b) prog) \<Rightarrow> ('s, 'b) prog" where
  "bindp m f s = (case m s of
     None \<Rightarrow> Diverges
   | Some (Inl e) \<Rightarrow> Faults e
   | Some (Inr (x, t)) \<Rightarrow> f x t)"

text \<open>\<open>assert(c)\<close>, reading the state, and changing the state.\<close>

definition assertp :: "bool \<Rightarrow> ('s, unit) prog" where
  "assertp c = (if c then retp () else faultp AssertFailed)"

definition getp :: "('s \<Rightarrow> 'a) \<Rightarrow> ('s, 'a) prog" where
  "getp g s = Returns (g s) s"

definition modifyp :: "('s \<Rightarrow> 's) \<Rightarrow> ('s, unit) prog" where
  "modifyp g s = Returns () (g s)"

text \<open>
  The collection \<open>exec\<close> holds the equations that run a program: every component adds the
  equations of its operations on states where they do not fault.
\<close>

named_theorems exec \<open>equations that execute programs\<close>

lemma retp_app [simp, exec]: "retp x s = Returns x s"
  by (simp add: retp_def)

lemma faultp_app [simp, exec]: "faultp f s = Faults f"
  by (simp add: faultp_def)

lemma getp_app [simp, exec]: "getp g s = Returns (g s) s"
  by (simp add: getp_def)

lemma modifyp_app [simp, exec]: "modifyp g s = Returns () (g s)"
  by (simp add: modifyp_def)

lemma assertp_app [simp, exec]: "assertp c s = (if c then Returns () s else Faults AssertFailed)"
  by (simp add: assertp_def)

lemma bindp_Returns [simp, exec]: "m s = Returns x t \<Longrightarrow> bindp m f s = f x t"
  by (simp add: bindp_def)

lemma bindp_Faults [simp, exec]: "m s = Faults e \<Longrightarrow> bindp m f s = Faults e"
  by (simp add: bindp_def)

lemma bindp_Diverges [simp, exec]: "m s = Diverges \<Longrightarrow> bindp m f s = Diverges"
  by (simp add: bindp_def)

lemma bindp_eq_Returns:
  "bindp m f s = Returns y u \<longleftrightarrow> (\<exists>x t. m s = Returns x t \<and> f x t = Returns y u)"
  by (auto simp: bindp_def split: option.splits sum.splits)

lemma bindp_retp [simp]: "bindp (retp x) f = f x"
  by (rule ext) simp

lemma bindp_assoc: "bindp (bindp m f) g = bindp m (\<lambda>x. bindp (f x) g)"
  by (rule ext) (simp add: bindp_def split: option.splits sum.splits)

text \<open>Loops of programs are partial functions; sequencing is monotone in the rest of the program.\<close>

lemma bindp_mono [partial_function_mono]:
  assumes "\<And>x t. mono_option (\<lambda>f. B f x t)"
  shows "mono_option (\<lambda>f. bindp m (B f) s)"
proof (cases "m s")
  case None
  then show ?thesis by (simp add: bindp_def monotone_def flat_ord_def)
next
  case (Some r)
  then show ?thesis
    using assms by (cases r) (auto simp: bindp_def monotone_def flat_ord_def)
qed

section \<open>Byte images\<close>

text \<open>The bytes of an integer in the memory of a little-endian machine, lowest address first.\<close>

definition le16 :: "u16 \<Rightarrow> u8 list" where
  "le16 x = [ucast x, ucast (drop_bit 8 x)]"

definition le32 :: "u32 \<Rightarrow> u8 list" where
  "le32 x = [ucast x, ucast (drop_bit 8 x), ucast (drop_bit 16 x), ucast (drop_bit 24 x)]"

definition of_le16 :: "u8 list \<Rightarrow> u16" where
  "of_le16 bs = word_of_nat (unat (bs ! 0) + 256 * unat (bs ! 1))"

definition of_le32 :: "u8 list \<Rightarrow> u32" where
  "of_le32 bs = word_of_nat (unat (bs ! 0) + 256 * unat (bs ! 1)
     + 65536 * unat (bs ! 2) + 16777216 * unat (bs ! 3))"

text \<open>Network byte order, as the protocol standards give it: highest byte first.\<close>

definition be16 :: "u16 \<Rightarrow> u8 list" where
  "be16 x = rev (le16 x)"

definition be32 :: "u32 \<Rightarrow> u8 list" where
  "be32 x = rev (le32 x)"

lemma length_images [simp]:
  "length (le16 x) = 2" "length (be16 x) = 2" "length (le32 y) = 4" "length (be32 y) = 4"
  by (simp_all add: le16_def be16_def le32_def be32_def)

lemma unat_byte_less [simp]: "unat (b :: u8) < 256"
  by (rule order.strict_trans2 [OF unsigned_less]) simp

lemma unat_byte_le: "unat (b :: u8) \<le> 255"
  using unat_byte_less [of b] by linarith

lemma unat_u16_less [simp]: "unat (x :: u16) < 65536"
  by (rule order.strict_trans2 [OF unsigned_less]) simp

lemma unat_u32_less [simp]: "unat (x :: u32) < 4294967296"
  by (rule order.strict_trans2 [OF unsigned_less]) simp

lemma unat_ucast_u8: "unat (ucast (x :: 'a::len word) :: u8) = unat x mod 256"
  by (simp add: unsigned_ucast_eq take_bit_eq_mod)

lemma unat_drop_8: "unat (drop_bit 8 (x :: 'a::len word)) = unat x div 256"
  by (subst unat_drop_bit_eq) (simp add: drop_bit_eq_div)

lemma unat_drop_16: "unat (drop_bit 16 (x :: 'a::len word)) = unat x div 65536"
  by (subst unat_drop_bit_eq) (simp add: drop_bit_eq_div)

lemma unat_drop_24: "unat (drop_bit 24 (x :: 'a::len word)) = unat x div 16777216"
  by (subst unat_drop_bit_eq) (simp add: drop_bit_eq_div)

lemmas unat_shift = unat_ucast_u8 unat_drop_8 unat_drop_16 unat_drop_24

lemma unat_of_le16: "unat (of_le16 bs) = unat (bs ! 0) + 256 * unat (bs ! 1)"
proof -
  have "unat (bs ! 0) + 256 * unat (bs ! 1) < 65536"
    using unat_byte_less [of "bs ! 0"] unat_byte_less [of "bs ! 1"] by linarith
  then show ?thesis unfolding of_le16_def unat_of_nat by simp
qed

lemma unat_of_le32: "unat (of_le32 bs) = unat (bs ! 0) + 256 * unat (bs ! 1)
     + 65536 * unat (bs ! 2) + 16777216 * unat (bs ! 3)"
proof -
  have "unat (bs ! 0) + 256 * unat (bs ! 1) + 65536 * unat (bs ! 2)
      + 16777216 * unat (bs ! 3) < 4294967296"
    using unat_byte_less [of "bs ! 0"] unat_byte_less [of "bs ! 1"]
      unat_byte_less [of "bs ! 2"] unat_byte_less [of "bs ! 3"] by linarith
  then show ?thesis unfolding of_le32_def unat_of_nat by simp
qed

lemma of_le16_le16 [simp]: "of_le16 (le16 x) = x"
proof -
  have "unat x div 256 < 256"
    using unat_u16_less [of x] by (simp add: div_less_iff_less_mult)
  then have "unat x mod 256 + 256 * (unat x div 256 mod 256) = unat x"
    using mod_mult_div_eq [of "unat x" 256] by simp
  then show ?thesis
    by (simp only: word_unat_eq_iff unat_of_le16 le16_def unat_shift nth_Cons_0 nth_Cons_Suc One_nat_def)
qed

lemma glue_4:
  "n = 256 * a + r \<Longrightarrow> a = 256 * b + s \<Longrightarrow> b = 256 * c + t \<Longrightarrow>
     r + 256 * s + 65536 * t + 16777216 * c = (n::nat)"
  by simp

lemma nat_split_4:
  assumes "(n::nat) < 4294967296"
  shows "n mod 256 + 256 * (n div 256 mod 256) + 65536 * (n div 65536 mod 256)
     + 16777216 * (n div 16777216 mod 256) = n"
proof -
  have "n div 65536 = n div 256 div 256" "n div 16777216 = n div 256 div 256 div 256"
    by (simp_all add: div_mult2_eq [symmetric])
  moreover have "n div 16777216 mod 256 = n div 16777216"
    using assms by (simp add: div_less_iff_less_mult)
  ultimately show ?thesis
    by (simp only:) (rule glue_4 [of n "n div 256" _ "n div 256 div 256"]; simp only: mult_div_mod_eq)
qed

lemma le32_nth:
  "le32 x ! 0 = ucast x" "le32 x ! 1 = ucast (drop_bit 8 x)"
  "le32 x ! 2 = ucast (drop_bit 16 x)" "le32 x ! 3 = ucast (drop_bit 24 x)"
  by (simp_all add: le32_def)

lemma of_le32_le32 [simp]: "of_le32 (le32 x) = x"
  using nat_split_4 [OF unat_u32_less, of x]
  by (simp only: word_unat_eq_iff unat_of_le32 le32_nth unat_shift)

lemma list_of_length_2: "length xs = 2 \<longleftrightarrow> (\<exists>a b. xs = [a, b])"
  by (auto simp: length_Suc_conv numeral_2_eq_2)

lemma list_of_length_4: "length xs = 4 \<longleftrightarrow> (\<exists>a b c d. xs = [a, b, c, d])"
  by (auto simp: length_Suc_conv eval_nat_numeral)

lemma le16_of_le16: "length bs = 2 \<Longrightarrow> le16 (of_le16 bs) = bs"
  by (auto simp: list_of_length_2 le16_def word_unat_eq_iff unat_of_le16 unat_shift)

lemma le32_of_le32:
  assumes "length bs = 4"
  shows "le32 (of_le32 bs) = bs"
proof -
  obtain a b c d where bs: "bs = [a, b, c, d]"
    using assms by (auto simp: list_of_length_4)
  have low: "(unat a + 256 * n) mod 256 = unat a" "(unat a + 256 * n) div 256 = n" for n
    using unat_byte_less [of a] by simp_all
  have low': "(unat b + 256 * n) mod 256 = unat b" "(unat b + 256 * n) div 256 = n" for n
    using unat_byte_less [of b] by simp_all
  have low'': "(unat c + 256 * n) mod 256 = unat c" "(unat c + 256 * n) div 256 = n" for n
    using unat_byte_less [of c] by simp_all
  have sum: "unat a + 256 * unat b + 65536 * unat c + 16777216 * unat d
      = unat a + 256 * (unat b + 256 * (unat c + 256 * unat d))"
    by simp
  have div: "n div 65536 = n div 256 div 256" "n div 16777216 = n div 256 div 256 div 256" for n :: nat
    by (simp_all add: div_mult2_eq [symmetric])
  have ix: "bs ! 0 = a" "bs ! 1 = b" "bs ! 2 = c" "bs ! 3 = d"
    by (simp_all add: bs)
  show ?thesis
    unfolding le32_def bs list.inject word_unat_eq_iff unat_shift unat_of_le32 [of bs, unfolded bs]
    unfolding ix [unfolded bs] sum div low low' low''
    using unat_byte_less [of d] by simp
qed

section \<open>Structures as bytes\<close>

text \<open>
  The interface between a structure and the memory it is stored in: a fixed size, an image of
  exactly that many bytes, and a reading that inverts it on such images.
\<close>

locale codec =
  fixes enc :: "'a \<Rightarrow> u8 list"
    and dec :: "u8 list \<Rightarrow> 'a"
    and sz :: nat
    and wf :: "'a \<Rightarrow> bool"
  assumes enc_length: "wf x \<Longrightarrow> length (enc x) = sz"
    and dec_enc: "wf x \<Longrightarrow> dec (enc x) = x"
    and enc_dec: "length bs = sz \<Longrightarrow> enc (dec bs) = bs"
    and dec_wf: "length bs = sz \<Longrightarrow> wf (dec bs)"
begin

lemma enc_inject: "wf x \<Longrightarrow> wf y \<Longrightarrow> enc x = enc y \<longleftrightarrow> x = y"
  by (metis dec_enc)

lemma dec_inject: "length bs = sz \<Longrightarrow> length cs = sz \<Longrightarrow> dec bs = dec cs \<longleftrightarrow> bs = cs"
  by (metis enc_dec)

lemma enc_surj: "length bs = sz \<Longrightarrow> \<exists>x. wf x \<and> enc x = bs"
  by (metis enc_dec dec_wf)

text \<open>A structure that was stored at the front of a buffer is read back whole.\<close>

lemma dec_prefix: "wf x \<Longrightarrow> dec (take sz (enc x @ rest)) = x"
  by (simp add: enc_length dec_enc)

end

interpretation c16: codec le16 of_le16 2 "\<lambda>_. True"
  by unfold_locales (simp_all add: le16_of_le16)

interpretation c32: codec le32 of_le32 4 "\<lambda>_. True"
  by unfold_locales (simp_all add: le32_of_le32)

lemma le16_of_le16_list [simp]: "le16 (of_le16 [a, b]) = [a, b]"
  by (simp add: le16_of_le16)

lemma le32_of_le32_list [simp]: "le32 (of_le32 [a, b, c, d]) = [a, b, c, d]"
  by (simp add: le32_of_le32)

section \<open>Lists\<close>

text \<open>Overwriting part of a buffer.\<close>

definition splice :: "nat \<Rightarrow> 'a list \<Rightarrow> 'a list \<Rightarrow> 'a list" where
  "splice off xs bs = take off bs @ xs @ drop (off + length xs) bs"

lemma length_splice [simp]:
  "off + length xs \<le> length bs \<Longrightarrow> length (splice off xs bs) = length bs"
  by (simp add: splice_def)

lemma splice_all: "length xs = length bs \<Longrightarrow> splice 0 xs bs = xs"
  by (simp add: splice_def)

lemma splice_Nil [simp]: "splice off [] bs = bs"
  by (simp add: splice_def)

lemma splice_append_right:
  "length a = off \<Longrightarrow> splice off xs (a @ b) = a @ splice 0 xs b"
  by (simp add: splice_def)

lemma splice_append_left:
  "length xs \<le> length a \<Longrightarrow> splice 0 xs (a @ b) = splice 0 xs a @ b"
  by (simp add: splice_def)

lemma take_drop_splice:
  "off + length xs \<le> length bs \<Longrightarrow> take (length xs) (drop off (splice off xs bs)) = xs"
  by (simp add: splice_def)

lemma insert_eq_Diff:
  assumes "insert x A = insert x B" and "x \<notin> B"
  shows "A - {x} = B"
proof -
  have "A - {x} = insert x A - {x}" by simp
  also have "\<dots> = insert x B - {x}" by (simp only: assms(1))
  also have "\<dots> = B" using assms(2) by simp
  finally show ?thesis .
qed

end
