(* ===== verification/Types.thy ===== *)
theory Types
  imports Prelude
begin

text \<open>
  The data of the program: pointers, the structures and enumerations of the headers under
  \<open>src/src/include\<close>, and the memory images of those structures that are copied as bytes
  (\<open>eth_hdr\<close>, \<open>ipv4_hdr\<close>, \<open>udp_hdr\<close>, \<open>ipv4_psd_hdr\<close>), each an interpretation of \<open>codec\<close>.
\<close>

section \<open>Pointers\<close>

text \<open>
  A pointer is null, or a byte offset into a block of memory. \<open>POINTER_ADD\<close> adds bytes; the
  offset may leave the block, accesses are checked where they happen.
\<close>

datatype ptr = Null | Ptr nat nat

fun POINTER_ADD :: "ptr \<Rightarrow> nat \<Rightarrow> ptr" where
  "POINTER_ADD Null n = Null"
| "POINTER_ADD (Ptr b off) n = Ptr b (off + n)"

lemma POINTER_ADD_0 [simp]: "POINTER_ADD p 0 = p"
  by (cases p) simp_all

section \<open>Sockets (\<open>socket.h\<close>, \<open>link.h\<close>, \<open>ip.h\<close>)\<close>

record net_socket =
  raw_sockfd :: int
  family :: int
  protocol :: int
  link_options :: ptr
  ip_options :: ptr
  proto_options :: ptr
  iface :: ptr

text \<open>
  \<open>enum LINK_TYPE\<close> is an integer in C and \<open>new_socket\<close> stores any \<open>int\<close> into it, so values
  that name no link type are kept.
\<close>

datatype LINK_TYPE = ETH | SLIP | OtherLink int

definition LINK_TYPE_of_int :: "int \<Rightarrow> LINK_TYPE" where
  "LINK_TYPE_of_int i = (if i = 0 then ETH else if i = 1 then SLIP else OtherLink i)"

text \<open>The union \<open>proto\<close> of \<open>link_options\<close>, by the member that was written last.\<close>

datatype link_proto = eth_header ptr | slip_port u16

record link_options_t =
  link_type :: LINK_TYPE
  proto :: link_proto

text \<open>
  Reading the member \<open>eth_header\<close> of the union. The structure comes zeroed from \<open>calloc\<close>, so
  an untouched or zero union reads as a null pointer; another port read as a pointer points
  to no block.
\<close>

fun read_eth_header :: "link_proto \<Rightarrow> ptr option" where
  "read_eth_header (eth_header p) = Some p"
| "read_eth_header (slip_port x) = (if x = 0 then Some Null else None)"

record ipv4_option_structure =
  copied_flags :: "1 word"
  opt_class :: "2 word"
  opt_num :: "5 word"
  option_len :: u8
  option_octets :: ptr

record ipv4_socket_options =
  pre :: "3 word"
  low_delay :: "1 word"
  high_throughput :: "1 word"
  high_reliability :: "1 word"
  no_fragment :: "1 word"
  sopt_ttl :: u8
  options :: ptr
  mtu :: u16

text \<open>What \<open>calloc\<close> leaves in these structures.\<close>

definition zero_net_socket :: net_socket where
  "zero_net_socket = \<lparr>raw_sockfd = 0, family = 0, protocol = 0, link_options = Null,
     ip_options = Null, proto_options = Null, iface = Null\<rparr>"

definition zero_link_options :: link_options_t where
  "zero_link_options = \<lparr>link_type = ETH, proto = eth_header Null\<rparr>"

definition zero_ipv4_socket_options :: ipv4_socket_options where
  "zero_ipv4_socket_options = \<lparr>pre = 0, low_delay = 0, high_throughput = 0,
     high_reliability = 0, no_fragment = 0, sopt_ttl = 0, options = Null, mtu = 0\<rparr>"

section \<open>IPv4 enumerations (\<open>ip.h\<close>)\<close>

datatype IPV4_TOS_PRE = ROUTINE | PRIORITY | IMMEDIATE | FLASH | FLASH_OVERRIDE | ECP
  | INTERNETWORK_CTRL | NETWORK_CTRL

primrec IPV4_TOS_PRE_value :: "IPV4_TOS_PRE \<Rightarrow> 3 word" where
  "IPV4_TOS_PRE_value ROUTINE = 0"
| "IPV4_TOS_PRE_value PRIORITY = 1"
| "IPV4_TOS_PRE_value IMMEDIATE = 2"
| "IPV4_TOS_PRE_value FLASH = 3"
| "IPV4_TOS_PRE_value FLASH_OVERRIDE = 4"
| "IPV4_TOS_PRE_value ECP = 5"
| "IPV4_TOS_PRE_value INTERNETWORK_CTRL = 6"
| "IPV4_TOS_PRE_value NETWORK_CTRL = 7"

lemma IPV4_TOS_PRE_value_inject [simp]:
  "IPV4_TOS_PRE_value a = IPV4_TOS_PRE_value b \<longleftrightarrow> a = b"
  by (cases a; cases b) simp_all

text \<open>Precedence levels are ordered by their value.\<close>

instantiation IPV4_TOS_PRE :: linorder
begin

definition less_eq_IPV4_TOS_PRE :: "IPV4_TOS_PRE \<Rightarrow> IPV4_TOS_PRE \<Rightarrow> bool" where
  "less_eq_IPV4_TOS_PRE a b \<longleftrightarrow> IPV4_TOS_PRE_value a \<le> IPV4_TOS_PRE_value b"

definition less_IPV4_TOS_PRE :: "IPV4_TOS_PRE \<Rightarrow> IPV4_TOS_PRE \<Rightarrow> bool" where
  "less_IPV4_TOS_PRE a b \<longleftrightarrow> IPV4_TOS_PRE_value a < IPV4_TOS_PRE_value b"

instance
  by standard (auto simp: less_eq_IPV4_TOS_PRE_def less_IPV4_TOS_PRE_def order.strict_iff_order)

end

datatype IPV4_FLAGS = DONT_FRAGMENT | LAST_FRAGMENT

primrec IPV4_FLAGS_value :: "IPV4_FLAGS \<Rightarrow> int" where
  "IPV4_FLAGS_value DONT_FRAGMENT = 2 ^ 6"
| "IPV4_FLAGS_value LAST_FRAGMENT = 2 ^ 7"

section \<open>Headers and their memory images\<close>

text \<open>
  The packed bit-field structures are laid out as the little-endian System V ABI does it: a
  16 or 32 bit field is stored with its low byte first, and of two 4 bit fields in a byte the
  first one declared is the low half. A multi-byte field that the code sets through
  \<open>htons\<close> therefore reads in network byte order on the wire.
\<close>

record eth_hdr =
  mac_dst :: "u8 list"
  mac_src :: "u8 list"
  eth_ptcl :: u16

definition eth_hdr_wf :: "eth_hdr \<Rightarrow> bool" where
  "eth_hdr_wf h \<longleftrightarrow> length (mac_dst h) = 6 \<and> length (mac_src h) = 6"

definition eth_hdr_bytes :: "eth_hdr \<Rightarrow> u8 list" where
  "eth_hdr_bytes h = mac_dst h @ mac_src h @ le16 (eth_ptcl h)"

definition eth_hdr_of :: "u8 list \<Rightarrow> eth_hdr" where
  "eth_hdr_of bs = \<lparr>mac_dst = take 6 bs, mac_src = take 6 (drop 6 bs),
     eth_ptcl = of_le16 (drop 12 bs)\<rparr>"

interpretation eth: codec eth_hdr_bytes eth_hdr_of 14 eth_hdr_wf
proof
  fix bs :: "u8 list" assume len: "length bs = 14"
  have "le16 (of_le16 (drop 12 bs)) = drop 12 bs"
    using len by (simp add: le16_of_le16)
  moreover have "take 6 bs @ take 6 (drop 6 bs) @ drop 12 bs = bs"
    by (metis append_take_drop_id drop_drop numeral_Bit0)
  ultimately show "eth_hdr_bytes (eth_hdr_of bs) = bs"
    by (simp add: eth_hdr_bytes_def eth_hdr_of_def)
qed (simp_all add: eth_hdr_bytes_def eth_hdr_of_def eth_hdr_wf_def)

record ipv4_hdr =
  ihl :: "4 word"
  version :: "4 word"
  tos :: u8
  hlen :: u16
  hid :: u16
  flags_foff :: u16
  ttl :: u8
  ptcl :: u8
  hcsum :: u16
  hsrc :: u32
  hdst :: u32

definition nibbles :: "4 word \<Rightarrow> 4 word \<Rightarrow> u8" where
  "nibbles lo hi = word_of_nat (unat lo + 16 * unat hi)"

definition ipv4_hdr_bytes :: "ipv4_hdr \<Rightarrow> u8 list" where
  "ipv4_hdr_bytes h = [nibbles (ihl h) (version h), tos h] @ le16 (hlen h) @ le16 (hid h)
     @ le16 (flags_foff h) @ [ttl h, ptcl h] @ le16 (hcsum h) @ le32 (hsrc h) @ le32 (hdst h)"

definition ipv4_hdr_of :: "u8 list \<Rightarrow> ipv4_hdr" where
  "ipv4_hdr_of bs = \<lparr>ihl = word_of_nat (unat (bs ! 0) mod 16), version = word_of_nat (unat (bs ! 0) div 16),
     tos = bs ! 1, hlen = of_le16 (take 2 (drop 2 bs)), hid = of_le16 (take 2 (drop 4 bs)),
     flags_foff = of_le16 (take 2 (drop 6 bs)), ttl = bs ! 8, ptcl = bs ! 9,
     hcsum = of_le16 (take 2 (drop 10 bs)), hsrc = of_le32 (take 4 (drop 12 bs)),
     hdst = of_le32 (take 4 (drop 16 bs))\<rparr>"

lemma unat_nibble_less: "unat (x :: 4 word) < 16"
  by (rule order.strict_trans2 [OF unsigned_less]) simp

lemma unat_nibbles: "unat (nibbles lo hi) = unat lo + 16 * unat hi"
proof -
  have "unat lo + 16 * unat hi < 256"
    using unat_nibble_less [of lo] unat_nibble_less [of hi] by linarith
  then show ?thesis unfolding nibbles_def unat_of_nat by simp
qed

lemma nibbles_low: "word_of_nat (unat (nibbles lo hi) mod 16) = lo"
  using unat_nibble_less [of lo] by (simp add: unat_nibbles)

lemma nibbles_high: "word_of_nat (unat (nibbles lo hi) div 16) = hi"
  using unat_nibble_less [of lo] by (simp add: unat_nibbles)

lemma nibbles_split: "nibbles (word_of_nat (unat b mod 16)) (word_of_nat (unat b div 16)) = b"
proof -
  have "unat b div 16 < 16"
    using unat_byte_less [of b] by (simp add: div_less_iff_less_mult)
  then have "unat (word_of_nat (unat b mod 16) :: 4 word) = unat b mod 16"
    "unat (word_of_nat (unat b div 16) :: 4 word) = unat b div 16"
    unfolding unat_of_nat by simp_all
  then show ?thesis
    unfolding word_unat_eq_iff unat_nibbles by simp
qed

lemma length_ipv4_hdr_bytes [simp]: "length (ipv4_hdr_bytes h) = 20"
  by (simp add: ipv4_hdr_bytes_def)

lemma list_of_length_20:
  "length xs = 20 \<longleftrightarrow> (\<exists>x0 x1 x2 x3 x4 x5 x6 x7 x8 x9
     x10 x11 x12 x13 x14 x15 x16 x17 x18 x19.
     xs = [x0, x1, x2, x3, x4, x5, x6, x7, x8, x9,
       x10, x11, x12, x13, x14, x15, x16, x17, x18, x19])"
  by (auto simp: length_Suc_conv eval_nat_numeral)

interpretation ipv4: codec ipv4_hdr_bytes ipv4_hdr_of 20 "\<lambda>_. True"
  by unfold_locales
    (auto simp: list_of_length_20 ipv4_hdr_of_def ipv4_hdr_bytes_def nibbles_split
      nibbles_low nibbles_high nth_append)

lemma ipv4_hdr_of_bytes [simp]: "ipv4_hdr_of (ipv4_hdr_bytes h) = h"
  by (rule ipv4.dec_enc [OF TrueI])

record udp_hdr =
  usrc :: u16
  udst :: u16
  ulen :: u16
  ucsum :: u16

definition udp_hdr_bytes :: "udp_hdr \<Rightarrow> u8 list" where
  "udp_hdr_bytes h = le16 (usrc h) @ le16 (udst h) @ le16 (ulen h) @ le16 (ucsum h)"

definition udp_hdr_of :: "u8 list \<Rightarrow> udp_hdr" where
  "udp_hdr_of bs = \<lparr>usrc = of_le16 (take 2 bs), udst = of_le16 (take 2 (drop 2 bs)),
     ulen = of_le16 (take 2 (drop 4 bs)), ucsum = of_le16 (take 2 (drop 6 bs))\<rparr>"

lemma length_udp_hdr_bytes [simp]: "length (udp_hdr_bytes h) = 8"
  by (simp add: udp_hdr_bytes_def)

lemma list_of_length_8:
  "length xs = 8 \<longleftrightarrow> (\<exists>a b c d e f g h. xs = [a, b, c, d, e, f, g, h])"
  by (auto simp: length_Suc_conv eval_nat_numeral)

interpretation udp: codec udp_hdr_bytes udp_hdr_of 8 "\<lambda>_. True"
  by unfold_locales (auto simp: list_of_length_8 udp_hdr_of_def udp_hdr_bytes_def)

record ipv4_psd_hdr =
  psrc :: u32
  pdst :: u32
  zero :: u8
  pptcl :: u8
  plen :: u16

definition ipv4_psd_hdr_bytes :: "ipv4_psd_hdr \<Rightarrow> u8 list" where
  "ipv4_psd_hdr_bytes h = le32 (psrc h) @ le32 (pdst h) @ [zero h, pptcl h] @ le16 (plen h)"

definition ipv4_psd_hdr_of :: "u8 list \<Rightarrow> ipv4_psd_hdr" where
  "ipv4_psd_hdr_of bs = \<lparr>psrc = of_le32 (take 4 bs), pdst = of_le32 (take 4 (drop 4 bs)),
     zero = bs ! 8, pptcl = bs ! 9, plen = of_le16 (take 2 (drop 10 bs))\<rparr>"

lemma list_of_length_12:
  "length xs = 12 \<longleftrightarrow> (\<exists>a b c d e f g h i j k l. xs = [a, b, c, d, e, f, g, h, i, j, k, l])"
  by (auto simp: length_Suc_conv eval_nat_numeral)

interpretation psd: codec ipv4_psd_hdr_bytes ipv4_psd_hdr_of 12 "\<lambda>_. True"
  by unfold_locales
    (auto simp: list_of_length_12 ipv4_psd_hdr_of_def ipv4_psd_hdr_bytes_def nth_append)

end
