(* ===== verification/Memory.thy ===== *)
theory Memory
  imports Types
begin

text \<open>
  The state of the process and the C library and system operations the program uses:
  the heap with \<open>calloc\<close>, \<open>malloc\<close>, \<open>realloc\<close>, \<open>free\<close> and \<open>memcpy\<close>, the I/O ports with
  \<open>inb\<close> and \<open>outb\<close>, and the system calls. What the outside world decides (whether an
  allocation succeeds, what a port or a call returns, what \<open>rand\<close> gives for a seed) are
  fields of \<open>env\<close>, which no operation changes: a theorem about every state is a theorem
  about every behaviour of the environment.
\<close>

section \<open>The state\<close>

text \<open>A block of memory holds bytes, or one of the structures that are only accessed by field.\<close>

datatype obj =
    Bytes "u8 list"
  | Net_socket net_socket
  | Link_options link_options_t
  | Ip_options ipv4_socket_options

record sockaddr_ll =
  sll_family :: u16
  sll_protocol :: u16
  sll_ifindex :: u32
  sll_hatype :: u16
  sll_pkttype :: u8
  sll_halen :: u8
  sll_addr :: "u8 list"

text \<open>What the program does to the outside: port accesses and system calls, with their data.\<close>

datatype stream = Stdout | Stderr

datatype event =
    Inb u16 u8
  | Outb u16 u8
  | Socket int int u16
  | Setsockopt_bind int "u8 list"
  | Close int
  | If_nametoindex "u8 list"
  | Sendto int "u8 list" sockaddr_ll
  | Ioperm u16 nat
  | Printed_errno stream int        \<comment> \<open>a line with \<open>errno\<close> and its \<open>strerror\<close>\<close>

record env =
  alloc_ok :: "nat \<Rightarrow> bool"         \<comment> \<open>does the allocation of block \<open>b\<close> succeed\<close>
  moves :: "nat \<Rightarrow> bool"            \<comment> \<open>does a \<open>realloc\<close> that could use block \<open>b\<close> move\<close>
  junk :: "nat \<Rightarrow> nat \<Rightarrow> u8"        \<comment> \<open>uninitialised contents of block \<open>b\<close>\<close>
  rand_of :: "u32 \<Rightarrow> int"           \<comment> \<open>the first \<open>rand()\<close> after \<open>srand(seed)\<close>\<close>
  code_addr :: u64                  \<comment> \<open>the address of \<open>ip_initialise\<close>\<close>
  uart :: "nat \<Rightarrow> u8"               \<comment> \<open>the value of the \<open>k\<close>th \<open>inb\<close>\<close>
  sys_ret :: "nat \<Rightarrow> int"           \<comment> \<open>the value of the \<open>k\<close>th system call\<close>
  errno_of :: "nat \<Rightarrow> nat \<Rightarrow> int"   \<comment> \<open>\<open>errno\<close> after so many allocations and system calls\<close>

record world = env +
  heap :: "nat \<rightharpoonup> obj"
  brk :: nat                        \<comment> \<open>the next block to allocate\<close>
  used_ip_id_values :: ptr          \<comment> \<open>global of \<open>ip.c\<close>\<close>
  last_block :: u16                 \<comment> \<open>global of \<open>ip.c\<close>\<close>
  inb_count :: nat
  sys_count :: nat
  trace :: "event list"

type_synonym 'a cprog = "(world, 'a) prog"

text \<open>Blocks that were not allocated yet hold nothing: the invariant of the allocator.\<close>

definition mem_inv :: "world \<Rightarrow> bool" where
  "mem_inv w \<longleftrightarrow> (\<forall>b \<ge> brk w. heap w b = None)"

lemma mem_inv_brk [simp]: "mem_inv w \<Longrightarrow> heap w (brk w) = None"
  by (simp add: mem_inv_def)

lemma mem_inv_Suc_brk [simp]: "mem_inv w \<Longrightarrow> heap w (Suc (brk w)) = None"
  by (simp add: mem_inv_def)

section \<open>Access to blocks\<close>

definition block :: "nat \<Rightarrow> obj cprog" where
  "block b w = (case heap w b of
     Some x \<Rightarrow> Returns x w
   | None \<Rightarrow> if b < brk w then Faults UseAfterFree else Faults WildPointer)"

definition set_block :: "nat \<Rightarrow> obj \<Rightarrow> unit cprog" where
  "set_block b x = modifyp (\<lambda>w. w\<lparr>heap := (heap w)(b \<mapsto> x)\<rparr>)"

fun load_bytes :: "ptr \<Rightarrow> nat \<Rightarrow> u8 list cprog" where
  "load_bytes Null n = faultp NullDeref"
| "load_bytes (Ptr b off) n = bindp (block b) (\<lambda>x. case x of
     Bytes bs \<Rightarrow> if off + n \<le> length bs then retp (take n (drop off bs)) else faultp OutOfBounds
   | _ \<Rightarrow> faultp WildPointer)"

fun store_bytes :: "ptr \<Rightarrow> u8 list \<Rightarrow> unit cprog" where
  "store_bytes Null xs = faultp NullDeref"
| "store_bytes (Ptr b off) xs = bindp (block b) (\<lambda>x. case x of
     Bytes bs \<Rightarrow> if off + length xs \<le> length bs then set_block b (Bytes (splice off xs bs))
       else faultp OutOfBounds
   | _ \<Rightarrow> faultp WildPointer)"

text \<open>A structure that is accessed by field only: the pointer must be to the block's start.\<close>

fun load_obj :: "ptr \<Rightarrow> obj cprog" where
  "load_obj Null = faultp NullDeref"
| "load_obj (Ptr b off) = (if off = 0 then block b else faultp WildPointer)"

fun store_obj :: "ptr \<Rightarrow> obj \<Rightarrow> unit cprog" where
  "store_obj Null x = faultp NullDeref"
| "store_obj (Ptr b off) x =
     (if off = 0 then bindp (block b) (\<lambda>_. set_block b x) else faultp WildPointer)"

definition load_sock :: "ptr \<Rightarrow> net_socket cprog" where
  "load_sock p = bindp (load_obj p) (\<lambda>x. case x of Net_socket s \<Rightarrow> retp s | _ \<Rightarrow> faultp WildPointer)"

definition load_link :: "ptr \<Rightarrow> link_options_t cprog" where
  "load_link p = bindp (load_obj p) (\<lambda>x. case x of Link_options l \<Rightarrow> retp l | _ \<Rightarrow> faultp WildPointer)"

definition load_iopts :: "ptr \<Rightarrow> ipv4_socket_options cprog" where
  "load_iopts p = bindp (load_obj p) (\<lambda>x. case x of Ip_options i \<Rightarrow> retp i | _ \<Rightarrow> faultp WildPointer)"

text \<open>
  A C string: the bytes up to the terminating zero, which \<open>strlen\<close> and the calls that take
  a string look for.
\<close>

fun c_string :: "ptr \<Rightarrow> u8 list cprog" where
  "c_string Null = faultp NullDeref"
| "c_string (Ptr b off) = bindp (block b) (\<lambda>x. case x of
     Bytes bs \<Rightarrow> if 0 \<in> set (drop off bs) then retp (takeWhile (\<lambda>c. c \<noteq> 0) (drop off bs))
       else faultp OutOfBounds
   | _ \<Rightarrow> faultp WildPointer)"

section \<open>The C library\<close>

definition alloc :: "obj \<Rightarrow> ptr cprog" where
  "alloc x w =
     (if alloc_ok w (brk w)
      then Returns (Ptr (brk w) 0) (w\<lparr>heap := (heap w)(brk w \<mapsto> x), brk := Suc (brk w)\<rparr>)
      else Returns Null (w\<lparr>brk := Suc (brk w)\<rparr>))"

definition calloc :: "nat \<Rightarrow> ptr cprog" where
  "calloc n = alloc (Bytes (replicate n 0))"

definition malloc :: "nat \<Rightarrow> ptr cprog" where
  "malloc n w = alloc (Bytes (map (junk w (brk w)) [0..<n])) w"

fun free :: "ptr \<Rightarrow> unit cprog" where
  "free Null = retp ()"
| "free (Ptr b off) = (\<lambda>w. if off = 0 \<and> heap w b \<noteq> None
     then Returns () (w\<lparr>heap := (heap w)(b := None)\<rparr>) else Faults InvalidFree)"

text \<open>
  \<open>realloc\<close> keeps the contents up to the smaller size; it fails, extends or shrinks the block
  where it is, or moves it to a new block and frees the old one. The bytes beyond the old
  size are uninitialised. Size 0 is undefined (C23; implementation-defined before).
\<close>

fun realloc :: "ptr \<Rightarrow> nat \<Rightarrow> ptr cprog" where
  "realloc Null n = malloc n"
| "realloc (Ptr b off) n = (\<lambda>w. case heap w b of
     Some (Bytes bs) \<Rightarrow>
       if off \<noteq> 0 then Faults InvalidFree
       else if n = 0 then Faults ReallocZero
       else if \<not> alloc_ok w (brk w) then Returns Null (w\<lparr>brk := Suc (brk w)\<rparr>)
       else
         let xs = take n bs @ map (junk w (brk w)) [length bs..<n] in
         if moves w (brk w)
         then Returns (Ptr (brk w) 0)
           (w\<lparr>heap := (heap w)(b := None, brk w \<mapsto> Bytes xs), brk := Suc (brk w)\<rparr>)
         else Returns (Ptr b 0) (w\<lparr>heap := (heap w)(b \<mapsto> Bytes xs), brk := Suc (brk w)\<rparr>)
   | _ \<Rightarrow> Faults InvalidFree)"

text \<open>
  \<open>memcpy\<close>; with length 0 it touches nothing, whatever its pointers (\<open>build_packet\<close> documents
  that it relies on this for null pointers).
\<close>

definition memcpy :: "ptr \<Rightarrow> ptr \<Rightarrow> nat \<Rightarrow> unit cprog" where
  "memcpy d s n = (if n = 0 then retp () else bindp (load_bytes s n) (store_bytes d))"

text \<open>\<open>memset\<close>.\<close>

definition memset :: "ptr \<Rightarrow> u8 \<Rightarrow> nat \<Rightarrow> unit cprog" where
  "memset p c n = store_bytes p (replicate n c)"

text \<open>
  \<open>srand(seed)\<close> followed by one \<open>rand()\<close>: some value from 0 to \<open>RAND_MAX\<close>, which is
  \<open>2 ^ 31 - 1\<close> in glibc, that depends on the seed only.
\<close>

definition srand_rand :: "u32 \<Rightarrow> int cprog" where
  "srand_rand seed = getp (\<lambda>w. rand_of w seed mod 2 ^ 31)"

section \<open>Ports and system calls\<close>

definition inb :: "u16 \<Rightarrow> u8 cprog" where
  "inb port w = (let v = uart w (inb_count w) in
     Returns v (w\<lparr>inb_count := Suc (inb_count w), trace := trace w @ [Inb port v]\<rparr>))"

definition outb :: "u16 \<Rightarrow> u8 \<Rightarrow> unit cprog" where
  "outb port c = modifyp (\<lambda>w. w\<lparr>trace := trace w @ [Outb port c]\<rparr>)"

definition syscall :: "event \<Rightarrow> int cprog" where
  "syscall ev w = Returns (sys_ret w (sys_count w))
     (w\<lparr>sys_count := Suc (sys_count w), trace := trace w @ [ev]\<rparr>)"

text \<open>Printing \<open>errno\<close> to one of the standard streams.\<close>

definition print_errno :: "stream \<Rightarrow> unit cprog" where
  "print_errno st = modifyp (\<lambda>w. w\<lparr>trace := trace w @ [Printed_errno st (errno_of w (brk w) (sys_count w))]\<rparr>)"

section \<open>Running memory operations\<close>

text \<open>\<open>bytes_at h p xs\<close>: in heap \<open>h\<close>, the bytes \<open>xs\<close> can be read at \<open>p\<close>.\<close>

fun bytes_at :: "(nat \<rightharpoonup> obj) \<Rightarrow> ptr \<Rightarrow> u8 list \<Rightarrow> bool" where
  "bytes_at h Null xs = False"
| "bytes_at h (Ptr b off) xs = (case h b of
     Some (Bytes bs) \<Rightarrow> off + length xs \<le> length bs \<and> take (length xs) (drop off bs) = xs
   | _ \<Rightarrow> False)"

lemma bytes_at_fresh [simp]:
  "bytes_at h p xs \<Longrightarrow> h b = None \<Longrightarrow> bytes_at (h(b := x)) p xs"
  by (cases p) (auto split: option.splits)

lemma bytes_at_prefix:
  "bytes_at h p (xs @ ys) \<Longrightarrow> bytes_at h p xs"
  by (cases p) (auto split: option.splits obj.splits simp: take_add)

lemma bytes_at_nth:
  assumes "bytes_at h p xs" and "i < length xs"
  shows "bytes_at h (POINTER_ADD p i) [xs ! i]"
proof (cases p)
  case Null
  with assms show ?thesis by simp
next
  case (Ptr b off)
  with assms(1) obtain bs where b: "h b = Some (Bytes bs)" "off + length xs \<le> length bs"
    "take (length xs) (drop off bs) = xs"
    by (auto split: option.splits obj.splits)
  have "xs ! i = bs ! (off + i)" using b(2) assms(2) by (subst b(3) [symmetric]) simp
  with b Ptr assms(2) show ?thesis by (simp add: take_Suc_conv_app_nth)
qed

lemma bytes_at_block [simp]:
  "h b = Some (Bytes bs) \<Longrightarrow> bytes_at h (Ptr b off) xs \<longleftrightarrow>
     off + length xs \<le> length bs \<and> take (length xs) (drop off bs) = xs"
  by simp

declare bytes_at.simps(2) [simp del]

lemma block_Some [simp, exec]: "heap w b = Some x \<Longrightarrow> block b w = Returns x w"
  by (simp add: block_def)

lemma set_block_app [simp, exec]:
  "set_block b x w = Returns () (w\<lparr>heap := (heap w)(b \<mapsto> x)\<rparr>)"
  by (simp add: set_block_def)

lemma load_bytes_at [exec]:
  assumes "bytes_at (heap w) p xs" and "n = length xs"
  shows "load_bytes p n w = Returns xs w"
proof (cases p)
  case Null
  with assms show ?thesis by simp
next
  case (Ptr b off)
  then obtain bs where "heap w b = Some (Bytes bs)"
    using assms by (auto simp: bytes_at.simps split: option.splits obj.splits)
  with assms Ptr show ?thesis by (simp add: exec)
qed

lemma load_bytes_block [exec]:
  "heap w b = Some (Bytes bs) \<Longrightarrow> off + n \<le> length bs \<Longrightarrow>
     load_bytes (Ptr b off) n w = Returns (take n (drop off bs)) w"
  by (simp add: exec)

lemma load_bytes_overrun [exec]:
  "heap w b = Some (Bytes bs) \<Longrightarrow> length bs < off + n \<Longrightarrow>
     load_bytes (Ptr b off) n w = Faults OutOfBounds"
  by (simp add: exec)

lemma store_bytes_block [exec]:
  "heap w b = Some (Bytes bs) \<Longrightarrow> off + length xs \<le> length bs \<Longrightarrow>
     store_bytes (Ptr b off) xs w
       = Returns () (w\<lparr>heap := (heap w)(b \<mapsto> Bytes (splice off xs bs))\<rparr>)"
  by (simp add: exec)

lemma store_bytes_overrun [exec]:
  "heap w b = Some (Bytes bs) \<Longrightarrow> length bs < off + length xs \<Longrightarrow>
     store_bytes (Ptr b off) xs w = Faults OutOfBounds"
  by (simp add: exec)

lemma store_bytes_freed [exec]:
  "heap w b = None \<Longrightarrow> b < brk w \<Longrightarrow> store_bytes (Ptr b off) xs w = Faults UseAfterFree"
  by (simp add: block_def)

lemma memcpy_0 [simp, exec]: "memcpy d s 0 w = Returns () w"
  by (simp add: memcpy_def)

lemma memcpy_run [exec]:
  assumes "bytes_at (heap w) s xs" and "n = length xs"
  shows "memcpy d s n w = (if n = 0 then Returns () w else store_bytes d xs w)"
  using assms by (simp add: memcpy_def exec)

text \<open>\<open>src_at\<close>: what \<open>memcpy\<close> needs of its source; nothing, where the length is 0.\<close>

definition src_at :: "(nat \<rightharpoonup> obj) \<Rightarrow> ptr \<Rightarrow> u8 list \<Rightarrow> bool" where
  "src_at h p xs \<longleftrightarrow> xs = [] \<or> bytes_at h p xs"

lemma src_atI [intro, simp]: "bytes_at h p xs \<Longrightarrow> src_at h p xs"
  by (simp add: src_at_def)

lemma src_at_Nil [simp]: "src_at h p []"
  by (simp add: src_at_def)

lemma src_at_fresh [simp]: "src_at h p xs \<Longrightarrow> h b = None \<Longrightarrow> src_at (h(b := x)) p xs"
  by (auto simp: src_at_def)

lemma memcpy_into [exec]:
  assumes "src_at (heap w) s xs" and "n = length xs" and "heap w b = Some (Bytes bs)"
    and "off + n \<le> length bs"
  shows "memcpy (Ptr b off) s n w
    = Returns () (w\<lparr>heap := (heap w)(b \<mapsto> Bytes (splice off xs bs))\<rparr>)"
proof (cases "xs = []")
  case True
  with assms show ?thesis by (simp add: fun_upd_idem)
next
  case False
  with assms show ?thesis by (simp add: src_at_def memcpy_run store_bytes_block)
qed

lemma c_string_at [exec]:
  assumes "bytes_at (heap w) p (s @ [0])" and "0 \<notin> set s"
  shows "c_string p w = Returns s w"
proof (cases p)
  case Null
  with assms show ?thesis by simp
next
  case (Ptr b off)
  then obtain bs where b: "heap w b = Some (Bytes bs)"
    using assms by (auto simp: bytes_at.simps split: option.splits obj.splits)
  with assms Ptr have "take (length s + 1) (drop off bs) = s @ [0]"
    by simp
  then have "drop off bs = s @ [0] @ drop (length s + 1) (drop off bs)"
    by (metis append_assoc append_take_drop_id)
  then obtain r where r: "drop off bs = s @ 0 # r" by auto
  have "takeWhile (\<lambda>c. c \<noteq> 0) (s @ 0 # r) = s"
    using assms(2) by (subst takeWhile_append2) auto
  with b Ptr r show ?thesis by (simp add: exec)
qed

declare c_string.simps(2) [simp del]

lemma alloc_run [exec]:
  "alloc x w = (if alloc_ok w (brk w)
      then Returns (Ptr (brk w) 0) (w\<lparr>heap := (heap w)(brk w \<mapsto> x), brk := Suc (brk w)\<rparr>)
      else Returns Null (w\<lparr>brk := Suc (brk w)\<rparr>))"
  by (simp add: alloc_def)

lemma free_block [exec]:
  "heap w b = Some x \<Longrightarrow> free (Ptr b 0) w = Returns () (w\<lparr>heap := (heap w)(b := None)\<rparr>)"
  by simp

declare load_bytes.simps(2) [simp del] store_bytes.simps(2) [simp del] free.simps(2) [simp del]
  realloc.simps(2) [simp del]

lemma load_sock_run [exec]:
  "heap w b = Some (Net_socket s) \<Longrightarrow> load_sock (Ptr b 0) w = Returns s w"
  by (simp add: load_sock_def exec)

lemma load_link_run [exec]:
  "heap w b = Some (Link_options l) \<Longrightarrow> load_link (Ptr b 0) w = Returns l w"
  by (simp add: load_link_def exec)

lemma load_iopts_run [exec]:
  "heap w b = Some (Ip_options i) \<Longrightarrow> load_iopts (Ptr b 0) w = Returns i w"
  by (simp add: load_iopts_def exec)

text \<open>Allocating and freeing keep the allocator's invariant.\<close>

lemma mem_inv_alloc [simp]:
  "mem_inv w \<Longrightarrow> mem_inv (w\<lparr>heap := (heap w)(brk w := x), brk := Suc (brk w)\<rparr>)"
  by (simp add: mem_inv_def)

text \<open>
  A state for the concrete instances of the theorems: nothing allocated yet, every allocation
  succeeds, \<open>realloc\<close> works in place, the serial port is ready at its third poll and then at
  every one.
\<close>

definition demo_world :: world where
  "demo_world = \<lparr>alloc_ok = (\<lambda>_. True), moves = (\<lambda>_. False), junk = (\<lambda>_ _. 0xA5),
     rand_of = (\<lambda>_. 7), code_addr = 0x401000, uart = (\<lambda>k. if k < 2 then 0 else 0x60),
     sys_ret = (\<lambda>k. int k), errno_of = (\<lambda>_ _. 12), heap = Map.empty, brk = 0, used_ip_id_values = Null,
     last_block = 0, inb_count = 0, sys_count = 0, trace = []\<rparr>"

text \<open>The same with the blocks \<open>xs\<close> already in memory.\<close>

definition demo_with :: "obj list \<Rightarrow> world" where
  "demo_with xs = demo_world\<lparr>heap := (\<lambda>b. if b < length xs then Some (xs ! b) else None),
     brk := length xs\<rparr>"

lemma mem_inv_demo [simp]: "mem_inv demo_world" "mem_inv (demo_with xs)"
  by (simp_all add: mem_inv_def demo_world_def demo_with_def)

lemma demo_with_simps [simp]:
  "alloc_ok (demo_with xs) b" "\<not> moves (demo_with xs) b" "brk (demo_with xs) = length xs"
  "heap (demo_with xs) b = (if b < length xs then Some (xs ! b) else None)"
  "rand_of (demo_with xs) s = 7" "uart (demo_with xs) k = (if k < 2 then 0 else 0x60)"
  "sys_ret (demo_with xs) k = int k" "sys_count (demo_with xs) = 0" "inb_count (demo_with xs) = 0"
  "trace (demo_with xs) = []" "used_ip_id_values (demo_with xs) = Null" "last_block (demo_with xs) = 0"
  by (simp_all add: demo_with_def demo_world_def)

end
