(* ===== verification/Data_Util.thy ===== *)
theory Data_Util
  imports Memory
begin

text \<open>
  \<open>data_util.h\<close> and \<open>data_util.c\<close>: byte swapping and the host/network conversions, the
  parser of dotted IPv4 addresses \<open>inet_addr\<close> (with \<open>strtok\<close> and \<open>atoi\<close> of the C library),
  and \<open>build_packet\<close>. The byte swaps are shown to give network byte order in memory,
  \<open>inet_addr\<close> to invert the printing of an address.
\<close>

section \<open>Byte order\<close>

definition bswap_16 :: "u16 \<Rightarrow> u16" where
  "bswap_16 x =
     (let hi = ucast (drop_bit 8 (x AND 0xFF00)) :: u8;
          lo = ucast (x AND 0x00FF) :: u8;
          ret = ucast (push_bit 8 (ucast lo :: u32) OR (ucast hi :: u32)) :: u16
      in ret)"

text \<open>
  \<open>bswap_16(lo) << 16\<close> is a shift of an \<open>int\<close>; when the swapped half has its top bit set it is undefined
  in ISO C, and taken as the 32 bit shift that gcc defines.
\<close>

definition bswap_32 :: "u32 \<Rightarrow> u32" where
  "bswap_32 x =
     (let lo = ucast (x AND 0x0000FFFF) :: u16;
          hi = ucast (drop_bit 16 (x AND 0xFFFF0000)) :: u16;
          ret = push_bit 16 (ucast (bswap_16 lo) :: u32) OR (ucast (bswap_16 hi) :: u32)
      in ret)"

definition htons :: "u16 \<Rightarrow> u16" where
  "htons x = bswap_16 x"

definition ntohs :: "u16 \<Rightarrow> u16" where
  "ntohs x = bswap_16 x"

text \<open>\<open>htonl\<close> is declared with a 16 bit argument: a caller's 32 bit value is cut first.\<close>

definition htonl :: "u16 \<Rightarrow> u32" where
  "htonl x = bswap_32 (ucast x)"

lemma mask_consts:
  "(0x00FF :: u16) = mask 8" "(0xFF00 :: u16) = push_bit 8 (mask 8)"
  "(0xFFFF :: u32) = mask 16" "(0xFFFF0000 :: u32) = push_bit 16 (mask 16)"
  by (simp_all add: mask_eq_exp_minus_1)

lemma bit_bswap_16:
  "bit (bswap_16 x) n \<longleftrightarrow> (if n < 8 then bit x (8 + n) else n < 16 \<and> bit x (n - 8))"
  by (auto simp: bswap_16_def Let_def mask_consts bit_simps add.commute dest: bit_imp_le_length)

lemma bit_bswap_32:
  "bit (bswap_32 x) n \<longleftrightarrow>
     (if n < 16 then bit (bswap_16 (ucast (drop_bit 16 x))) n
      else n < 32 \<and> bit (bswap_16 (ucast x)) (n - 16))"
  by (auto simp: bswap_32_def Let_def mask_consts bit_simps bit_bswap_16 dest: bit_imp_le_length)

lemma le16_bswap_16: "le16 (bswap_16 x) = rev (le16 x)"
  by (auto simp: le16_def bit_simps bit_bswap_16 add.commute intro!: bit_eqI dest: bit_imp_le_length)

lemma le32_bswap_32: "le32 (bswap_32 x) = rev (le32 x)"
  by (auto simp: le32_def bit_simps bit_bswap_16 bit_bswap_32 add.commute intro!: bit_eqI dest: bit_imp_le_length)

lemma bswap_16_bswap_16 [simp]: "bswap_16 (bswap_16 x) = x"
  by (rule c16.enc_inject [THEN iffD1]) (simp_all add: le16_bswap_16)

lemma bswap_32_bswap_32 [simp]: "bswap_32 (bswap_32 x) = x"
  by (rule c32.enc_inject [THEN iffD1]) (simp_all add: le32_bswap_32)

lemma le16_htons [simp]: "le16 (htons x) = be16 x"
  by (simp add: htons_def le16_bswap_16 be16_def)

lemma ntohs_htons [simp]: "ntohs (htons x) = x"
  by (simp add: ntohs_def htons_def)

lemma unat_bswap_16: "unat (bswap_16 x) = 256 * (unat x mod 256) + unat x div 256"
proof -
  have "unat x div 256 mod 256 = unat x div 256"
    using unat_u16_less [of x] by (simp add: div_less_iff_less_mult)
  moreover have "unat (bswap_16 x) = unat (of_le16 (rev (le16 x)))"
    by (simp flip: le16_bswap_16)
  ultimately show ?thesis
    by (simp add: unat_of_le16) (simp add: le16_def unat_shift)
qed

section \<open>Parsing addresses\<close>

text \<open>
  The C library's \<open>strtok\<close> with the separator \<open>"."\<close>: the token, if there is one, and the
  string that the next call goes on with. It writes zeros over separators of the duplicated
  string; \<open>inet_addr\<close> never reads that copy otherwise, and frees it.
\<close>

definition dot :: u8 where
  "dot = 46"

definition strtok :: "u8 list \<Rightarrow> u8 list option \<times> u8 list" where
  "strtok s = (let t = dropWhile (\<lambda>c. c = dot) s in
     if t = [] then (None, [])
     else (Some (takeWhile (\<lambda>c. c \<noteq> dot) t), drop 1 (dropWhile (\<lambda>c. c \<noteq> dot) t)))"

text \<open>
  \<open>atoi\<close>: white space, a sign, digits; anything after them is ignored. A value outside
  \<open>int\<close> is undefined behaviour.
\<close>

definition isspace :: "u8 \<Rightarrow> bool" where
  "isspace c \<longleftrightarrow> c = 32 \<or> 9 \<le> c \<and> c \<le> 13"

definition isdigit :: "u8 \<Rightarrow> bool" where
  "isdigit c \<longleftrightarrow> 48 \<le> c \<and> c \<le> 57"

definition digits_value :: "u8 list \<Rightarrow> int" where
  "digits_value ds = foldl (\<lambda>v d. 10 * v + (int (unat d) - 48)) 0 ds"

definition atoi_value :: "u8 list \<Rightarrow> int" where
  "atoi_value s = (let t = dropWhile isspace s in
     case t of
       [] \<Rightarrow> 0
     | c # t' \<Rightarrow>
         if c = 45 then - digits_value (takeWhile isdigit t')
         else if c = 43 then digits_value (takeWhile isdigit t')
         else digits_value (takeWhile isdigit t))"

definition atoi :: "u8 list \<Rightarrow> int cprog" where
  "atoi s = (let v = atoi_value s in
     if - (2 ^ 31) \<le> v \<and> v < 2 ^ 31 then retp v else faultp SignedOverflow)"

definition strdup :: "ptr \<Rightarrow> ptr cprog" where
  "strdup p = bindp (c_string p) (\<lambda>s.
     bindp (malloc (length s + 1)) (\<lambda>q.
     if q = Null then retp Null
     else bindp (store_bytes q (s @ [0])) (\<lambda>_. retp q)))"

text \<open>
  The loop of \<open>inet_addr\<close>. \<open>atoi\<close> of the null pointer that \<open>strtok\<close> gives after the last
  token reads through it. The \<open>uint8_t\<close> value is shifted as an \<open>int\<close>, which gcc defines for
  every value as the shift of the 32 bits.
\<close>

function inet_loop :: "nat \<Rightarrow> u8 list option \<Rightarrow> u8 list \<Rightarrow> u32 \<Rightarrow> u32 cprog" where
  "inet_loop i tok rest ret =
     (if i < 4 then
        (case tok of
           None \<Rightarrow> faultp NullDeref
         | Some t \<Rightarrow> bindp (atoi t) (\<lambda>v.
             let val = word_of_int v :: u8;
                 ret' = ret OR push_bit (i * 8) (ucast val);
                 (tok', rest') = strtok rest
             in inet_loop (Suc i) tok' rest' ret'))
      else retp ret)"
  by pat_completeness auto
termination
  by (relation "measure (\<lambda>(i, _). 4 - i)") auto

declare inet_loop.simps [simp del]

text \<open>
  Without memory for the copy, \<open>strtok\<close> is called with null first: it goes on where its last call
  stopped, which is nowhere in the first call of a program, and later in a copy that was freed.
\<close>

definition inet_addr :: "ptr \<Rightarrow> u32 cprog" where
  "inet_addr ip = bindp (strdup ip) (\<lambda>tmp.
     if tmp = Null then faultp StaleStrtok
     else bindp (c_string tmp) (\<lambda>s.
       let (tok, rest) = strtok s in
       if tok = None then retp 0
       else bindp (inet_loop 0 tok rest 0) (\<lambda>ret.
         bindp (free tmp) (\<lambda>_. retp ret))))"

section \<open>Building packets\<close>

text \<open>\<open>build_packet\<close> stores the packet through \<open>pkt\<close>; here it returns it with the size.\<close>

definition build_packet :: "ptr \<Rightarrow> nat \<Rightarrow> ptr \<Rightarrow> nat \<Rightarrow> ptr \<Rightarrow> nat \<Rightarrow> (ptr \<times> nat) cprog" where
  "build_packet iphdr iplen ptclhdr ptclen payload len =
     (let total = size_add (size_add iplen ptclen) len in
      bindp (malloc total) (\<lambda>ret.
      bindp (assertp (ret \<noteq> Null)) (\<lambda>_.
      bindp (memcpy ret iphdr iplen) (\<lambda>_.
      bindp (memcpy (POINTER_ADD ret iplen) ptclhdr ptclen) (\<lambda>_.
      bindp (memcpy (POINTER_ADD ret (iplen + ptclen)) payload len) (\<lambda>_.
      retp (ret, total)))))))"

section \<open>Correctness of the address parser\<close>

text \<open>The decimal printing of a number and of an address, which the parser is to invert.\<close>

fun decimal :: "nat \<Rightarrow> u8 list" where
  "decimal n = (if n < 10 then [word_of_nat (48 + n)]
     else decimal (n div 10) @ [word_of_nat (48 + n mod 10)])"

declare decimal.simps [simp del]

fun dotted :: "u8 list \<Rightarrow> u8 list" where
  "dotted [] = []"
| "dotted [a] = decimal (unat a)"
| "dotted (a # os) = decimal (unat a) @ dot # dotted os"

lemma unat_digit: "k < 10 \<Longrightarrow> unat (word_of_nat (48 + k) :: u8) = 48 + k"
  unfolding unat_of_nat by simp

lemma uint_digit: "k < 10 \<Longrightarrow> uint (word_of_nat (48 + k) :: u8) = 48 + int k"
  by (metis unat_digit uint_nat of_nat_add of_nat_numeral)

lemma digits_value_snoc: "digits_value (xs @ [d]) = 10 * digits_value xs + (int (unat d) - 48)"
  by (simp add: digits_value_def)

lemma digits_value_decimal: "digits_value (decimal n) = int n"
proof (induction n rule: decimal.induct)
  case (1 n)
  show ?case
  proof (cases "n < 10")
    case True
    then show ?thesis
      by (subst decimal.simps) (simp add: digits_value_def uint_digit del: of_nat_add)
  next
    case False
    with 1 have "digits_value (decimal (n div 10)) = int (n div 10)" by simp
    moreover have "digits_value (decimal n)
        = 10 * digits_value (decimal (n div 10)) + (int (48 + n mod 10) - 48)"
      using False by (subst decimal.simps) (simp only: if_False digits_value_snoc unat_digit
          mod_less_divisor zero_less_numeral)
    moreover have "10 * int (n div 10) + (int (48 + n mod 10) - 48) = int n"
      by presburger
    ultimately show ?thesis by simp
  qed
qed

lemma isdigit_unat: "isdigit c \<longleftrightarrow> 48 \<le> unat c \<and> unat c \<le> 57"
  by (simp add: isdigit_def word_le_nat_alt)

lemma decimal_digits: "c \<in> set (decimal n) \<Longrightarrow> isdigit c"
proof (induction n rule: decimal.induct)
  case (1 n)
  have d: "isdigit (word_of_nat (48 + k))" if "k < 10" for k
    using unat_digit [OF that] that unfolding isdigit_unat by simp
  show ?case
  proof (cases "n < 10")
    case True
    with 1 have "c = word_of_nat (48 + n)" by (simp add: decimal.simps)
    with d True show ?thesis by simp
  next
    case False
    with 1(2) have "c \<in> set (decimal (n div 10)) \<or> c = word_of_nat (48 + n mod 10)"
      by (subst (asm) decimal.simps) auto
    with d [of "n mod 10"] 1(1) [OF False] show ?thesis by auto
  qed
qed

lemma decimal_not_Nil [simp]: "decimal n \<noteq> []"
  by (subst decimal.simps) simp

lemma isdigit_not_special:
  "isdigit c \<Longrightarrow> \<not> isspace c" "isdigit c \<Longrightarrow> c \<noteq> 45" "isdigit c \<Longrightarrow> c \<noteq> 43" "isdigit c \<Longrightarrow> c \<noteq> dot"
  "isdigit c \<Longrightarrow> c \<noteq> 0"
  by (auto simp: isdigit_unat isspace_def dot_def word_le_nat_alt word_unat_eq_iff)

lemma decimal_no_dot [simp]: "dot \<notin> set (decimal n)"
  using decimal_digits isdigit_not_special(4) by blast

lemma decimal_no_0 [simp]: "0 \<notin> set (decimal n)"
  using decimal_digits isdigit_not_special(5) by blast

lemma atoi_value_decimal [simp]: "atoi_value (decimal n) = int n"
proof -
  obtain c cs where d: "decimal n = c # cs" by (cases "decimal n") simp_all
  then have "isdigit c" using decimal_digits [of c n] by simp
  then have "dropWhile isspace (decimal n) = c # cs" "c \<noteq> 45" "c \<noteq> 43"
    using isdigit_not_special [of c] by (simp_all add: d)
  moreover have "takeWhile isdigit (decimal n) = decimal n"
    using decimal_digits by (simp add: takeWhile_eq_all_conv)
  ultimately show ?thesis
    using digits_value_decimal [of n] by (simp add: atoi_value_def d)
qed

lemma while_not_dot:
  "dot \<notin> set t \<Longrightarrow> takeWhile (\<lambda>c. c \<noteq> dot) (t @ dot # r) = t"
  "dot \<notin> set t \<Longrightarrow> dropWhile (\<lambda>c. c \<noteq> dot) (t @ dot # r) = dot # r"
  "dot \<notin> set t \<Longrightarrow> takeWhile (\<lambda>c. c \<noteq> dot) t = t"
  "dot \<notin> set t \<Longrightarrow> dropWhile (\<lambda>c. c \<noteq> dot) t = []"
  by (induction t) auto

lemma strtok_token [simp]:
  "t \<noteq> [] \<Longrightarrow> dot \<notin> set t \<Longrightarrow> strtok (t @ dot # r) = (Some t, r)"
  by (cases t) (auto simp: strtok_def Let_def while_not_dot)

lemma strtok_last [simp]: "t \<noteq> [] \<Longrightarrow> dot \<notin> set t \<Longrightarrow> strtok t = (Some t, [])"
  by (cases t) (auto simp: strtok_def Let_def while_not_dot)

lemma atoi_run [exec]:
  "- (2 ^ 31) \<le> atoi_value s \<Longrightarrow> atoi_value s < 2 ^ 31 \<Longrightarrow> atoi s w = Returns (atoi_value s) w"
  by (simp add: atoi_def)

lemma strdup_run [exec]:
  assumes "c_string p w = Returns s w" and "alloc_ok w (brk w)"
  shows "strdup p w = Returns (Ptr (brk w) 0)
    (w\<lparr>heap := (heap w)(brk w \<mapsto> Bytes (s @ [0])), brk := Suc (brk w)\<rparr>)"
  using assms by (simp add: strdup_def malloc_def exec splice_all)

lemma c_string_no_0:
  assumes "c_string p w = Returns s t"
  shows "0 \<notin> set s \<and> t = w"
proof (cases p)
  case (Ptr b off)
  show ?thesis
  proof (cases "heap w b")
    case None
    with assms Ptr show ?thesis by (simp add: c_string.simps block_def bindp_def split: if_splits)
  next
    case (Some x)
    with assms Ptr show ?thesis
      by (cases x) (auto simp: c_string.simps dest: set_takeWhileD split: if_splits)
  qed
qed (use assms in simp)

text \<open>The result of the loop, once the tokens are known.\<close>

fun address_of_tokens :: "nat \<Rightarrow> u8 list option \<Rightarrow> u8 list \<Rightarrow> u32 \<Rightarrow> (fault + u32)" where
  "address_of_tokens 0 tok rest ret = Inr ret"
| "address_of_tokens (Suc n) None rest ret = Inl NullDeref"
| "address_of_tokens (Suc n) (Some t) rest ret =
     (let v = atoi_value t in
      if - (2 ^ 31) \<le> v \<and> v < 2 ^ 31
      then address_of_tokens n (fst (strtok rest)) (snd (strtok rest))
        (ret OR push_bit ((3 - n) * 8) (ucast (word_of_int v :: u8)))
      else Inl SignedOverflow)"

lemma inet_loop_address:
  "n \<le> 4 \<Longrightarrow> inet_loop (4 - n) tok rest ret w
     = (case address_of_tokens n tok rest ret of Inl f \<Rightarrow> Faults f | Inr r \<Rightarrow> Returns r w)"
proof (induction n arbitrary: tok rest ret)
  case 0
  then show ?case by (subst inet_loop.simps) simp
next
  case (Suc n)
  then have "Suc (4 - Suc n) = 4 - n" "4 - Suc n = 3 - n" by simp_all
  with Suc show ?case
    by (subst inet_loop.simps) (auto simp: atoi_def exec Let_def split: option.split prod.split)
qed

text \<open>\<open>inet_addr\<close> on a readable string: what it returns and what it does to the heap.\<close>

lemma inet_addr_run:
  assumes "c_string p w = Returns s w" and "alloc_ok w (brk w)" and "mem_inv w"
  shows "inet_addr p w =
    (if fst (strtok s) = None
     then Returns 0 (w\<lparr>heap := (heap w)(brk w \<mapsto> Bytes (s @ [0])), brk := Suc (brk w)\<rparr>)
     else case address_of_tokens 4 (fst (strtok s)) (snd (strtok s)) 0 of
       Inl f \<Rightarrow> Faults f
     | Inr r \<Rightarrow> Returns r (w\<lparr>brk := Suc (brk w)\<rparr>))"
proof -
  let ?w = "w\<lparr>heap := (heap w)(brk w \<mapsto> Bytes (s @ [0])), brk := Suc (brk w)\<rparr>"
  have "c_string (Ptr (brk w) 0) ?w = Returns s ?w"
    using c_string_no_0 [OF assms(1)] by (intro c_string_at) simp_all
  moreover have "inet_loop 0 tok rest 0 ?w
      = (case address_of_tokens 4 tok rest 0 of Inl f \<Rightarrow> Faults f | Inr r \<Rightarrow> Returns r ?w)" for tok rest
    using inet_loop_address [of 4 tok rest 0 ?w] by simp
  moreover have "free (Ptr (brk w) 0) ?w = Returns () (w\<lparr>brk := Suc (brk w)\<rparr>)"
    using assms(3) by (simp add: free_block fun_upd_idem)
  ultimately show ?thesis
    using strdup_run [OF assms(1,2)]
    by (auto simp: inet_addr_def split: prod.split sum.split)
qed

lemma bit_byte_high [simp]:
  "\<not> bit (b :: u8) (8 + n)" "\<not> bit (b :: u8) (16 + n)" "\<not> bit (b :: u8) (24 + n)"
  by (auto dest: bit_imp_le_length)

lemma le32_address:
  "le32 (0 OR push_bit 0 (ucast a) OR push_bit 8 (ucast b) OR push_bit 16 (ucast c)
     OR push_bit 24 (ucast (d :: u8))) = [a, b, c, d]"
  by (auto simp: le32_def bit_simps intro!: bit_eqI dest: bit_imp_le_length)

lemma strtok_dotted [simp]: "strtok (dotted (a # os)) = (Some (decimal (unat a)), dotted os)"
  by (cases os) simp_all

lemma strtok_Nil [simp]: "strtok [] = (None, [])"
  by (simp add: strtok_def)

declare address_of_tokens.simps [simp del]

lemma address_step:
  "address_of_tokens (Suc n) (Some (decimal (unat (a :: u8)))) rest ret
     = address_of_tokens n (fst (strtok rest)) (snd (strtok rest))
         (ret OR push_bit ((3 - n) * 8) (ucast a))"
proof -
  have v: "atoi_value (decimal (unat a)) = uint a"
    by simp
  have "uint a < 2 ^ LENGTH(8)"
    by (rule unsigned_less)
  then have "uint a < 2 ^ 31"
    by simp
  moreover have "- (2 ^ 31) \<le> uint a"
    by (rule order_trans [OF _ uint_ge_0]) simp
  ultimately have "- (2 ^ 31) \<le> uint a \<and> uint a < 2 ^ 31" by (intro conjI)
  then show ?thesis
    unfolding address_of_tokens.simps(3) Let_def v word_of_int_uint by (rule if_P)
qed

lemma address_step_4:
  "address_of_tokens 4 (Some (decimal (unat a))) rest ret
     = address_of_tokens 3 (fst (strtok rest)) (snd (strtok rest)) (ret OR push_bit 0 (ucast (a :: u8)))"
  using address_step [of 3 a rest ret] by simp

lemma address_steps:
  "address_of_tokens 3 (Some (decimal (unat a))) rest ret
     = address_of_tokens (Suc (Suc 0)) (fst (strtok rest)) (snd (strtok rest)) (ret OR push_bit 8 (ucast (a :: u8)))"
  "address_of_tokens (Suc (Suc 0)) (Some (decimal (unat a))) rest ret
     = address_of_tokens (Suc 0) (fst (strtok rest)) (snd (strtok rest)) (ret OR push_bit 16 (ucast a))"
  "address_of_tokens (Suc 0) (Some (decimal (unat a))) rest ret
     = Inr (ret OR push_bit 24 (ucast a))"
  "address_of_tokens 3 None rest ret = Inl NullDeref"
  "address_of_tokens (Suc (Suc 0)) None rest ret = Inl NullDeref"
  "address_of_tokens (Suc 0) None rest ret = Inl NullDeref"
  using address_step [of 2 a rest ret] address_step [of 1 a rest ret]
    address_step [of 0 a rest ret] address_of_tokens.simps(2) [of 2 rest ret]
    address_of_tokens.simps(2) [of 1 rest ret] address_of_tokens.simps(2) [of 0 rest ret]
  by (simp_all add: address_of_tokens.simps(1) numeral_2_eq_2 numeral_3_eq_3)

text \<open>A dotted address is parsed to the word of its octets.\<close>

lemma inet_addr_dotted_run:
  assumes "c_string p w = Returns (dotted (a # b # c # d # os)) w"
    and "alloc_ok w (brk w)" and "mem_inv w"
  shows "inet_addr p w = Returns (of_le32 [a, b, c, d]) (w\<lparr>brk := Suc (brk w)\<rparr>)"
proof -
  have "address_of_tokens 4 (Some (decimal (unat a))) (dotted (b # c # d # os)) 0
      = Inr (0 OR push_bit 0 (ucast a) OR push_bit 8 (ucast b) OR push_bit 16 (ucast c)
          OR push_bit 24 (ucast d))"
    by (simp add: address_step_4 address_steps or.assoc del: dotted.simps)
  also have "0 OR push_bit 0 (ucast a) OR push_bit 8 (ucast b) OR push_bit 16 (ucast c)
      OR push_bit 24 (ucast d) = of_le32 [a, b, c, d]"
    by (metis of_le32_le32 le32_address)
  finally show ?thesis
    using inet_addr_run [OF assms] by (simp del: dotted.simps)
qed

section \<open>Properties\<close>

text \<open>\<open>htons\<close> puts a 16 bit value into network byte order: its image in the memory of the
  little-endian host is the big-endian image of the argument, and \<open>ntohs\<close> undoes it.\<close>

theorem htons_network_order:
  "le16 (htons x) = be16 x \<and> ntohs (htons x) = x \<and> htons (ntohs x) = x"
  by (simp add: ntohs_def) (simp add: htons_def)

text \<open>\<open>bswap_32\<close>, which swaps the halves and the bytes in each, reverses all four bytes and is
  its own inverse.\<close>

theorem bswap_32_reverses: "le32 (bswap_32 x) = rev (le32 x) \<and> bswap_32 (bswap_32 x) = x"
  by (simp add: le32_bswap_32)

text \<open>\<open>htonl\<close> takes a 16 bit argument, so called with a 32 bit value it gives the value in
  network byte order exactly when the value is below 65536; the high half is lost otherwise.\<close>

theorem htonl_truncates: "le32 (htonl (ucast x)) = be32 x \<longleftrightarrow> unat x < 65536"
proof -
  have "le32 (htonl (ucast x)) = be32 x \<longleftrightarrow> le32 (bswap_32 (ucast (ucast x :: u16))) = le32 (bswap_32 x)"
    by (simp add: htonl_def be32_def le32_bswap_32)
  also have "\<dots> \<longleftrightarrow> bswap_32 (ucast (ucast x :: u16)) = bswap_32 x"
    by (rule c32.enc_inject) simp_all
  also have "\<dots> \<longleftrightarrow> (ucast (ucast x :: u16) :: u32) = x"
    by (metis bswap_32_bswap_32)
  also have "\<dots> \<longleftrightarrow> unat x mod 65536 = unat x"
    by (simp add: word_unat_eq_iff unsigned_ucast_eq take_bit_eq_mod unat_mod)
  also have "\<dots> \<longleftrightarrow> unat x < 65536"
    by (metis mod_less mod_less_divisor zero_less_numeral)
  finally show ?thesis .
qed

text \<open>C29: \<open>inet_addr\<close> inverts the printing of addresses. On the decimal print of four or more
  octets separated by dots it returns the word whose image in memory is the first four octets
  in order (network byte order), and leaves the heap as it was: the copy made by \<open>strdup\<close> is
  freed.\<close>

theorem inet_addr_dotted:
  assumes "c_string p w = Returns (dotted (a # b # c # d # os)) w"
    and "alloc_ok w (brk w)" and "mem_inv w"
  shows "\<exists>r. inet_addr p w = Returns r (w\<lparr>brk := Suc (brk w)\<rparr>) \<and> le32 r = [a, b, c, d]"
  using inet_addr_dotted_run [OF assms] by simp

theorem inet_addr_dotted_witness:
  "\<exists>r. inet_addr (Ptr 0 0) (demo_with [Bytes (dotted [10, 0, 0, 2] @ [0])])
      = Returns r (demo_with [Bytes (dotted [10, 0, 0, 2] @ [0])]\<lparr>brk := 2\<rparr>) \<and> le32 r = [10, 0, 0, 2]"
proof -
  let ?w = "demo_with [Bytes (dotted [10, 0, 0, 2] @ [0])]"
  have "c_string (Ptr 0 0) ?w = Returns (dotted [10, 0, 0, 2]) ?w"
    by (rule c_string_at) (simp_all add: dot_def)
  from inet_addr_dotted [OF this] show ?thesis
    by (simp add: numeral_2_eq_2)
qed

text \<open>C30: an address with one to three octets makes \<open>inet_addr\<close> read through a null pointer: its
  loop always runs four times and hands the null result of \<open>strtok\<close> to \<open>atoi\<close>.\<close>

theorem inet_addr_short:
  assumes "c_string p w = Returns (dotted os) w" and "os \<noteq> []" and "length os < 4"
    and "alloc_ok w (brk w)" and "mem_inv w"
  shows "inet_addr p w = Faults NullDeref"
proof -
  obtain a os' where os: "os = a # os'" using assms(2) by (cases os) simp_all
  with assms(3) have "length os' \<le> 2" by simp
  then consider "os' = []" | b where "os' = [b]" | b c where "os' = [b, c]"
    by (cases os'; cases "tl os'"; cases "tl (tl os')") auto
  then have "address_of_tokens 4 (Some (decimal (unat a))) (dotted os') 0 = Inl NullDeref"
    by cases (simp_all add: address_step_4 address_steps del: dotted.simps(2,3))
  then show ?thesis
    using inet_addr_run [OF assms(1,4,5)] os by (simp del: dotted.simps)
qed

theorem inet_addr_short_witness:
  "inet_addr (Ptr 0 0) (demo_with [Bytes (dotted [127, 1] @ [0])]) = Faults NullDeref"
proof (rule inet_addr_short)
  show "c_string (Ptr 0 0) (demo_with [Bytes (dotted [127, 1] @ [0])])
    = Returns (dotted [127, 1]) (demo_with [Bytes (dotted [127, 1] @ [0])])"
    by (rule c_string_at) (simp_all add: dot_def)
qed simp_all

text \<open>A string without any token (empty, or dots only) gives address 0, and the early return
  leaks the copy of the string: it stays allocated.\<close>

theorem inet_addr_no_token_leaks:
  assumes "c_string p w = Returns (replicate n dot) w" and "alloc_ok w (brk w)" and "mem_inv w"
  shows "inet_addr p w = Returns 0
    (w\<lparr>heap := (heap w)(brk w \<mapsto> Bytes (replicate n dot @ [0])), brk := Suc (brk w)\<rparr>)"
proof -
  have "strtok (replicate n dot) = (None, [])"
    by (simp add: strtok_def)
  then show ?thesis using inet_addr_run [OF assms] by simp
qed

theorem inet_addr_no_token_leaks_witness:
  "inet_addr (Ptr 0 0) (demo_with [Bytes (replicate 3 dot @ [0])]) = Returns 0
    (demo_with [Bytes (replicate 3 dot @ [0])]
       \<lparr>heap := (heap (demo_with [Bytes (replicate 3 dot @ [0])]))(1 \<mapsto> Bytes (replicate 3 dot @ [0])), brk := 2\<rparr>)"
proof -
  let ?w = "demo_with [Bytes (replicate 3 dot @ [0])]"
  have "c_string (Ptr 0 0) ?w = Returns (replicate 3 dot) ?w"
    by (rule c_string_at) (simp_all add: dot_def)
  from inet_addr_no_token_leaks [OF this] show ?thesis
    by (simp add: numeral_2_eq_2)
qed

text \<open>\<open>build_packet\<close> allocates one block that holds the IP header, the protocol header and the
  payload one after the other, and returns its size; parts of length 0 may be null pointers.\<close>

theorem build_packet_concat:
  assumes "src_at (heap w) iphdr xs" and "src_at (heap w) ptclhdr ys" and "src_at (heap w) payload zs"
    and "length xs + length ys + length zs < 2 ^ 64" and "alloc_ok w (brk w)" and "mem_inv w"
  shows "build_packet iphdr (length xs) ptclhdr (length ys) payload (length zs) w
    = Returns (Ptr (brk w) 0, length xs + length ys + length zs)
        (w\<lparr>heap := (heap w)(brk w \<mapsto> Bytes (xs @ ys @ zs)), brk := Suc (brk w)\<rparr>)"
proof -
  let ?n = "length xs + length ys + length zs"
  obtain j where j: "map (junk w (brk w)) [0..<?n] = j" "length j = ?n" by simp
  have "splice (length xs + length ys) zs (splice (length xs) ys (splice 0 xs j)) = xs @ ys @ zs"
    using j(2) by (simp add: splice_def)
  with assms j show ?thesis
    by (simp add: build_packet_def Let_def malloc_def alloc_run memcpy_into [where xs = xs]
        memcpy_into [where xs = ys] memcpy_into [where xs = zs])
qed

theorem build_packet_concat_witness:
  "build_packet (Ptr 0 0) 2 Null 0 (Ptr 1 1) 2 (demo_with [Bytes [1, 2, 3], Bytes [4, 5, 6]])
    = Returns (Ptr 2 0, 4) (demo_with [Bytes [1, 2, 3], Bytes [4, 5, 6]]
        \<lparr>heap := (heap (demo_with [Bytes [1, 2, 3], Bytes [4, 5, 6]]))(2 \<mapsto> Bytes [1, 2, 5, 6]), brk := 3\<rparr>)"
  using build_packet_concat [of "demo_with [Bytes [1, 2, 3], Bytes [4, 5, 6]]" "Ptr 0 0" "[1, 2]" Null "[]"
      "Ptr 1 1" "[5, 6]"]
  by (simp flip: numeral_2_eq_2)

end
