(* ===== verification/Platform.thy ===== *)
theory Platform
  imports Data_Util
begin

text \<open>
  The two platforms, \<open>platform/linux/socket.c\<close> and \<open>platform/lf_os/socket.c\<close>: a build compiles
  one of them, so the code above takes \<open>raw_socket\<close> and \<open>transmit\<close> as arguments. The interface
  \<open>platform\<close> says what that code relies on: \<open>transmit\<close> makes some system calls, leaves the
  memory alone, and returns. Both platforms are interpretations.
\<close>

section \<open>Linux\<close>

definition AF_PACKET :: nat where "AF_PACKET = 17"
definition SOCK_RAW :: nat where "SOCK_RAW = 3"
definition ETH_P_ALL :: u16 where "ETH_P_ALL = 3"
definition PACKET_OTHERHOST :: u8 where "PACKET_OTHERHOST = 3"
definition ETH_ALEN :: u8 where "ETH_ALEN = 6"

definition linux_raw_socket :: "ptr \<Rightarrow> int cprog" where
  "linux_raw_socket ifname =
     bindp (syscall (Socket (int AF_PACKET) (int SOCK_RAW) (htons 3))) (\<lambda>sock.
     if sock = -1 then retp sock
     else
       bindp (c_string ifname) (\<lambda>name.
       bindp (syscall (Setsockopt_bind sock name)) (\<lambda>stat.
       if stat = -1 then bindp (syscall (Close sock)) (\<lambda>_. retp stat)
       else retp sock)))"

text \<open>
  The address for \<open>sendto\<close>: of the eight bytes of \<open>sll_addr\<close> the code sets the six that
  \<open>sll_halen\<close> counts; the model keeps those.
\<close>

definition linux_sockaddr :: "u8 list \<Rightarrow> int \<Rightarrow> sockaddr_ll" where
  "linux_sockaddr mac index = \<lparr>sll_family = of_nat AF_PACKET, sll_protocol = htons ETH_P_ALL,
     sll_ifindex = word_of_int index, sll_hatype = 1, sll_pkttype = PACKET_OTHERHOST,
     sll_halen = ETH_ALEN, sll_addr = mac\<rparr>"

text \<open>The source address is at byte 6 of the Ethernet header.\<close>

definition linux_transmit :: "ptr \<Rightarrow> ptr \<Rightarrow> nat \<Rightarrow> nat cprog" where
  "linux_transmit sock data n =
     bindp (load_sock sock) (\<lambda>s.
     bindp (load_link (link_options s)) (\<lambda>link.
     case read_eth_header (proto link) of
       None \<Rightarrow> faultp WildPointer
     | Some hdr \<Rightarrow>
         bindp (load_bytes (POINTER_ADD hdr 6) 6) (\<lambda>mac.
         bindp (c_string (iface s)) (\<lambda>name.
         bindp (syscall (If_nametoindex name)) (\<lambda>index.
         bindp (load_bytes data n) (\<lambda>bs.
         bindp (syscall (Sendto (raw_sockfd s) bs (linux_sockaddr mac index))) (\<lambda>ret.
         retp (size_of_int ret))))))))"

section \<open>LF OS\<close>

text \<open>\<open>raw_socket\<close> returns a \<open>uint64_t\<close> as an \<open>int\<close>; \<open>transmit\<close> does nothing.\<close>

definition lf_os_raw_socket :: "ptr \<Rightarrow> int cprog" where
  "lf_os_raw_socket ifname =
     bindp (syscall (Ioperm 0x2f8 7)) (\<lambda>err. retp (signed_take_bit 31 err))"

definition lf_os_transmit :: "ptr \<Rightarrow> ptr \<Rightarrow> nat \<Rightarrow> nat cprog" where
  "lf_os_transmit sock data n = retp 0"

section \<open>Sockets in memory\<close>

text \<open>The blocks a pointer points into.\<close>

primrec ptr_block :: "ptr \<Rightarrow> nat set" where
  "ptr_block Null = {}"
| "ptr_block (Ptr b off) = {b}"

lemma bytes_at_apart:
  "bytes_at h p xs \<Longrightarrow> b \<notin> ptr_block p \<Longrightarrow> bytes_at (h(b := x)) p xs"
  by (cases p) (auto simp: bytes_at.simps)

lemma bytes_at_dom: "bytes_at h p xs \<Longrightarrow> ptr_block p \<subseteq> dom h"
  by (cases p) (auto simp: bytes_at.simps split: option.splits)

lemma bytes_at_part:
  assumes "bytes_at h p (xs @ ys @ zs)" and "i = length xs"
  shows "bytes_at h (POINTER_ADD p i) ys"
proof (cases p)
  case Null
  with assms show ?thesis by simp
next
  case (Ptr b off)
  with assms(1) obtain bs where b: "h b = Some (Bytes bs)"
    "off + length (xs @ ys @ zs) \<le> length bs" "take (length (xs @ ys @ zs)) (drop off bs) = xs @ ys @ zs"
    by (auto simp: bytes_at.simps split: option.splits obj.splits)
  have "take (length ys) (drop i (take (length (xs @ ys @ zs)) (drop off bs))) = ys"
    by (simp only: b(3) assms(2)) simp
  then have "take (length ys) (drop (off + i) bs) = ys"
    by (simp add: drop_take assms(2) add.commute min_def)
  with b Ptr assms(2) show ?thesis by simp
qed

lemma src_at_apart: "src_at h p xs \<Longrightarrow> b \<notin> ptr_block p \<Longrightarrow> src_at (h(b := x)) p xs"
  by (auto simp: src_at_def intro: bytes_at_apart)

text \<open>
  A socket over Ethernet: the socket, its link options, the Ethernet header \<open>e\<close> and the
  interface name \<open>nm\<close> are in memory, in the blocks \<open>eth_foot\<close>.
\<close>

definition eth_sock :: "eth_hdr \<times> u8 list \<Rightarrow> (nat \<rightharpoonup> obj) \<Rightarrow> ptr \<Rightarrow> net_socket \<Rightarrow> bool" where
  "eth_sock c h p s \<longleftrightarrow> (\<exists>b lb q l. p = Ptr b 0 \<and> h b = Some (Net_socket s)
     \<and> link_options s = Ptr lb 0 \<and> h lb = Some (Link_options l) \<and> link_type l = ETH
     \<and> read_eth_header (proto l) = Some q \<and> bytes_at h q (eth_hdr_bytes (fst c)) \<and> eth_hdr_wf (fst c)
     \<and> bytes_at h (iface s) (snd c @ [0]) \<and> 0 \<notin> set (snd c))"

definition link_foot :: "(nat \<rightharpoonup> obj) \<Rightarrow> ptr \<Rightarrow> nat set" where
  "link_foot h p = (case p of Null \<Rightarrow> {} | Ptr b _ \<Rightarrow> insert b (case h b of
     Some (Net_socket s) \<Rightarrow> ptr_block (iface s) \<union> (case link_options s of Null \<Rightarrow> {} | Ptr lb _ \<Rightarrow>
       insert lb (case h lb of
         Some (Link_options l) \<Rightarrow> (case read_eth_header (proto l) of None \<Rightarrow> {} | Some q \<Rightarrow> ptr_block q)
       | _ \<Rightarrow> {}))
   | _ \<Rightarrow> {}))"

lemma eth_sock_apart:
  assumes "eth_sock c h p s" and "b \<notin> link_foot h p"
  shows "eth_sock c (h(b := x)) p s"
proof -
  obtain k lb q l where "p = Ptr k 0" "h k = Some (Net_socket s)"
     "link_options s = Ptr lb 0" "h lb = Some (Link_options l)" "link_type l = ETH"
     "read_eth_header (proto l) = Some q" "bytes_at h q (eth_hdr_bytes (fst c))" "eth_hdr_wf (fst c)"
     "bytes_at h (iface s) (snd c @ [0])" "0 \<notin> set (snd c)"
    using assms(1) unfolding eth_sock_def by blast
  moreover from this assms(2) have "b \<noteq> k" "b \<noteq> lb" "b \<notin> ptr_block q" "b \<notin> ptr_block (iface s)"
    by (auto simp: link_foot_def)
  ultimately show ?thesis unfolding eth_sock_def by (simp add: bytes_at_apart)
qed

lemma eth_sock_dom:
  assumes "eth_sock c h p s"
  shows "link_foot h p \<subseteq> dom h"
proof -
  obtain k lb q l where *: "p = Ptr k 0" "h k = Some (Net_socket s)"
     "link_options s = Ptr lb 0" "h lb = Some (Link_options l)"
     "read_eth_header (proto l) = Some q" "bytes_at h q (eth_hdr_bytes (fst c))"
     "bytes_at h (iface s) (snd c @ [0])"
    using assms unfolding eth_sock_def by blast
  have "ptr_block q \<subseteq> dom h" "ptr_block (iface s) \<subseteq> dom h"
    using *(6,7) by (simp_all only: bytes_at_dom)
  with * show ?thesis by (auto simp: link_foot_def)
qed

lemma eth_sock_fresh: "eth_sock c h p s \<Longrightarrow> h b = None \<Longrightarrow> eth_sock c (h(b := x)) p s"
  by (rule eth_sock_apart) (auto dest: eth_sock_dom)

section \<open>The interface\<close>

text \<open>The state after some system calls.\<close>

definition after_calls :: "event list \<Rightarrow> world \<Rightarrow> world" where
  "after_calls evs w = w\<lparr>sys_count := sys_count w + length evs, trace := trace w @ evs\<rparr>"

text \<open>What the next system calls will return.\<close>

definition returns_of :: "world \<Rightarrow> nat \<Rightarrow> int" where
  "returns_of w k = sys_ret w (sys_count w + k)"

text \<open>
  \<open>calls s c ret xs\<close> are the system calls that transmit \<open>xs\<close> and the value returned when they
  return \<open>ret 0\<close>, \<open>ret 1\<close> and so on.
\<close>

locale platform =
  fixes transmit :: "ptr \<Rightarrow> ptr \<Rightarrow> nat \<Rightarrow> nat cprog"
    and calls :: "net_socket \<Rightarrow> eth_hdr \<times> u8 list \<Rightarrow> (nat \<Rightarrow> int) \<Rightarrow> u8 list \<Rightarrow> event list \<times> nat"
  assumes transmits: "eth_sock c (heap w) p s \<Longrightarrow> bytes_at (heap w) d xs \<Longrightarrow>
      transmit p d (length xs) w = Returns (snd (calls s c (returns_of w) xs))
        (after_calls (fst (calls s c (returns_of w) xs)) w)"
    and size: "snd (calls s c ret xs) \<le> SIZE_MAX"

definition linux_calls ::
  "net_socket \<Rightarrow> eth_hdr \<times> u8 list \<Rightarrow> (nat \<Rightarrow> int) \<Rightarrow> u8 list \<Rightarrow> event list \<times> nat" where
  "linux_calls s c ret xs =
     ([If_nametoindex (snd c), Sendto (raw_sockfd s) xs (linux_sockaddr (mac_src (fst c)) (ret 0))],
      size_of_int (ret 1))"

definition lf_os_calls ::
  "net_socket \<Rightarrow> eth_hdr \<times> u8 list \<Rightarrow> (nat \<Rightarrow> int) \<Rightarrow> u8 list \<Rightarrow> event list \<times> nat" where
  "lf_os_calls s c ret xs = ([], 0)"

lemma syscall_run [exec]:
  "syscall ev w = Returns (sys_ret w (sys_count w))
     (w\<lparr>sys_count := Suc (sys_count w), trace := trace w @ [ev]\<rparr>)"
  by (simp add: syscall_def)

lemma linux_transmit_run:
  assumes "eth_sock c (heap w) p s" and "bytes_at (heap w) d xs"
  shows "linux_transmit p d (length xs) w = Returns (snd (linux_calls s c (returns_of w) xs))
    (after_calls (fst (linux_calls s c (returns_of w) xs)) w)"
proof -
  obtain b lb q l where *: "p = Ptr b 0" "heap w b = Some (Net_socket s)"
     "link_options s = Ptr lb 0" "heap w lb = Some (Link_options l)"
     "read_eth_header (proto l) = Some q" "bytes_at (heap w) q (eth_hdr_bytes (fst c))"
     "eth_hdr_wf (fst c)" "bytes_at (heap w) (iface s) (snd c @ [0])" "0 \<notin> set (snd c)"
    using assms(1) unfolding eth_sock_def by blast
  have "bytes_at (heap w) (POINTER_ADD q 6) (mac_src (fst c))"
    using *(6,7) by (intro bytes_at_part [of _ _ "mac_dst (fst c)"])
      (simp_all add: eth_hdr_bytes_def eth_hdr_wf_def)
  then have "load_bytes (POINTER_ADD q 6) 6 w = Returns (mac_src (fst c)) w"
    using *(7) by (intro load_bytes_at) (simp_all add: eth_hdr_wf_def)
  with * assms(2) show ?thesis
    by (simp add: linux_transmit_def load_sock_run load_link_run c_string_at syscall_run
        load_bytes_at linux_calls_def after_calls_def returns_of_def)
qed

lemma size_of_int_le: "size_of_int i \<le> SIZE_MAX"
proof -
  have "i mod 2 ^ 64 \<le> 2 ^ 64 - 1" by (simp add: zle_diff1_eq)
  then show ?thesis unfolding size_of_int_def by (simp add: nat_le_iff)
qed

interpretation linux: platform linux_transmit linux_calls
  by unfold_locales (rule linux_transmit_run, assumption+, unfold linux_calls_def snd_conv, rule size_of_int_le)

interpretation lf_os: platform lf_os_transmit lf_os_calls
  by unfold_locales (simp_all add: lf_os_transmit_def lf_os_calls_def after_calls_def)

section \<open>Opening sockets\<close>

text \<open>
  The second interface of a platform: \<open>raw_socket\<close> also only makes system calls, \<open>opens name ret\<close>
  for the interface of that name.
\<close>

locale os = platform +
  fixes raw_socket :: "ptr \<Rightarrow> int cprog"
    and opens :: "u8 list \<Rightarrow> (nat \<Rightarrow> int) \<Rightarrow> event list \<times> int"
  assumes opens: "bytes_at (heap w) p (name @ [0]) \<Longrightarrow> 0 \<notin> set name \<Longrightarrow>
      raw_socket p w = Returns (snd (opens name (returns_of w))) (after_calls (fst (opens name (returns_of w))) w)"

definition linux_opens :: "u8 list \<Rightarrow> (nat \<Rightarrow> int) \<Rightarrow> event list \<times> int" where
  "linux_opens name ret =
    (let fd = ret 0; open = Socket 17 3 (htons 3); bind = Setsockopt_bind fd name in
     if fd = -1 then ([open], -1)
     else if ret 1 = -1 then ([open, bind, Close fd], -1)
     else ([open, bind], fd))"

definition lf_os_opens :: "u8 list \<Rightarrow> (nat \<Rightarrow> int) \<Rightarrow> event list \<times> int" where
  "lf_os_opens name ret = ([Ioperm 0x2f8 7], signed_take_bit 31 (ret 0))"

lemma linux_raw_socket_run:
  "bytes_at (heap w) p (name @ [0]) \<Longrightarrow> 0 \<notin> set name \<Longrightarrow>
     linux_raw_socket p w = Returns (snd (linux_opens name (returns_of w)))
       (after_calls (fst (linux_opens name (returns_of w))) w)"
  by (simp add: linux_raw_socket_def syscall_run c_string_at linux_opens_def returns_of_def
      after_calls_def Let_def AF_PACKET_def SOCK_RAW_def)

interpretation linux_os: os linux_transmit linux_calls linux_raw_socket linux_opens
  by unfold_locales (rule linux_raw_socket_run)

interpretation lf_os_os: os lf_os_transmit lf_os_calls lf_os_raw_socket lf_os_opens
  by unfold_locales (simp add: lf_os_raw_socket_def syscall_run lf_os_opens_def returns_of_def after_calls_def)

section \<open>Properties\<close>

text \<open>\<open>raw_socket\<close> on Linux returns the descriptor of a socket bound to the interface, or -1
  when either call fails; a descriptor that could not be bound is closed, so failing leaves none
  open.\<close>

theorem linux_raw_socket_result:
  assumes "bytes_at (heap w) ifname (name @ [0])" and "0 \<notin> set name"
  shows "linux_raw_socket ifname w =
    (let fd = returns_of w 0; open = Socket 17 3 (htons 3); bind = Setsockopt_bind fd name in
     if fd = -1 then Returns (-1) (after_calls [open] w)
     else if returns_of w 1 = -1 then Returns (-1) (after_calls [open, bind, Close fd] w)
     else Returns fd (after_calls [open, bind] w))"
  using assms by (simp add: linux_raw_socket_def syscall_run c_string_at returns_of_def
      after_calls_def Let_def AF_PACKET_def SOCK_RAW_def)

theorem linux_raw_socket_result_witness:
  "linux_raw_socket (Ptr 0 0) (demo_with [Bytes [101, 0]])
     = Returns 0 (after_calls [Socket 17 3 (htons 3), Setsockopt_bind 0 [101]] (demo_with [Bytes [101, 0]]))"
  using linux_raw_socket_result [of "demo_with [Bytes [101, 0]]" "Ptr 0 0" "[101]"]
  by (simp add: returns_of_def Let_def)

text \<open>\<open>transmit\<close> on Linux looks up the interface of the socket and hands exactly the given bytes
  to the socket's descriptor, addressed with the source MAC address of its Ethernet header and
  that interface, and returns what \<open>sendto\<close> returned, -1 as \<open>SIZE_MAX\<close>; it changes no memory.\<close>

theorem linux_transmit_sends:
  assumes "eth_sock (e, name) (heap w) p s" and "bytes_at (heap w) d xs"
  shows "linux_transmit p d (length xs) w = Returns (size_of_int (returns_of w 1))
    (after_calls [If_nametoindex name,
       Sendto (raw_sockfd s) xs \<lparr>sll_family = 17, sll_protocol = 0x0300,
         sll_ifindex = word_of_int (returns_of w 0), sll_hatype = 1, sll_pkttype = 3, sll_halen = 6,
         sll_addr = mac_src e\<rparr>] w)"
proof -
  have "htons 3 = (0x0300 :: u16)" by (simp add: htons_def bswap_16_def Let_def)
  then show ?thesis
    using linux.transmits [OF assms] by (simp add: linux_calls_def linux_sockaddr_def AF_PACKET_def
        ETH_P_ALL_def PACKET_OTHERHOST_def ETH_ALEN_def)
qed

text \<open>A socket over Ethernet for the concrete instances, with interface name "e".\<close>

definition demo_eth :: eth_hdr where
  "demo_eth = \<lparr>mac_dst = [1, 2, 3, 4, 5, 6], mac_src = [7, 8, 9, 10, 11, 12], eth_ptcl = htons 0x0800\<rparr>"

definition demo_sock :: net_socket where
  "demo_sock = \<lparr>raw_sockfd = 4, family = 2, protocol = 17, link_options = Ptr 1 0,
     ip_options = Ptr 4 0, proto_options = Null, iface = Ptr 3 0\<rparr>"

definition demo_blocks :: "LINK_TYPE \<Rightarrow> obj list" where
  "demo_blocks lt = [Net_socket demo_sock, Link_options \<lparr>link_type = lt, proto = eth_header (Ptr 2 0)\<rparr>,
     Bytes (eth_hdr_bytes demo_eth), Bytes [101, 0],
     Ip_options (zero_ipv4_socket_options\<lparr>sopt_ttl := 64\<rparr>)]"

lemma demo_blocks_nth [simp]:
  "length (demo_blocks lt) = 5"
  "demo_blocks lt ! 0 = Net_socket demo_sock"
  "demo_blocks lt ! Suc 0 = Link_options \<lparr>link_type = lt, proto = eth_header (Ptr 2 0)\<rparr>"
  "demo_blocks lt ! 2 = Bytes (eth_hdr_bytes demo_eth)"
  "demo_blocks lt ! 3 = Bytes [101, 0]"
  "demo_blocks lt ! 4 = Ip_options (zero_ipv4_socket_options\<lparr>sopt_ttl := 64\<rparr>)"
  by (simp_all add: demo_blocks_def)

lemma length_demo_eth [simp]: "length (eth_hdr_bytes demo_eth) = 14" "eth_hdr_wf demo_eth"
  by (simp_all add: eth_hdr_bytes_def demo_eth_def eth_hdr_wf_def)

lemma eth_sock_demo:
  "eth_sock (demo_eth, [101]) (heap (demo_with (demo_blocks ETH @ xs))) (Ptr 0 0) demo_sock"
  unfolding eth_sock_def
  by (intro exI [of _ "0::nat"] exI [of _ "1::nat"] exI [of _ "Ptr 2 0"]
      exI [of _ "\<lparr>link_type = ETH, proto = eth_header (Ptr 2 0)\<rparr>"])
    (simp add: nth_append demo_sock_def bytes_at.simps)

theorem linux_transmit_sends_witness:
  "linux_transmit (Ptr 0 0) (Ptr 5 0) 2 (demo_with (demo_blocks ETH @ [Bytes [9, 8]]))
     = Returns 1 (after_calls [If_nametoindex [101],
         Sendto 4 [9, 8] \<lparr>sll_family = 17, sll_protocol = 0x0300, sll_ifindex = 0, sll_hatype = 1,
           sll_pkttype = 3, sll_halen = 6, sll_addr = [7, 8, 9, 10, 11, 12]\<rparr>]
         (demo_with (demo_blocks ETH @ [Bytes [9, 8]])))"
proof -
  have "bytes_at (heap (demo_with (demo_blocks ETH @ [Bytes [9, 8]]))) (Ptr 5 0) [9, 8]"
    by (simp add: nth_append)
  from linux_transmit_sends [OF eth_sock_demo this] show ?thesis
    by (simp add: returns_of_def size_of_int_def demo_sock_def demo_eth_def flip: numeral_2_eq_2)
qed

end
