(* ===== verification/Eth.thy ===== *)
theory Eth
  imports Platform
begin

text \<open>
  Ethernet framing, \<open>eth.c\<close>: making the header of a socket and sending a datagram behind it.
  \<open>eth_transmit\<close> is shown, for every platform, to hand the header followed by the data to
  \<open>transmit\<close> and to leave the memory as it was.
\<close>

section \<open>The operations\<close>

definition create_eth_hdr :: "ptr \<Rightarrow> ptr \<Rightarrow> u16 \<Rightarrow> ptr cprog" where
  "create_eth_hdr src dst pt =
     bindp (calloc 14) (\<lambda>ret.
     if ret = Null then retp ret
     else
       bindp (memcpy (POINTER_ADD ret 6) src 6) (\<lambda>_.
       bindp (memcpy ret dst 6) (\<lambda>_.
       bindp (store_bytes (POINTER_ADD ret 12) (le16 (htons pt))) (\<lambda>_.
       retp ret))))"

text \<open>The value to return is kept in a \<open>uint16_t\<close>, starting from -1.\<close>

definition eth_transmit :: "(ptr \<Rightarrow> ptr \<Rightarrow> nat \<Rightarrow> nat cprog) \<Rightarrow> ptr \<Rightarrow> ptr \<Rightarrow> nat \<Rightarrow> nat cprog" where
  "eth_transmit transmit sock data n =
     bindp (load_sock sock) (\<lambda>s.
     bindp (calloc (size_add 14 n)) (\<lambda>packet.
     if packet = Null then retp (unat (word_of_int (-1) :: u16))
     else
       bindp (load_link (link_options s)) (\<lambda>link.
       case read_eth_header (proto link) of
         None \<Rightarrow> faultp WildPointer
       | Some hdr \<Rightarrow>
           bindp (memcpy packet hdr 14) (\<lambda>_.
           bindp (memcpy (POINTER_ADD packet 14) data n) (\<lambda>_.
           bindp (transmit sock packet (size_add 14 n)) (\<lambda>r.
           let sent = u16_of_size r in
           bindp (free packet) (\<lambda>_.
           retp (unat sent))))))))"

section \<open>Running them\<close>

lemma create_eth_hdr_run [exec]:
  assumes "bytes_at (heap w) src smac" and "bytes_at (heap w) dst dmac" and "mem_inv w"
    and "length smac = 6" and "length dmac = 6"
  shows "create_eth_hdr src dst pt w =
    (if alloc_ok w (brk w)
     then Returns (Ptr (brk w) 0) (w\<lparr>heap := (heap w)(brk w \<mapsto> Bytes (dmac @ smac @ be16 pt)),
       brk := Suc (brk w)\<rparr>)
     else Returns Null (w\<lparr>brk := Suc (brk w)\<rparr>))"
proof -
  have splices: "splice 0 dmac (splice 6 smac (replicate 14 0)) = dmac @ smac @ replicate 2 0"
    "splice 12 (be16 pt) (dmac @ smac @ replicate 2 0) = dmac @ smac @ be16 pt"
    using assms(4,5) by (simp_all add: splice_def)
  show ?thesis
    using assms
    by (simp add: create_eth_hdr_def calloc_def alloc_run memcpy_into [where xs = smac]
        memcpy_into [where xs = dmac] store_bytes_block splices)
qed

lemma eth_transmit_no_memory:
  assumes "heap w b = Some (Net_socket s)" and "\<not> alloc_ok w (brk w)"
  shows "eth_transmit tr (Ptr b 0) d n w = Returns 65535 (w\<lparr>brk := Suc (brk w)\<rparr>)"
  using assms by (simp add: eth_transmit_def load_sock_run calloc_def alloc_run)

context platform begin

lemma eth_transmit_run:
  assumes "eth_sock c (heap w) p s" and "src_at (heap w) d xs" and "mem_inv w"
    and "alloc_ok w (brk w)" and "length xs + 14 < 2 ^ 64"
  defines "frame \<equiv> eth_hdr_bytes (fst c) @ xs"
  shows "eth_transmit transmit p d (length xs) w
    = Returns (snd (calls s c (returns_of w) frame) mod 65536)
        (after_calls (fst (calls s c (returns_of w) frame)) (w\<lparr>brk := Suc (brk w)\<rparr>))"
proof -
  obtain b lb q l where *: "p = Ptr b 0" "heap w b = Some (Net_socket s)"
     "link_options s = Ptr lb 0" "heap w lb = Some (Link_options l)"
     "read_eth_header (proto l) = Some q" "bytes_at (heap w) q (eth_hdr_bytes (fst c))"
     "eth_hdr_wf (fst c)"
    using assms(1) unfolding eth_sock_def by blast
  have len: "length (eth_hdr_bytes (fst c)) = 14" using *(7) by (rule eth.enc_length)
  let ?n = "14 + length xs"
  let ?w0 = "w\<lparr>heap := (heap w)(brk w \<mapsto> Bytes (replicate ?n 0)), brk := Suc (brk w)\<rparr>"
  let ?w2 = "w\<lparr>heap := (heap w)(brk w \<mapsto> Bytes frame), brk := Suc (brk w)\<rparr>"
  have fresh: "heap w (brk w) = None" using assms(3) by simp
  have ne: "b \<noteq> brk w" "lb \<noteq> brk w" using *(2,4) fresh by auto
  have c1: "memcpy (Ptr (brk w) 0) q 14 ?w0
      = Returns () (?w0\<lparr>heap := (heap w)(brk w \<mapsto> Bytes (eth_hdr_bytes (fst c) @ replicate (length xs) 0))\<rparr>)"
    using *(6) len fresh
    by (subst memcpy_into [where xs = "eth_hdr_bytes (fst c)" and bs = "replicate ?n 0"]) (simp_all add: splice_def)
  have c2: "memcpy (Ptr (brk w) 14) d (length xs)
        (?w0\<lparr>heap := (heap w)(brk w \<mapsto> Bytes (eth_hdr_bytes (fst c) @ replicate (length xs) 0))\<rparr>)
      = Returns () ?w2"
    using assms(2) len fresh
    by (subst memcpy_into [where xs = xs and bs = "eth_hdr_bytes (fst c) @ replicate (length xs) 0"]) (simp_all add: splice_def frame_def)
  have "eth_sock c (heap ?w2) p s" using assms(1) fresh by (simp add: eth_sock_fresh)
  moreover have "bytes_at (heap ?w2) (Ptr (brk w) 0) frame" by simp
  ultimately have t: "transmit p (Ptr (brk w) 0) (length frame) ?w2
      = Returns (snd (calls s c (returns_of ?w2) frame)) (after_calls (fst (calls s c (returns_of ?w2) frame)) ?w2)"
    by (rule transmits)
  have r: "returns_of ?w2 = returns_of w" by (simp add: returns_of_def fun_eq_iff)
  have lf: "length frame = ?n" using len by (simp add: frame_def)
  have f: "free (Ptr (brk w) 0) (after_calls evs ?w2) = Returns () (after_calls evs (w\<lparr>brk := Suc (brk w)\<rparr>))" for evs
    using fresh by (simp add: free_block after_calls_def fun_upd_idem)
  show ?thesis
    using * assms(4,5) ne c1 c2 t [unfolded r lf] f
    by (simp add: eth_transmit_def load_sock_run calloc_def alloc_run load_link_run add.commute)
qed

end

section \<open>Properties\<close>

text \<open>\<open>create_eth_hdr\<close> allocates a header of destination address, source address and the protocol
  in network byte order, which parses back to those fields; without memory it returns null.\<close>

theorem create_eth_hdr_result:
  assumes "bytes_at (heap w) src smac" and "bytes_at (heap w) dst dmac" and "mem_inv w"
    and "length smac = 6" and "length dmac = 6"
  shows "\<exists>p w'. create_eth_hdr src dst pt w = Returns p w' \<and>
    (if alloc_ok w (brk w)
     then heap w' = (heap w)(brk w \<mapsto> Bytes (dmac @ smac @ be16 pt)) \<and> p = Ptr (brk w) 0
       \<and> eth_hdr_of (dmac @ smac @ be16 pt) = \<lparr>mac_dst = dmac, mac_src = smac, eth_ptcl = htons pt\<rparr>
     else p = Null \<and> heap w' = heap w)"
proof -
  have "eth_hdr_of (eth_hdr_bytes \<lparr>mac_dst = dmac, mac_src = smac, eth_ptcl = htons pt\<rparr>)
      = \<lparr>mac_dst = dmac, mac_src = smac, eth_ptcl = htons pt\<rparr>"
    by (rule eth.dec_enc) (simp add: eth_hdr_wf_def assms(4,5))
  then show ?thesis
    using create_eth_hdr_run [OF assms, of pt] by (simp add: eth_hdr_bytes_def)
qed

theorem create_eth_hdr_result_witness:
  "\<exists>p w'. create_eth_hdr (Ptr 0 0) (Ptr 0 6) 0x0800 (demo_with [Bytes [1, 2, 3, 4, 5, 6, 7, 8, 9, 10, 11, 12]])
     = Returns p w' \<and> heap w' 1 = Some (Bytes ([7, 8, 9, 10, 11, 12] @ [1, 2, 3, 4, 5, 6] @ be16 0x0800))"
proof -
  let ?w = "demo_with [Bytes [1, 2, 3, 4, 5, 6, 7, 8, 9, 10, 11, 12]]"
  have "bytes_at (heap ?w) (Ptr 0 0) [1, 2, 3, 4, 5, 6]" "bytes_at (heap ?w) (Ptr 0 6) [7, 8, 9, 10, 11, 12]"
    by simp_all
  from create_eth_hdr_result [OF this, of "0x0800"] show ?thesis by auto
qed

text \<open>Over Ethernet on Linux, \<open>eth_transmit\<close> sends the 14 bytes of the socket's header followed by
  the data in one \<open>sendto\<close>, and leaves the heap as it was. It returns the low 16 bits of what
  \<open>sendto\<close> returned: the error value -1 becomes 65535, and not the \<open>(size_t)-1\<close> that is
  documented.\<close>

theorem eth_transmit_linux:
  assumes "eth_sock (e, name) (heap w) p s" and "src_at (heap w) d xs" and "mem_inv w"
    and "alloc_ok w (brk w)" and "length xs + 14 < 2 ^ 64"
  shows "\<exists>w'. eth_transmit linux_transmit p d (length xs) w = Returns (size_of_int (returns_of w 1) mod 65536) w'
    \<and> heap w' = heap w \<and> trace w' = trace w @ [If_nametoindex name,
        Sendto (raw_sockfd s) (mac_dst e @ mac_src e @ le16 (eth_ptcl e) @ xs)
          (linux_sockaddr (mac_src e) (returns_of w 0))]"
  using linux.eth_transmit_run [OF assms]
  by (simp add: linux_calls_def after_calls_def eth_hdr_bytes_def)

theorem eth_transmit_linux_witness:
  "\<exists>w'. eth_transmit linux_transmit (Ptr 0 0) (Ptr 5 0) 2 (demo_with (demo_blocks ETH @ [Bytes [9, 8]]))
      = Returns 1 w' \<and> trace w' = [If_nametoindex [101],
        Sendto 4 [1, 2, 3, 4, 5, 6, 7, 8, 9, 10, 11, 12, 8, 0, 9, 8]
          (linux_sockaddr [7, 8, 9, 10, 11, 12] 0)]"
proof -
  let ?w = "demo_with (demo_blocks ETH @ [Bytes [9, 8]])"
  have "src_at (heap ?w) (Ptr 5 0) [9, 8]" by (simp add: nth_append)
  moreover have "le16 (eth_ptcl demo_eth) = [8, 0]" by (simp add: demo_eth_def be16_def) (simp add: le16_def)
  ultimately show ?thesis
    using eth_transmit_linux [OF eth_sock_demo [of "[Bytes [9, 8]]"], of "Ptr 5 0" "[9, 8]"]
    by (auto simp: returns_of_def size_of_int_def demo_sock_def demo_eth_def simp del: le16_htons
        simp flip: numeral_2_eq_2)
qed

text \<open>When memory or \<open>sendto\<close> fails, \<open>eth_transmit\<close> returns 65535, which is not the \<open>(size_t)-1\<close>
  that is documented: a caller that compares with it does not see the error.\<close>

theorem eth_transmit_error_value:
  assumes "eth_sock (e, name) (heap w) p s" and "src_at (heap w) d xs" and "mem_inv w"
    and "length xs + 14 < 2 ^ 64" and "alloc_ok w (brk w) \<longrightarrow> returns_of w 1 = -1"
  shows "\<exists>r w'. eth_transmit linux_transmit p d (length xs) w = Returns r w' \<and> heap w' = heap w
    \<and> r = 65535 \<and> r \<noteq> SIZE_MAX"
proof (cases "alloc_ok w (brk w)")
  case True
  have "size_of_int (-1) mod 65536 = 65535" by (simp add: size_of_int_def)
  with True show ?thesis
    using linux.eth_transmit_run [OF assms(1-3) True assms(4)] assms(5)
    by (simp add: linux_calls_def after_calls_def)
next
  case False
  obtain b where "p = Ptr b 0" "heap w b = Some (Net_socket s)"
    using assms(1) by (auto simp: eth_sock_def)
  with eth_transmit_no_memory [OF _ False] show ?thesis by simp
qed

theorem eth_transmit_error_value_witness:
  "\<exists>w'. eth_transmit linux_transmit (Ptr 0 0) (Ptr 5 0) 2
      (demo_with (demo_blocks ETH @ [Bytes [9, 8]]) \<lparr>sys_ret := \<lambda>k. -1\<rparr>) = Returns 65535 w'"
proof -
  let ?w = "demo_with (demo_blocks ETH @ [Bytes [9, 8]]) \<lparr>sys_ret := \<lambda>k. -1\<rparr>"
  have "eth_sock (demo_eth, [101]) (heap ?w) (Ptr 0 0) demo_sock"
    using eth_sock_demo [of "[Bytes [9, 8]]"] by simp
  moreover have "src_at (heap ?w) (Ptr 5 0) [9, 8]" by (simp add: nth_append)
  moreover have "mem_inv ?w" by (simp add: mem_inv_def)
  ultimately show ?thesis
    using eth_transmit_error_value [of demo_eth "[101]" ?w "Ptr 0 0" demo_sock "Ptr 5 0" "[9, 8]"]
    by (auto simp: returns_of_def simp flip: numeral_2_eq_2)
qed

end
