(* ===== verification/Slip.thy ===== *)
theory Slip
  imports Memory
begin

text \<open>
  SLIP over a serial port, \<open>slip.c\<close>: polling the line status, sending a byte, sending a frame.
  The device answers each poll as \<open>uart\<close> says, so waiting may not end; it is shown exactly when
  a transmission returns, which bytes it writes to the port, that it never writes to a port that
  is not ready, and for which data a receiver that follows RFC 1055 gets the data back.
\<close>

section \<open>The operations\<close>

definition SLIP_FRAME_END :: u8 where "SLIP_FRAME_END = 0xC0"
definition SLIP_FRAME_ESCAPE :: u8 where "SLIP_FRAME_ESCAPE = 0xDB"
definition SLIP_ESCAPE_END :: u8 where "SLIP_ESCAPE_END = 0xDC"
definition SLIP_ESCAPE_ESCAPE :: u8 where "SLIP_ESCAPE_ESCAPE = 0xDD"

lemmas slip_consts = SLIP_FRAME_END_def SLIP_FRAME_ESCAPE_def SLIP_ESCAPE_END_def SLIP_ESCAPE_ESCAPE_def

partial_function (option) serial_wait :: "u16 \<Rightarrow> unit cprog" where
  "serial_wait port w =
     bindp (inb (port + 5)) (\<lambda>v w1. if v AND 0x20 = 0 then serial_wait port w1 else retp () w1) w"

definition tx_byte :: "u8 \<Rightarrow> u16 \<Rightarrow> unit cprog" where
  "tx_byte c port = bindp (serial_wait port) (\<lambda>_. outb port c)"

text \<open>The \<open>for\<close> loop of \<open>slip_transmit\<close> from index \<open>i\<close> on.\<close>

function slip_loop :: "u16 \<Rightarrow> ptr \<Rightarrow> nat \<Rightarrow> nat \<Rightarrow> unit cprog" where
  "slip_loop port tx i n =
     (if i < n then
        bindp (load_bytes (POINTER_ADD tx i) 1) (\<lambda>bs. let c = hd bs in
        bindp (if c = SLIP_FRAME_END then tx_byte SLIP_ESCAPE_END port
               else if c = SLIP_FRAME_ESCAPE then tx_byte SLIP_ESCAPE_ESCAPE port
               else retp ()) (\<lambda>_.
        bindp (tx_byte c port) (\<lambda>_.
        slip_loop port tx (i + 1) n)))
      else retp ())"
  by pat_completeness auto
termination by (relation "measure (\<lambda>(port, tx, i, n). n - i)") simp_all

declare slip_loop.simps [simp del]

definition slip_transmit :: "u16 \<Rightarrow> ptr \<Rightarrow> nat \<Rightarrow> nat cprog" where
  "slip_transmit port data n =
     bindp (tx_byte SLIP_FRAME_END port) (\<lambda>_.
     bindp (slip_loop port data 0 n) (\<lambda>_.
     bindp (tx_byte SLIP_FRAME_END port) (\<lambda>_.
     retp n)))"

section \<open>What is sent\<close>

text \<open>
  What the code sends, as data: the bytes that one round of the loop writes for one byte (the \<open>switch\<close>
  and the \<open>tx_byte\<close> after it), and the bytes of the whole frame. That \<open>slip_transmit\<close> writes
  these bytes is shown below.
\<close>

definition slip_escape :: "u8 \<Rightarrow> u8 list" where
  "slip_escape c =
     (if c = SLIP_FRAME_END then [SLIP_ESCAPE_END, c]
      else if c = SLIP_FRAME_ESCAPE then [SLIP_ESCAPE_ESCAPE, c]
      else [c])"

definition slip_frame :: "u8 list \<Rightarrow> u8 list" where
  "slip_frame xs = [SLIP_FRAME_END] @ concat (map slip_escape xs) @ [SLIP_FRAME_END]"

text \<open>Sending a list of bytes; the frame is sent by one such run.\<close>

primrec tx_bytes :: "u8 list \<Rightarrow> u16 \<Rightarrow> unit cprog" where
  "tx_bytes [] port = retp ()"
| "tx_bytes (c # cs) port = bindp (tx_byte c port) (\<lambda>_. tx_bytes cs port)"

lemma tx_bytes_append: "tx_bytes (xs @ ys) port = bindp (tx_bytes xs port) (\<lambda>_. tx_bytes ys port)"
  by (induction xs) (simp_all add: bindp_assoc fun_eq_iff [of "bindp (retp ()) _"])

text \<open>Ready: bit 5 of the line status, transmitter holding register empty.\<close>

definition ready :: "u8 \<Rightarrow> bool" where
  "ready v \<longleftrightarrow> v AND 0x20 \<noteq> 0"

text \<open>
  The polls before a byte: all but the last one find the port busy. \<open>polls w port n\<close> are the
  next \<open>n\<close> of them.
\<close>

definition polls :: "world \<Rightarrow> u16 \<Rightarrow> nat \<Rightarrow> event list" where
  "polls w port n = map (\<lambda>k. Inb (port + 5) (uart w (inb_count w + k))) [0..<n]"

lemma inb_run [exec]:
  "inb port w = Returns (uart w (inb_count w))
     (w\<lparr>inb_count := Suc (inb_count w), trace := trace w @ [Inb port (uart w (inb_count w))]\<rparr>)"
  by (simp add: inb_def Let_def)

lemma serial_wait_ready:
  assumes "ready (uart w (inb_count w + n))" and "\<And>k. k < n \<Longrightarrow> \<not> ready (uart w (inb_count w + k))"
  shows "serial_wait port w
    = Returns () (w\<lparr>inb_count := inb_count w + Suc n, trace := trace w @ polls w port (Suc n)\<rparr>)"
  using assms
proof (induction n arbitrary: w)
  case 0
  then show ?case
    by (subst serial_wait.simps) (simp add: inb_run ready_def polls_def)
next
  case (Suc n)
  let ?w = "w\<lparr>inb_count := Suc (inb_count w),
    trace := trace w @ [Inb (port + 5) (uart w (inb_count w))]\<rparr>"
  have "\<not> ready (uart w (inb_count w))" using Suc(3) [of 0] by simp
  then have "serial_wait port w = serial_wait port ?w"
    by (subst serial_wait.simps) (simp add: inb_run ready_def)
  also have "\<dots> = Returns () (?w\<lparr>inb_count := inb_count ?w + Suc n,
      trace := trace ?w @ polls ?w port (Suc n)\<rparr>)"
    using Suc(2) Suc(3) [of "Suc k" for k] by (intro Suc.IH) simp_all
  also have "[Inb (port + 5) (uart w (inb_count w))] @ polls ?w port (Suc n) = polls w port (Suc (Suc n))"
    unfolding polls_def by (subst (2) upt_conv_Cons) (simp_all add: map_Suc_upt [symmetric] del: upt_Suc)
  then have "?w\<lparr>inb_count := inb_count ?w + Suc n, trace := trace ?w @ polls ?w port (Suc n)\<rparr>
      = w\<lparr>inb_count := inb_count w + Suc (Suc n), trace := trace w @ polls w port (Suc (Suc n))\<rparr>"
    by simp
  finally show ?case .
qed

text \<open>A wait that returns saw a ready port: fixpoint induction on the loop.\<close>

lemma serial_wait_returned:
  assumes "serial_wait port w = Some r"
  shows "\<exists>k \<ge> inb_count w. ready (uart w k)"
proof (induction rule: serial_wait.raw_induct [OF _ assms])
  case (1 sw port w r)
  show ?case
  proof (cases "ready (uart w (inb_count w))")
    case True
    then show ?thesis by blast
  next
    case False
    then have "sw port (w\<lparr>inb_count := Suc (inb_count w),
        trace := trace w @ [Inb (port + 5) (uart w (inb_count w))]\<rparr>) = Some r"
      using 1(2) by (simp add: inb_run ready_def)
    from 1(1) [OF this] show ?thesis by (auto intro: Suc_leD)
  qed
qed

section \<open>Sending bytes\<close>

text \<open>
  What the trace of sending \<open>xs\<close> looks like: polls of the line status, and the bytes of \<open>xs\<close> in
  order, each written right after a poll that found the port ready (\<open>r\<close> is whether the last one
  did).
\<close>

fun polite :: "u16 \<Rightarrow> bool \<Rightarrow> u8 list \<Rightarrow> event list \<Rightarrow> bool" where
  "polite port r [] [] = True"
| "polite port r xs (Inb p v # tr) = (p = port + 5 \<and> polite port (ready v) xs tr)"
| "polite port r (c # cs) (Outb p d # tr) = (p = port \<and> d = c \<and> r \<and> polite port False cs tr)"
| "polite port r xs tr = False"

lemma polite_mono: "polite port False xs tr \<Longrightarrow> polite port r xs tr"
  by (cases "(port, False, xs, tr)" rule: polite.cases) auto

lemma polite_append:
  "polite port r xs tr \<Longrightarrow> polite port False ys us \<Longrightarrow> polite port r (xs @ ys) (tr @ us)"
  by (induction port r xs tr rule: polite.induct) (auto intro: polite_mono)

lemma polite_polls:
  "polite port r xs tr \<Longrightarrow> ready (uart w (inb_count w + n)) \<Longrightarrow>
     polite port q [c] (polls w port (Suc n) @ [Outb port c])"
proof -
  assume r: "ready (uart w (inb_count w + n))"
  have "polite port q [c] (map (Inb (port + 5)) (vs @ [v]) @ [Outb port c])" if "ready v" for vs v
    using that by (induction vs arbitrary: q) simp_all
  from this [OF r, of "map (\<lambda>k. uart w (inb_count w + k)) [0..<n]"] show ?thesis
    by (simp add: polls_def comp_def)
qed

text \<open>The number of polls from \<open>a\<close> to before \<open>b\<close> that find the port ready.\<close>

definition ready_polls :: "(nat \<Rightarrow> u8) \<Rightarrow> nat \<Rightarrow> nat \<Rightarrow> nat" where
  "ready_polls u a b = length (filter (\<lambda>k. ready (u k)) [a..<b])"

lemma ready_polls_split: "a \<le> b \<Longrightarrow> b \<le> c \<Longrightarrow> ready_polls u a c = ready_polls u a b + ready_polls u b c"
  unfolding ready_polls_def by (metis filter_append le_add_diff_inverse length_append upt_add_eq_append)

lemma ready_polls_mono: "b \<le> c \<Longrightarrow> ready_polls u a b \<le> ready_polls u a c"
proof (cases "a \<le> b")
  case False
  then show ?thesis by (simp add: ready_polls_def)
next
  case True
  assume "b \<le> c"
  from ready_polls_split [OF True this] show ?thesis by (rule ssubst) simp
qed

lemma ready_polls_none: "(\<And>k. a \<le> k \<Longrightarrow> \<not> ready (u k)) \<Longrightarrow> ready_polls u a b = 0"
  by (simp add: ready_polls_def filter_False)

lemma ready_polls_first:
  assumes "ready (u (a + n))" and "\<And>k. k < n \<Longrightarrow> \<not> ready (u (a + k))"
  shows "ready_polls u a (Suc (a + n)) = 1"
proof -
  have "filter (\<lambda>k. ready (u k)) [a..<a + n] = []"
    using assms(2) by (auto simp: filter_empty_conv) (metis add_less_cancel_left le_add_diff_inverse)
  with assms(1) show ?thesis by (simp add: ready_polls_def)
qed

text \<open>\<open>sends port w xs w'\<close>: going from \<open>w\<close> to \<open>w'\<close> sends \<open>xs\<close> over the port and does nothing else.\<close>

definition sends :: "u16 \<Rightarrow> world \<Rightarrow> u8 list \<Rightarrow> world \<Rightarrow> bool" where
  "sends port w xs w' \<longleftrightarrow> (\<exists>m tr. w' = w\<lparr>inb_count := m, trace := trace w @ tr\<rparr> \<and> inb_count w \<le> m
     \<and> polite port False xs tr \<and> ready_polls (uart w) (inb_count w) m = length xs)"

lemma sends_Nil [simp]: "sends port w [] w"
  unfolding sends_def
  by (intro exI [of _ "inb_count w"] exI [of _ "[]"]) (simp add: ready_polls_def)

lemma sends_append:
  assumes "sends port w xs w'" and "sends port w' ys w''"
  shows "sends port w (xs @ ys) w''"
proof -
  from assms(1) obtain m tr where 1: "w' = w\<lparr>inb_count := m, trace := trace w @ tr\<rparr>"
    "inb_count w \<le> m" "polite port False xs tr" "ready_polls (uart w) (inb_count w) m = length xs"
    by (auto simp: sends_def)
  from assms(2) obtain k us where 2: "w'' = w'\<lparr>inb_count := k, trace := trace w' @ us\<rparr>"
    "m \<le> k" "polite port False ys us" "ready_polls (uart w) m k = length ys"
    by (auto simp: sends_def 1(1))
  have "w'' = w\<lparr>inb_count := k, trace := trace w @ tr @ us\<rparr>" by (simp add: 1(1) 2(1))
  moreover have "ready_polls (uart w) (inb_count w) k = length (xs @ ys)"
    by (simp only: ready_polls_split [OF 1(2) 2(2)] 1(4) 2(4) length_append)
  moreover have "inb_count w \<le> k" using 1(2) 2(2) by linarith
  ultimately show ?thesis
    unfolding sends_def using polite_append [OF 1(3) 2(3)] by blast
qed

lemma sends_uart: "sends port w xs w' \<Longrightarrow> uart w' = uart w \<and> heap w' = heap w"
  by (auto simp: sends_def)

text \<open>One byte: sent when the port becomes ready, waited for forever when it does not.\<close>

lemma tx_byte_sends:
  assumes "ready (uart w k)" and "inb_count w \<le> k"
  shows "\<exists>w'. tx_byte c port w = Returns () w' \<and> sends port w [c] w'"
proof -
  have "\<exists>n. ready (uart w (inb_count w + n))" using assms by (metis le_add_diff_inverse)
  then obtain n where n: "ready (uart w (inb_count w + n))"
      "\<And>j. j < n \<Longrightarrow> \<not> ready (uart w (inb_count w + j))"
    using exists_least_iff [of "\<lambda>n. ready (uart w (inb_count w + n))"] by blast
  define w' where "w' = w\<lparr>inb_count := inb_count w + Suc n,
    trace := trace w @ polls w port (Suc n) @ [Outb port c]\<rparr>"
  have "tx_byte c port w = Returns () w'"
    using serial_wait_ready [OF n] by (simp add: tx_byte_def outb_def w'_def)
  moreover have "sends port w [c] w'"
    unfolding sends_def w'_def
    using polite_polls [of port False "[]" "[]" w n False c, OF _ n(1)]
      ready_polls_first [of "uart w" "inb_count w" n, OF n]
    by (intro exI conjI) (rule refl, simp_all)
  ultimately show ?thesis by blast
qed

lemma tx_byte_waits:
  assumes "\<And>k. inb_count w \<le> k \<Longrightarrow> \<not> ready (uart w k)"
  shows "tx_byte c port w = Diverges"
proof -
  have "serial_wait port w = Diverges"
    using assms serial_wait_returned [of port w] by (cases "serial_wait port w") auto
  then show ?thesis by (simp add: tx_byte_def)
qed

text \<open>A list of bytes: sent when there are enough ready polls, and only then.\<close>

lemma tx_bytes_result:
  "(\<exists>m. length xs \<le> ready_polls (uart w) (inb_count w) m)
     \<Longrightarrow> \<exists>w'. tx_bytes xs port w = Returns () w' \<and> sends port w xs w'"
proof (induction xs arbitrary: w)
  case Nil
  then show ?case by simp
next
  case (Cons c cs)
  then obtain m where m: "Suc (length cs) \<le> ready_polls (uart w) (inb_count w) m" by auto
  then have "\<exists>k \<ge> inb_count w. ready (uart w k)"
    using ready_polls_none [of "inb_count w" "uart w" m] by fastforce
  then obtain w' where w': "tx_byte c port w = Returns () w'" "sends port w [c] w'"
    using tx_byte_sends by blast
  from w'(2) obtain j tr where j: "w' = w\<lparr>inb_count := j, trace := trace w @ tr\<rparr>"
    "inb_count w \<le> j" "ready_polls (uart w) (inb_count w) j = 1" by (auto simp: sends_def)
  have "length cs \<le> ready_polls (uart w') (inb_count w') m"
  proof (cases "j \<le> m")
    case True
    from ready_polls_split [OF j(2) True, of "uart w"] m j(1,3) show ?thesis by simp
  next
    case False
    then have "ready_polls (uart w) (inb_count w) m \<le> 1"
      using ready_polls_mono [of m j "uart w" "inb_count w"] j(3) by simp
    with m show ?thesis by simp
  qed
  from Cons.IH [OF exI, OF this] obtain w'' where
    "tx_bytes cs port w' = Returns () w''" "sends port w' cs w''" by blast
  with w' show ?case using sends_append [of port w "[c]"] by fastforce
qed

lemma tx_bytes_returned:
  "tx_bytes xs port w \<noteq> Diverges \<Longrightarrow> \<exists>m. length xs \<le> ready_polls (uart w) (inb_count w) m"
proof (induction xs arbitrary: w)
  case Nil
  then show ?case by simp
next
  case (Cons c cs)
  have "\<exists>k \<ge> inb_count w. ready (uart w k)"
  proof (rule ccontr)
    assume "\<not> ?thesis"
    then have "tx_byte c port w = Diverges" by (intro tx_byte_waits) blast
    with Cons(2) show False by simp
  qed
  then obtain w' where w': "tx_byte c port w = Returns () w'" "sends port w [c] w'"
    using tx_byte_sends by blast
  from w'(2) obtain j tr where j: "w' = w\<lparr>inb_count := j, trace := trace w @ tr\<rparr>"
    "inb_count w \<le> j" "ready_polls (uart w) (inb_count w) j = 1" by (auto simp: sends_def)
  have "tx_bytes cs port w' \<noteq> Diverges" using Cons(2) w'(1) by simp
  from Cons.IH [OF this] obtain m where m: "length cs \<le> ready_polls (uart w) j m"
    by (auto simp: j(1))
  show ?case
  proof (cases "j \<le> m")
    case True
    from ready_polls_split [OF j(2) True] m j(3) show ?thesis by (intro exI [of _ m]) simp
  next
    case False
    with m have "cs = []" by (simp add: ready_polls_def)
    with j(3) show ?thesis by (intro exI [of _ j]) simp
  qed
qed

section \<open>Sending a frame\<close>

text \<open>What follows a byte may assume that the memory did not change.\<close>

lemma after_tx_byte:
  assumes "\<And>w'. heap w' = heap w \<Longrightarrow> f () w' = g () w'"
  shows "bindp (tx_byte c port) f w = bindp (tx_byte c port) g w"
proof (cases "\<exists>k \<ge> inb_count w. ready (uart w k)")
  case True
  then obtain w' where "tx_byte c port w = Returns () w'" "sends port w [c] w'"
    using tx_byte_sends by blast
  with assms show ?thesis using sends_uart by (simp del: One_nat_def)
next
  case False
  then have "tx_byte c port w = Diverges" by (intro tx_byte_waits) blast
  then show ?thesis by simp
qed

text \<open>Whatever the code reads, the frame goes out as one list of bytes.\<close>

lemma slip_loop_bytes:
  assumes "src_at (heap w) p xs" and "i \<le> length xs"
  shows "slip_loop port p i (length xs) w = tx_bytes (concat (map slip_escape (drop i xs))) port w"
  using assms
proof (induction "length xs - i" arbitrary: i w)
  case 0
  then show ?case by (subst slip_loop.simps) simp
next
  case (Suc d)
  then have i: "i < length xs" by simp
  then have "xs \<noteq> []" by auto
  with Suc(3) have at: "bytes_at (heap w) p xs" by (simp add: src_at_def)
  have l: "load_bytes (POINTER_ADD p i) 1 w = Returns [xs ! i] w"
    by (rule load_bytes_at [OF bytes_at_nth [OF at i]]) simp
  have d: "drop i xs = xs ! i # drop (Suc i) xs" using i by (simp add: Cons_nth_drop_Suc)
  have IH: "slip_loop port p (Suc i) (length xs) w'
      = tx_bytes (concat (map slip_escape (drop (Suc i) xs))) port w'" if "heap w' = heap w" for w'
    using Suc(1) [of "Suc i" w'] Suc(2,3) i that by simp
  show ?case
    by (subst slip_loop.simps)
      (auto simp: i l [simplified] d slip_escape_def Let_def IH intro!: after_tx_byte)
qed

lemma slip_transmit_bytes:
  assumes "src_at (heap w) p xs" and "n = length xs"
  shows "slip_transmit port p n w = bindp (tx_bytes (slip_frame xs) port) (\<lambda>_. retp n) w"
proof -
  have "bindp (slip_loop port p 0 (length xs)) f w'
      = bindp (tx_bytes (concat (map slip_escape xs)) port) f w'" if "heap w' = heap w"
      for f :: "unit \<Rightarrow> nat cprog" and w'
    using slip_loop_bytes [of w' p xs 0] assms(1) that by (simp add: bindp_def)
  then show ?thesis
    unfolding slip_transmit_def slip_frame_def assms(2)
    by (simp add: tx_bytes_append bindp_assoc) (intro after_tx_byte, simp add: bindp_assoc, simp add: retp_def [abs_def])
qed

section \<open>The receiver of RFC 1055\<close>

text \<open>
  The framing the standard asks for, and its reference receiver: it collects bytes up to an END,
  ignores empty packets, and reads the byte after an ESC as the escaped one.
\<close>

definition rfc1055_escape :: "u8 \<Rightarrow> u8 list" where
  "rfc1055_escape c =
     (if c = SLIP_FRAME_END then [SLIP_FRAME_ESCAPE, SLIP_ESCAPE_END]
      else if c = SLIP_FRAME_ESCAPE then [SLIP_FRAME_ESCAPE, SLIP_ESCAPE_ESCAPE]
      else [c])"

definition rfc1055_frame :: "u8 list \<Rightarrow> u8 list" where
  "rfc1055_frame xs = [SLIP_FRAME_END] @ concat (map rfc1055_escape xs) @ [SLIP_FRAME_END]"

definition rfc1055_unescape :: "u8 \<Rightarrow> u8" where
  "rfc1055_unescape d =
     (if d = SLIP_ESCAPE_END then SLIP_FRAME_END
      else if d = SLIP_ESCAPE_ESCAPE then SLIP_FRAME_ESCAPE else d)"

fun rfc1055_receive :: "u8 list \<Rightarrow> u8 list \<Rightarrow> u8 list list" where
  "rfc1055_receive acc [] = []"
| "rfc1055_receive acc [c] = (if c = SLIP_FRAME_END \<and> acc \<noteq> [] then [acc] else [])"
| "rfc1055_receive acc (c # d # cs) =
     (if c = SLIP_FRAME_END
      then (if acc = [] then rfc1055_receive [] (d # cs) else acc # rfc1055_receive [] (d # cs))
      else if c = SLIP_FRAME_ESCAPE then rfc1055_receive (acc @ [rfc1055_unescape d]) cs
      else rfc1055_receive (acc @ [c]) (d # cs))"

definition slip_clean :: "u8 list \<Rightarrow> bool" where
  "slip_clean xs \<longleftrightarrow> SLIP_FRAME_END \<notin> set xs \<and> SLIP_FRAME_ESCAPE \<notin> set xs"

lemma receive_END [simp]:
  "rfc1055_receive acc (SLIP_FRAME_END # cs)
     = (if acc = [] then rfc1055_receive [] cs else acc # rfc1055_receive [] cs)"
  by (cases cs) simp_all

lemma receive_plain [simp]:
  "c \<noteq> SLIP_FRAME_END \<Longrightarrow> c \<noteq> SLIP_FRAME_ESCAPE \<Longrightarrow>
     rfc1055_receive acc (c # cs) = rfc1055_receive (acc @ [c]) cs"
  by (cases cs) simp_all

lemma receive_escaped [simp]:
  "rfc1055_receive acc (SLIP_FRAME_ESCAPE # d # cs) = rfc1055_receive (acc @ [rfc1055_unescape d]) cs"
  by (simp add: slip_consts)

lemma receive_escape [simp]:
  "rfc1055_receive acc (rfc1055_escape c @ cs) = rfc1055_receive (acc @ [c]) cs"
  by (simp add: rfc1055_escape_def rfc1055_unescape_def) (simp add: slip_consts)

lemma receive_body:
  "rfc1055_receive acc (concat (map rfc1055_escape xs) @ cs) = rfc1055_receive (acc @ xs) cs"
  by (induction xs arbitrary: acc) simp_all

lemma receive_frame:
  "rfc1055_receive [] (rfc1055_frame xs @ cs)
     = (if xs = [] then rfc1055_receive [] cs else xs # rfc1055_receive [] cs)"
  by (simp add: rfc1055_frame_def receive_body)

lemma escape_clean: "slip_clean xs \<Longrightarrow> concat (map slip_escape xs) = xs \<and> concat (map rfc1055_escape xs) = xs"
  by (induction xs) (auto simp: slip_clean_def slip_escape_def rfc1055_escape_def)

lemma frame_clean: "slip_clean xs \<Longrightarrow> slip_frame xs = rfc1055_frame xs"
  by (simp add: slip_frame_def rfc1055_frame_def escape_clean)

text \<open>A packet that is being received keeps what was received of it.\<close>

lemma receive_prefix:
  "rfc1055_receive acc cs = p # ps \<Longrightarrow> \<exists>zs. p = acc @ zs"
  by (induction acc cs rule: rfc1055_receive.induct) (auto split: if_splits)

text \<open>Data that is not clean goes wrong at its first special byte.\<close>

lemma not_clean_split:
  assumes "\<not> slip_clean xs"
  shows "\<exists>as c bs. xs = as @ c # bs \<and> slip_clean as \<and> (c = SLIP_FRAME_END \<or> c = SLIP_FRAME_ESCAPE)"
proof -
  have "\<exists>c \<in> set xs. c = SLIP_FRAME_END \<or> c = SLIP_FRAME_ESCAPE"
    using assms by (auto simp: slip_clean_def)
  from split_list_first_prop [OF this] show ?thesis
    by (auto simp: slip_clean_def)
qed

lemma receive_clean: "slip_clean as \<Longrightarrow> rfc1055_receive acc (as @ cs) = rfc1055_receive (acc @ as) cs"
  using receive_body [of acc as cs] by (simp add: escape_clean)

lemma receive_not_clean_stream:
  assumes "\<not> slip_clean xs"
  shows "rfc1055_receive [] (slip_frame xs @ rest) \<noteq> xs # ps"
proof -
  obtain as c bs where xs: "xs = as @ c # bs" "slip_clean as"
      "c = SLIP_FRAME_END \<or> c = SLIP_FRAME_ESCAPE"
    using not_clean_split [OF assms] by blast
  obtain d where d: "slip_escape c = [d, c]" "d \<noteq> c" "d \<noteq> SLIP_FRAME_END" "d \<noteq> SLIP_FRAME_ESCAPE"
    using xs(3) by (auto simp: slip_escape_def) (simp_all add: slip_consts)
  have "rfc1055_receive [] (slip_frame xs @ rest)
      = rfc1055_receive (as @ [d]) (c # concat (map slip_escape bs) @ SLIP_FRAME_END # rest)"
    using xs(2) d by (simp add: slip_frame_def xs(1) escape_clean receive_clean)
  moreover have "xs \<noteq> (as @ [d]) @ zs" for zs using d(2) by (simp add: xs(1))
  ultimately show ?thesis using receive_prefix by metis
qed

lemma receive_not_clean:
  assumes "\<not> slip_clean xs"
  shows "slip_frame xs \<noteq> rfc1055_frame xs \<and> rfc1055_receive [] (slip_frame xs) \<noteq> [xs]"
proof -
  have "xs \<noteq> []" using assms by (auto simp: slip_clean_def)
  then have "rfc1055_receive [] (rfc1055_frame xs) = [xs]"
    using receive_frame [of xs "[]"] by simp
  with receive_not_clean_stream [OF assms, of "[]" "[]"] show ?thesis by auto
qed

lemma receive_stream:
  "[] \<notin> set ps \<Longrightarrow> rfc1055_receive [] (concat (map slip_frame ps) @ rest) = ps @ rfc1055_receive [] rest
    \<longleftrightarrow> (\<forall>p \<in> set ps. slip_clean p)"
proof (induction ps)
  case (Cons p ps)
  then have "p \<noteq> []" by auto
  with Cons show ?case
    using receive_not_clean_stream [of p "concat (map slip_frame ps) @ rest" "ps @ rfc1055_receive [] rest"]
    by (cases "slip_clean p") (simp_all add: frame_clean receive_frame)
qed simp

section \<open>Properties\<close>

text \<open>C14: \<open>slip_transmit\<close> sends END, the bytes of the data in order with the extra byte the code
  puts before END and ESC, and END; every byte is written right after a poll that found the port
  ready, nothing else happens, and the length of the data is returned. The port has to be ready
  often enough.\<close>

theorem slip_transmit_sends:
  assumes "src_at (heap w) p xs"
    and "length (slip_frame xs) \<le> ready_polls (uart w) (inb_count w) m"
  shows "\<exists>w'. slip_transmit port p (length xs) w = Returns (length xs) w'
    \<and> sends port w (slip_frame xs) w'"
proof -
  obtain w' where "tx_bytes (slip_frame xs) port w = Returns () w'" "sends port w (slip_frame xs) w'"
    using tx_bytes_result [OF exI, OF assms(2)] by blast
  then show ?thesis by (simp add: slip_transmit_bytes [OF assms(1) refl])
qed

theorem slip_transmit_sends_witness:
  "\<exists>w'. slip_transmit 0x2f8 (Ptr 0 1) 2 (demo_with [Bytes [1, 0xC0, 2]]) = Returns 2 w'
    \<and> sends 0x2f8 (demo_with [Bytes [1, 0xC0, 2]]) [0xC0, 0xDC, 0xC0, 2, 0xC0] w'"
proof -
  let ?w = "demo_with [Bytes [1, 0xC0, 2]]"
  have f: "slip_frame [0xC0, 2] = [0xC0, 0xDC, 0xC0, 2, 0xC0]"
    by (simp add: slip_frame_def slip_escape_def slip_consts)
  have "src_at (heap ?w) (Ptr 0 1) [0xC0, 2]" by simp
  moreover have "length (slip_frame [0xC0, 2]) \<le> ready_polls (uart ?w) (inb_count ?w) 7"
    by (simp add: f ready_polls_def ready_def upt_rec)
  ultimately show ?thesis
    using slip_transmit_sends [of ?w "Ptr 0 1" "[0xC0, 2]" 7 "0x2f8"]
    by (simp add: f numeral_2_eq_2)
qed

text \<open>C15: \<open>slip_transmit\<close> returns exactly when the port is found ready at least once for every byte
  of the frame; otherwise it polls forever.\<close>

theorem slip_transmit_terminates:
  assumes "src_at (heap w) p xs"
  shows "slip_transmit port p (length xs) w \<noteq> Diverges \<longleftrightarrow>
    (\<exists>m. length (slip_frame xs) \<le> ready_polls (uart w) (inb_count w) m)"
proof
  assume "slip_transmit port p (length xs) w \<noteq> Diverges"
  then have "tx_bytes (slip_frame xs) port w \<noteq> Diverges"
    unfolding slip_transmit_bytes [OF assms refl] by (metis bindp_Diverges)
  then show "\<exists>m. length (slip_frame xs) \<le> ready_polls (uart w) (inb_count w) m"
    by (rule tx_bytes_returned)
next
  assume "\<exists>m. length (slip_frame xs) \<le> ready_polls (uart w) (inb_count w) m"
  from tx_bytes_result [OF this] obtain w' where
    "tx_bytes (slip_frame xs) port w = Returns () w'" by blast
  then show "slip_transmit port p (length xs) w \<noteq> Diverges"
    by (simp add: slip_transmit_bytes [OF assms refl])
qed

theorem slip_transmit_terminates_witness:
  "slip_transmit 0x2f8 (Ptr 0 0) 1 ((demo_with [Bytes [7]])\<lparr>uart := \<lambda>k. if k < 2 then 0x60 else 0\<rparr>)
     = Diverges"
proof -
  let ?w = "(demo_with [Bytes [7]])\<lparr>uart := \<lambda>k. if k < 2 then 0x60 else 0\<rparr>"
  have f: "length (slip_frame [7]) = 3"
    by (simp add: slip_frame_def slip_escape_def slip_consts)
  have "ready_polls (uart ?w) (inb_count ?w) m < 3" for m
  proof -
    have "ready_polls (uart ?w) 0 m \<le> ready_polls (uart ?w) 0 (max 2 m)"
      by (rule ready_polls_mono) simp
    also have "\<dots> = ready_polls (uart ?w) 0 2 + ready_polls (uart ?w) 2 (max 2 m)"
      by (rule ready_polls_split) simp_all
    also have "\<dots> < 3"
      by (simp add: ready_polls_none ready_def) (simp add: ready_polls_def upt_rec)
    finally show ?thesis by simp
  qed
  then have "\<not> (\<exists>m. length (slip_frame [7]) \<le> ready_polls (uart ?w) (inb_count ?w) m)"
    unfolding f not_ex not_le by blast
  moreover have "src_at (heap ?w) (Ptr 0 0) [7]" by simp
  ultimately have "slip_transmit 0x2f8 (Ptr 0 0) (length [7 :: u8]) ?w = Diverges"
    using slip_transmit_terminates by blast
  then show ?thesis by simp
qed

text \<open>C16: what the code sends is the frame of RFC 1055, and is received as the data by the receiver
  of RFC 1055, exactly for data without END and ESC bytes: the code sends the escaped byte itself
  after a substitute, where the standard sends ESC and the substitute. (The receiver drops empty
  packets, and gets every packet in the standard's framing.)\<close>

theorem slip_frame_rfc1055:
  "(slip_frame xs = rfc1055_frame xs \<longleftrightarrow> slip_clean xs)
   \<and> (rfc1055_receive [] (slip_frame xs) = [xs] \<longleftrightarrow> slip_clean xs \<and> xs \<noteq> [])
   \<and> rfc1055_receive [] (rfc1055_frame xs) = (if xs = [] then [] else [xs])"
  using receive_frame [of xs "[]"] frame_clean [of xs] receive_not_clean [of xs]
  by (cases "slip_clean xs") auto

text \<open>C17: a sequence of non-empty packets is received in order and complete, whatever else is on the
  line after it, exactly when none of them has an END or ESC byte.\<close>

theorem slip_stream_received:
  assumes "[] \<notin> set ps"
  shows "rfc1055_receive [] (concat (map slip_frame ps) @ rest) = ps @ rfc1055_receive [] rest
    \<longleftrightarrow> (\<forall>p \<in> set ps. slip_clean p)"
  using assms by (rule receive_stream)

theorem slip_stream_received_witness:
  "rfc1055_receive [] (concat (map slip_frame [[1, 2], [3]])) = [[1, 2], [3]]
   \<and> rfc1055_receive [] (concat (map slip_frame [[1, 2], [0xC0]])) \<noteq> [[1, 2], [0xC0]]"
  using slip_stream_received [of "[[1, 2], [3]]" "[]"] slip_stream_received [of "[[1, 2], [0xC0]]" "[]"]
  by (simp add: slip_clean_def slip_consts)

end
