(* ===== verification/Link.thy ===== *)
theory Link
  imports Eth Slip
begin

text \<open>
  The choice of the link, \<open>link.c\<close>, and the interface \<open>link_layer\<close> that the IP layer is
  verified against: a datagram handed to the link is carried by it, in the form the link gives
  it, and the memory is left alone. Ethernet on either platform and SLIP are interpretations.
\<close>

section \<open>The operation\<close>

definition link_tx :: "(ptr \<Rightarrow> ptr \<Rightarrow> nat \<Rightarrow> nat cprog) \<Rightarrow> ptr \<Rightarrow> ptr \<Rightarrow> nat \<Rightarrow> nat cprog" where
  "link_tx transmit sock data n =
     bindp (load_sock sock) (\<lambda>s.
     bindp (load_link (link_options s)) (\<lambda>link.
     case link_type link of
       ETH \<Rightarrow> eth_transmit transmit sock data n
     | SLIP \<Rightarrow> slip_transmit 0x02f8 data n
     | OtherLink i \<Rightarrow> retp 0))"

section \<open>The interface\<close>

text \<open>
  \<open>sock_ok c h p s\<close>: the socket \<open>s\<close> at \<open>p\<close> uses the link, set up as \<open>c\<close> says; \<open>dev_ok w\<close>: the
  outside world lets the link work; \<open>carries c s ret xs r tr\<close>: the events \<open>tr\<close> carry the
  datagram \<open>xs\<close>, and \<open>r\<close> is what is returned when the system calls return \<open>ret 0\<close>, \<open>ret 1\<close>
  and so on.
\<close>

locale link_layer =
  fixes tx :: "ptr \<Rightarrow> ptr \<Rightarrow> nat \<Rightarrow> nat cprog"
    and sock_ok :: "'c \<Rightarrow> (nat \<rightharpoonup> obj) \<Rightarrow> ptr \<Rightarrow> net_socket \<Rightarrow> bool"
    and dev_ok :: "world \<Rightarrow> bool"
    and carries :: "'c \<Rightarrow> net_socket \<Rightarrow> (nat \<Rightarrow> int) \<Rightarrow> u8 list \<Rightarrow> nat \<Rightarrow> event list \<Rightarrow> bool"
  assumes carried: "sock_ok c (heap w) p s \<Longrightarrow> dev_ok w \<Longrightarrow> bytes_at (heap w) d xs \<Longrightarrow> mem_inv w \<Longrightarrow>
      length xs \<le> 65535 \<Longrightarrow> \<exists>r b n k tr. tx p d (length xs) w
        = Returns r (w\<lparr>brk := b, inb_count := n, sys_count := k, trace := trace w @ tr\<rparr>)
        \<and> brk w \<le> b \<and> carries c s (returns_of w) xs r tr"
    and sock: "sock_ok c h p s \<Longrightarrow> \<exists>b. p = Ptr b 0 \<and> h b = Some (Net_socket s)"
    and fresh: "sock_ok c h p s \<Longrightarrow> h b = None \<Longrightarrow> sock_ok c (h(b := x)) p s"
    and apart: "sock_ok c h p s \<Longrightarrow> b \<notin> link_foot h p \<Longrightarrow> sock_ok c (h(b := x)) p s"
    and foot: "sock_ok c h p s \<Longrightarrow> h b = None \<Longrightarrow> link_foot (h(b := x)) p = link_foot h p"
    and device: "dev_ok w \<Longrightarrow> alloc_ok w' = alloc_ok w \<Longrightarrow> uart w' = uart w \<Longrightarrow> dev_ok w'"

text \<open>Ethernet: memory is available, and the calls are made with the framed datagram.\<close>

definition memory_ok :: "world \<Rightarrow> bool" where
  "memory_ok w \<longleftrightarrow> (\<forall>b. alloc_ok w b)"

definition eth_carries ::
  "(net_socket \<Rightarrow> eth_hdr \<times> u8 list \<Rightarrow> (nat \<Rightarrow> int) \<Rightarrow> u8 list \<Rightarrow> event list \<times> nat) \<Rightarrow>
   eth_hdr \<times> u8 list \<Rightarrow> net_socket \<Rightarrow> (nat \<Rightarrow> int) \<Rightarrow> u8 list \<Rightarrow> nat \<Rightarrow> event list \<Rightarrow> bool" where
  "eth_carries calls c s ret xs r tr \<longleftrightarrow>
     (let res = calls s c ret (eth_hdr_bytes (fst c) @ xs) in tr = fst res \<and> r = snd res mod 65536)"

lemma eth_sock_run:
  assumes "eth_sock c (heap w) p s"
  shows "link_tx transmit p d n w = eth_transmit transmit p d n w"
proof -
  obtain b lb l where "p = Ptr b 0" "heap w b = Some (Net_socket s)"
     "link_options s = Ptr lb 0" "heap w lb = Some (Link_options l)" "link_type l = ETH"
    using assms unfolding eth_sock_def by blast
  then show ?thesis by (simp add: link_tx_def load_sock_run load_link_run)
qed

context platform begin

lemma eth_carried:
  assumes "eth_sock c (heap w) p s" and "memory_ok w" and "bytes_at (heap w) d xs" and "mem_inv w"
    and "length xs \<le> 65535"
  shows "\<exists>r b n k tr. link_tx transmit p d (length xs) w
      = Returns r (w\<lparr>brk := b, inb_count := n, sys_count := k, trace := trace w @ tr\<rparr>)
    \<and> brk w \<le> b \<and> eth_carries calls c s (returns_of w) xs r tr"
proof -
  let ?c = "calls s c (returns_of w) (eth_hdr_bytes (fst c) @ xs)"
  have "link_tx transmit p d (length xs) w = Returns (snd ?c mod 65536)
      (w\<lparr>brk := Suc (brk w), inb_count := inb_count w, sys_count := sys_count w + length (fst ?c),
         trace := trace w @ fst ?c\<rparr>)"
    using eth_transmit_run [OF assms(1) src_atI [OF assms(3)] assms(4)] assms(2,5)
    by (simp add: eth_sock_run [OF assms(1)] memory_ok_def after_calls_def)
  moreover have "brk w \<le> Suc (brk w)" by simp
  moreover have "eth_carries calls c s (returns_of w) xs (snd ?c mod 65536) (fst ?c)"
    by (simp add: eth_carries_def Let_def)
  ultimately show ?thesis by blast
qed

end

lemma link_foot_fresh:
  assumes "p = Ptr k 0" "h k = Some (Net_socket s)" "link_options s = Ptr lb 0" "h lb = Some y"
    and "h b = None"
  shows "link_foot (h(b := x)) p = link_foot h p"
proof -
  have "b \<noteq> k" "b \<noteq> lb" using assms by auto
  with assms show ?thesis by (simp add: link_foot_def)
qed

lemma eth_sock_foot: "eth_sock c h p s \<Longrightarrow> h b = None \<Longrightarrow> link_foot (h(b := x)) p = link_foot h p"
  unfolding eth_sock_def by (elim exE conjE) (rule link_foot_fresh)

lemma eth_sock_sock: "eth_sock c h p s \<Longrightarrow> \<exists>b. p = Ptr b 0 \<and> h b = Some (Net_socket s)"
  by (auto simp: eth_sock_def)

interpretation eth_linux: link_layer "link_tx linux_transmit" eth_sock memory_ok "eth_carries linux_calls"
  by unfold_locales (rule linux.eth_carried, assumption+, rule eth_sock_sock, assumption,
    rule eth_sock_fresh, assumption+, rule eth_sock_apart, assumption+,
    rule eth_sock_foot, assumption+, simp add: memory_ok_def)

interpretation eth_lf_os: link_layer "link_tx lf_os_transmit" eth_sock memory_ok "eth_carries lf_os_calls"
  by unfold_locales (rule lf_os.eth_carried, assumption+, rule eth_sock_sock, assumption,
    rule eth_sock_fresh, assumption+, rule eth_sock_apart, assumption+,
    rule eth_sock_foot, assumption+, simp add: memory_ok_def)

text \<open>SLIP: the port becomes ready again and again; the frame goes out byte by byte.\<close>

definition slip_sock :: "unit \<Rightarrow> (nat \<rightharpoonup> obj) \<Rightarrow> ptr \<Rightarrow> net_socket \<Rightarrow> bool" where
  "slip_sock c h p s \<longleftrightarrow> (\<exists>b lb l. p = Ptr b 0 \<and> h b = Some (Net_socket s)
     \<and> link_options s = Ptr lb 0 \<and> h lb = Some (Link_options l) \<and> link_type l = SLIP)"

definition uart_ok :: "world \<Rightarrow> bool" where
  "uart_ok w \<longleftrightarrow> (\<forall>k. \<exists>j\<ge>k. ready (uart w j))"

definition slip_carries :: "unit \<Rightarrow> net_socket \<Rightarrow> (nat \<Rightarrow> int) \<Rightarrow> u8 list \<Rightarrow> nat \<Rightarrow> event list \<Rightarrow> bool" where
  "slip_carries c s ret xs r tr \<longleftrightarrow> polite 0x2f8 False (slip_frame xs) tr \<and> r = length xs"

lemma uart_ok_polls: "uart_ok w \<Longrightarrow> \<exists>m. n \<le> ready_polls (uart w) a m"
proof (induction n)
  case (Suc n)
  then obtain m where m: "n \<le> ready_polls (uart w) a m" by blast
  obtain j where j: "max a m \<le> j" "ready (uart w j)"
    using Suc(2) unfolding uart_ok_def by blast
  have "ready_polls (uart w) a (Suc j) = Suc (ready_polls (uart w) a j)"
    using j by (simp add: ready_polls_def)
  moreover have "ready_polls (uart w) a m \<le> ready_polls (uart w) a j"
    using j(1) by (intro ready_polls_mono) simp
  ultimately have "Suc n \<le> ready_polls (uart w) a (Suc j)" using m by linarith
  then show ?case ..
qed simp

lemma slip_carried:
  assumes "slip_sock c (heap w) p s" and "uart_ok w" and "bytes_at (heap w) d xs"
  shows "\<exists>r b n k tr. link_tx transmit p d (length xs) w
      = Returns r (w\<lparr>brk := b, inb_count := n, sys_count := k, trace := trace w @ tr\<rparr>)
    \<and> brk w \<le> b \<and> slip_carries c s (returns_of w) xs r tr"
proof -
  obtain w' where w': "tx_bytes (slip_frame xs) 0x2f8 w = Returns () w'"
    "sends 0x2f8 w (slip_frame xs) w'"
    using tx_bytes_result [OF uart_ok_polls [OF assms(2)]] by blast
  obtain b lb l where "p = Ptr b 0" "heap w b = Some (Net_socket s)"
     "link_options s = Ptr lb 0" "heap w lb = Some (Link_options l)" "link_type l = SLIP"
    using assms(1) unfolding slip_sock_def by blast
  then have "link_tx transmit p d (length xs) w = slip_transmit 0x2f8 d (length xs) w"
    by (simp add: link_tx_def load_sock_run load_link_run)
  also have "\<dots> = Returns (length xs) w'"
    using w'(1) by (simp add: slip_transmit_bytes [OF src_atI [OF assms(3)] refl])
  finally have r: "link_tx transmit p d (length xs) w = Returns (length xs) w'" .
  from w'(2) obtain m tr where m: "w' = w\<lparr>inb_count := m, trace := trace w @ tr\<rparr>"
    "polite 0x2f8 False (slip_frame xs) tr" unfolding sends_def by blast
  have "w' = w\<lparr>brk := brk w, inb_count := m, sys_count := sys_count w, trace := trace w @ tr\<rparr>"
    by (simp add: m(1))
  moreover have "slip_carries c s (returns_of w) xs (length xs) tr"
    using m(2) by (simp add: slip_carries_def)
  ultimately show ?thesis using r by (metis order_refl)
qed

lemma slip_sock_apart:
  assumes "slip_sock c h p s" and "b \<notin> link_foot h p"
  shows "slip_sock c (h(b := x)) p s"
proof -
  obtain k lb l where *: "p = Ptr k 0" "h k = Some (Net_socket s)"
     "link_options s = Ptr lb 0" "h lb = Some (Link_options l)" "link_type l = SLIP"
    using assms(1) unfolding slip_sock_def by blast
  with assms(2) have "b \<noteq> k" "b \<noteq> lb" by (auto simp: link_foot_def)
  with * show ?thesis by (simp add: slip_sock_def)
qed

lemma slip_sock_fresh:
  assumes "slip_sock c h p s" and "h b = None"
  shows "slip_sock c (h(b := x)) p s"
proof -
  obtain k lb l where *: "p = Ptr k 0" "h k = Some (Net_socket s)"
     "link_options s = Ptr lb 0" "h lb = Some (Link_options l)" "link_type l = SLIP"
    using assms(1) unfolding slip_sock_def by blast
  with assms(2) have "b \<noteq> k" "b \<noteq> lb" by auto
  with * show ?thesis by (simp add: slip_sock_def)
qed

lemma slip_sock_sock: "slip_sock c h p s \<Longrightarrow> \<exists>b. p = Ptr b 0 \<and> h b = Some (Net_socket s)"
  by (auto simp: slip_sock_def)

lemma slip_sock_foot: "slip_sock c h p s \<Longrightarrow> h b = None \<Longrightarrow> link_foot (h(b := x)) p = link_foot h p"
  unfolding slip_sock_def by (elim exE conjE) (rule link_foot_fresh)

interpretation slip: link_layer "link_tx transmit" slip_sock uart_ok slip_carries for transmit
  by unfold_locales (rule slip_carried, assumption+, rule slip_sock_sock, assumption,
    rule slip_sock_fresh, assumption+, rule slip_sock_apart, assumption+,
    rule slip_sock_foot, assumption+, simp add: uart_ok_def)

section \<open>Properties\<close>

text \<open>\<open>link_tx\<close> sends over the link of the socket: Ethernet sockets through \<open>eth_transmit\<close>,
  SLIP sockets through the fixed port 0x2f8 whatever port their options hold, and any other link
  type drops the data and returns 0.\<close>

theorem link_tx_dispatch:
  assumes "heap w b = Some (Net_socket s)" and "link_options s = Ptr lb 0"
    and "heap w lb = Some (Link_options l)"
  shows "link_tx transmit (Ptr b 0) d n w =
    (if link_type l = ETH then eth_transmit transmit (Ptr b 0) d n w
     else if link_type l = SLIP then slip_transmit 0x2f8 d n w
     else Returns 0 w)"
  using assms by (cases "link_type l") (simp_all add: link_tx_def load_sock_run load_link_run)

theorem link_tx_dispatch_witness:
  "link_tx linux_transmit (Ptr 0 0) (Ptr 5 0) 1 (demo_with (demo_blocks (OtherLink 2) @ [Bytes [9]]))
     = Returns 0 (demo_with (demo_blocks (OtherLink 2) @ [Bytes [9]]))"
  using link_tx_dispatch [of "demo_with (demo_blocks (OtherLink 2) @ [Bytes [9]])" 0 demo_sock 1]
  by (simp add: demo_sock_def nth_append)

end
