(* ===== verification/Csum.thy ===== *)
theory Csum
  imports Data_Util
begin

text \<open>
  \<open>csum.h\<close> and \<open>csum.c\<close>: the Internet checksum and the IPv4 pseudo header. The checksum is
  shown to be the one's complement sum of RFC 1071, to verify at the receiver, and not to
  depend on the byte order of the host.
\<close>

section \<open>The checksum\<close>

text \<open>
  The first loop: \<open>sum\<close> is an \<open>unsigned long\<close>, the words are read in host order, and an odd
  last byte is added in the high half of a word.
\<close>

fun csum_loop :: "u8 list \<Rightarrow> u64 \<Rightarrow> u64" where
  "csum_loop (a # b # bs) s = csum_loop bs (s + ucast (of_le16 [a, b]))"
| "csum_loop [a] s = s + ucast (ucast (push_bit 8 (ucast a :: u32)) :: u16)"
| "csum_loop [] s = s"

text \<open>The second loop adds the carries back until there are none.\<close>

lemma fold_unat:
  "unat ((s :: u64) AND 0x0000FFFF) = unat s mod 65536"
  "unat (drop_bit 16 s) = unat s div 65536"
proof -
  have "(0x0000FFFF :: u64) = mask 16"
    by (simp add: mask_eq_exp_minus_1)
  then have "s AND 0x0000FFFF = take_bit 16 s"
    by (simp add: take_bit_eq_mask)
  then show "unat (s AND 0x0000FFFF) = unat s mod 65536"
    by (simp add: unsigned_take_bit_eq take_bit_eq_mod unat_mod)
  show "unat (drop_bit 16 s) = unat s div 65536"
    by (rule unat_drop_16)
qed

lemma unat_fold_step:
  "unat ((s AND 0x0000FFFF) + drop_bit 16 (s :: u64)) = unat s mod 65536 + unat s div 65536"
proof -
  have "unat s < 2 ^ LENGTH(64)" by (rule unsigned_less)
  then have "unat s div 65536 < 2 ^ 48" by (simp add: div_less_iff_less_mult)
  moreover have "unat s mod 65536 < 65536" by simp
  ultimately have "unat s mod 65536 + unat s div 65536 < 2 ^ LENGTH(64)" by simp
  then show ?thesis
    by (simp only: unat_word_ariths fold_unat mod_less)
qed

lemma drop_16_eq_0: "drop_bit 16 (s :: u64) = 0 \<longleftrightarrow> unat s < 65536"
  by (simp add: word_unat_eq_iff unat_drop_16 div_eq_0_iff)

lemma fold_decreases: "65536 \<le> (n::nat) \<Longrightarrow> n mod 65536 + n div 65536 < n"
proof -
  assume "65536 \<le> n"
  have glue: "n = 65536 * q + r \<Longrightarrow> 0 < q \<Longrightarrow> r + q < n" for q r by simp
  show ?thesis
    using \<open>65536 \<le> n\<close> by (intro glue) (simp_all add: div_greater_zero_iff)
qed

function csum_fold :: "u64 \<Rightarrow> u64" where
  "csum_fold s = (if drop_bit 16 s \<noteq> 0
     then csum_fold ((s AND 0x0000FFFF) + drop_bit 16 s) else s)"
  by pat_completeness auto
termination
proof (relation "measure unat")
  fix s :: u64 assume "drop_bit 16 s \<noteq> 0"
  then show "((s AND 0x0000FFFF) + drop_bit 16 s, s) \<in> measure unat"
    using fold_decreases [of "unat s"] by (simp only: drop_16_eq_0 in_measure unat_fold_step)
qed simp

declare csum_fold.simps [simp del]

definition csum_bytes :: "u8 list \<Rightarrow> u16" where
  "csum_bytes bs = (let s = csum_fold (csum_loop bs 0) in ucast (NOT s))"

definition csum :: "ptr \<Rightarrow> nat \<Rightarrow> u16 cprog" where
  "csum data sz = (if sz = 0 then retp (csum_bytes [])
     else bindp (load_bytes data sz) (\<lambda>bs. retp (csum_bytes bs)))"

section \<open>The pseudo header\<close>

definition craft_ipv4_psd_hdr :: "u32 \<Rightarrow> u32 \<Rightarrow> u8 \<Rightarrow> nat \<Rightarrow> ptr cprog" where
  "craft_ipv4_psd_hdr src dst pt len =
     bindp (calloc 12) (\<lambda>ret.
     bindp (assertp (ret \<noteq> Null)) (\<lambda>_.
     bindp (store_bytes ret (ipv4_psd_hdr_bytes
       \<lparr>psrc = src, pdst = dst, zero = 0, pptcl = pt, plen = u16_of_size (len mod 65536)\<rparr>)) (\<lambda>_.
     retp ret)))"

section \<open>The specification\<close>

text \<open>
  The 16 bit words of a buffer in either byte order, with the value an odd last byte counts
  for, and the one's complement sum: sums with end-around carry are residues modulo 65535,
  with 65535 rather than 0 for a positive sum.
\<close>

fun le_sum :: "u8 list \<Rightarrow> nat" where
  "le_sum (a # b # bs) = unat a + 256 * unat b + le_sum bs"
| "le_sum [a] = 256 * unat a"
| "le_sum [] = 0"

fun be_sum :: "u8 list \<Rightarrow> nat" where
  "be_sum (a # b # bs) = 256 * unat a + unat b + be_sum bs"
| "be_sum [a] = 256 * unat a"
| "be_sum [] = 0"

definition ones_sum :: "nat \<Rightarrow> nat" where
  "ones_sum s = (if s = 0 then 0 else (s - 1) mod 65535 + 1)"

text \<open>The checksum of RFC 1071 on a buffer read in network byte order.\<close>

definition rfc1071_csum :: "u8 list \<Rightarrow> u16" where
  "rfc1071_csum bs = word_of_nat (65535 - ones_sum (be_sum bs))"

lemma ones_sum_le: "ones_sum s \<le> 65535"
proof -
  have "(s - 1) mod 65535 < 65535" by simp
  then obtain r where "(s - 1) mod 65535 = r" "r < 65535" by (rule that [OF refl])
  then show ?thesis by (simp add: ones_sum_def)
qed

lemma ones_sum_small: "s < 65536 \<Longrightarrow> ones_sum s = s"
  by (simp add: ones_sum_def)

lemma ones_sum_mod: "ones_sum s mod 65535 = s mod 65535"
proof (cases "s = 0")
  case False
  then have "s = Suc (s - 1)" by simp
  then show ?thesis
    by (metis False Suc_eq_plus1 mod_add_left_eq ones_sum_def)
qed (simp add: ones_sum_def)

lemma ones_sum_eq_0: "ones_sum s = 0 \<longleftrightarrow> s = 0"
  by (simp add: ones_sum_def)

lemma residue_unique:
  "0 < x \<Longrightarrow> x \<le> 65535 \<Longrightarrow> 0 < y \<Longrightarrow> y \<le> 65535 \<Longrightarrow> x mod 65535 = y mod 65535 \<Longrightarrow> x = (y::nat)"
  by (cases "x = 65535"; cases "y = 65535") simp_all

lemma ones_sum_unique:
  assumes "x \<le> 65535" and "x mod 65535 = s mod 65535" and "x = 0 \<longleftrightarrow> s = 0"
  shows "ones_sum s = x"
proof (cases "s = 0")
  case False
  have "0 < x" using False assms(3) by simp
  moreover have "0 < ones_sum s" using False by (simp add: ones_sum_def)
  moreover have "ones_sum s mod 65535 = x mod 65535" by (simp only: assms(2) ones_sum_mod)
  ultimately show ?thesis
    using residue_unique [of "ones_sum s" x] ones_sum_le [of s] assms(1) by blast
qed (use assms ones_sum_eq_0 in simp)

lemma ones_sum_fold: "ones_sum (s mod 65536 + s div 65536) = ones_sum s"
proof (rule ones_sum_unique)
  show "ones_sum s \<le> 65535" by (rule ones_sum_le)
  have "s = 65536 * (s div 65536) + s mod 65536" by simp
  moreover have glue: "s = 65536 * q + r \<Longrightarrow> s = (r + q) + 65535 * q" for q r by simp
  ultimately have "s = (s mod 65536 + s div 65536) + 65535 * (s div 65536)" by blast
  then have "s mod 65535 = (s mod 65536 + s div 65536) mod 65535"
    by (metis mod_mult_self2)
  then show "ones_sum s mod 65535 = (s mod 65536 + s div 65536) mod 65535"
    by (simp add: ones_sum_mod)
  show "ones_sum s = 0 \<longleftrightarrow> s mod 65536 + s div 65536 = 0"
    by (auto simp: ones_sum_eq_0 div_eq_0_iff)
qed

lemma unat_csum_fold: "unat (csum_fold s) = ones_sum (unat s)"
proof (induction s rule: csum_fold.induct)
  case (1 s)
  show ?case
  proof (cases "drop_bit 16 s = 0")
    case True
    then show ?thesis
      by (subst csum_fold.simps) (simp add: drop_16_eq_0 ones_sum_small)
  next
    case False
    then show ?thesis
      using 1 by (subst csum_fold.simps) (simp add: unat_fold_step ones_sum_fold)
  qed
qed

lemma le_sum_bound: "le_sum bs \<le> 65535 * length bs"
proof (induction bs rule: le_sum.induct)
  case (1 a b bs)
  then show ?case using unat_byte_le [of a] unat_byte_le [of b] by simp
next
  case (2 a)
  then show ?case using unat_byte_le [of a] by simp
qed simp

section \<open>The code against the specification\<close>

lemma unat_odd_byte:
  "unat (ucast (ucast (push_bit 8 (ucast (a :: u8) :: u32)) :: u16) :: u64) = 256 * unat a"
proof -
  have b: "unat a * 256 < 65536"
    using unat_byte_le [of a] by simp
  have u: "unat (ucast a :: u32) = unat a"
    using unat_byte_le [of a] by (simp add: unsigned_ucast_eq take_bit_eq_mod)
  have p: "unat (push_bit 8 (ucast a :: u32)) = unat a * 256"
    unfolding unsigned_push_bit_eq u
    unfolding push_bit_eq_mult take_bit_eq_mod
    using order.strict_trans [OF b, of "2 ^ LENGTH(32)"] by simp
  have q: "unat (ucast (push_bit 8 (ucast a :: u32)) :: u16) = unat a * 256"
    by (subst unsigned_ucast_eq, subst p) (use b in \<open>simp add: take_bit_eq_mod\<close>)
  show ?thesis
    using unat_byte_le [of a] by (subst unsigned_ucast_eq, subst q) (simp add: take_bit_eq_mod)
qed

lemma unat_csum_loop:
  "unat s + 65535 * length bs < 2 ^ 64 \<Longrightarrow> unat (csum_loop bs s) = unat s + le_sum bs"
proof (induction bs s rule: csum_loop.induct)
  case (1 a b bs s)
  have w: "unat (ucast (of_le16 [a, b]) :: u64) = unat a + 256 * unat b"
    by (simp add: unsigned_ucast_eq unat_of_le16 take_bit_eq_mod)
       (use unat_byte_le [of a] unat_byte_le [of b] in simp)
  have ab: "unat a + 256 * unat b \<le> 65535"
    using unat_byte_le [of a] unat_byte_le [of b] by linarith
  with 1(2) have "unat s + (unat a + 256 * unat b) < 2 ^ LENGTH(64)"
    by simp
  then have "unat (s + ucast (of_le16 [a, b])) = unat s + (unat a + 256 * unat b)"
    by (simp only: unat_word_ariths w mod_less)
  with 1 ab show ?case by simp
next
  case (2 a s)
  have "256 * unat a \<le> 65535"
    using unat_byte_le [of a] by linarith
  with 2 have "unat s + 256 * unat a < 2 ^ LENGTH(64)" by simp
  then show ?case
    by (simp only: csum_loop.simps le_sum.simps unat_word_ariths unat_odd_byte mod_less)
qed simp

lemma unat_not_u16: "unat (NOT (y :: u16)) = 65535 - unat y"
proof -
  have "NOT y = -1 - y" by (simp add: not_eq_complement)
  moreover have "unat (-1 - y) = unat (-1 :: u16) - unat y" by (rule unat_sub) simp
  moreover have "unat (-1 :: u16) = 65535" by (simp add: unsigned_minus_1_eq_mask mask_eq_exp_minus_1)
  ultimately show ?thesis by presburger
qed

lemma ucast_not: "(ucast (NOT (s :: u64)) :: u16) = NOT (ucast s)"
  by (rule bit_eqI) (auto simp: bit_simps)

lemma unat_csum_bytes:
  assumes "length bs < 2 ^ 48"
  shows "unat (csum_bytes bs) = 65535 - ones_sum (le_sum bs)"
proof -
  have "unat (csum_loop bs 0) = le_sum bs"
    using unat_csum_loop [of 0 bs] assms by simp
  then have "unat (csum_fold (csum_loop bs 0)) = ones_sum (le_sum bs)"
    by (simp add: unat_csum_fold)
  then have "unat (ucast (csum_fold (csum_loop bs 0)) :: u16) = ones_sum (le_sum bs)"
    using ones_sum_le [of "le_sum bs"] by (simp add: unsigned_ucast_eq take_bit_eq_mod)
  then show ?thesis
    by (simp add: csum_bytes_def Let_def ucast_not unat_not_u16)
qed

lemma le_sum_append: "even (length xs) \<Longrightarrow> le_sum (xs @ ys) = le_sum xs + le_sum ys"
  by (induction xs rule: le_sum.induct) simp_all

lemma be_sum_append: "even (length xs) \<Longrightarrow> be_sum (xs @ ys) = be_sum xs + be_sum ys"
  by (induction xs rule: be_sum.induct) simp_all

lemma le_sum_le16: "le_sum (le16 x) = unat x"
proof -
  have "le_sum (le16 x) = unat (le16 x ! 0) + 256 * unat (le16 x ! 1)"
    by (simp add: le16_def)
  also have "\<dots> = unat (of_le16 (le16 x))"
    by (rule unat_of_le16 [symmetric])
  finally show ?thesis by simp
qed

lemma mod_glue: "x = y + 65535 * z \<Longrightarrow> x mod 65535 = y mod (65535::nat)"
  by simp

text \<open>Swapping the bytes of every word multiplies the sum by 256, modulo 65535.\<close>

lemma le_be_sum: "even (length bs) \<Longrightarrow> le_sum bs mod 65535 = 256 * be_sum bs mod 65535"
proof (induction bs rule: le_sum.induct)
  case (1 a b bs)
  have "256 * be_sum (a # b # bs) = (unat a + 256 * unat b + 256 * be_sum bs) + 65535 * unat a"
    by simp
  then have "256 * be_sum (a # b # bs) mod 65535 = (unat a + 256 * unat b + 256 * be_sum bs) mod 65535"
    by (rule mod_glue)
  moreover have "(unat a + 256 * unat b + 256 * be_sum bs) mod 65535
      = (unat a + 256 * unat b + le_sum bs) mod 65535"
    by (rule mod_add_cong) (use 1 in simp_all)
  ultimately show ?case by simp
qed simp_all

lemma sum_eq_0_iff: "even (length bs) \<Longrightarrow> le_sum bs = 0 \<longleftrightarrow> be_sum bs = 0"
  by (induction bs rule: le_sum.induct) auto

lemma unat_rfc1071: "unat (rfc1071_csum bs) = 65535 - ones_sum (be_sum bs)"
  unfolding rfc1071_csum_def unat_of_nat by simp

lemma bswap_mod: "(256 * (n mod 256) + n div 256) mod 65535 = 256 * n mod (65535::nat)"
proof -
  have glue: "n = 256 * q + r \<Longrightarrow> 256 * n = (256 * r + q) + 65535 * q" for q r by simp
  have "256 * n = (256 * (n mod 256) + n div 256) + 65535 * (n div 256)"
    by (rule glue) simp
  then show ?thesis by (rule mod_glue [symmetric])
qed

lemma bswap_eq_0: "256 * (n mod 256) + n div 256 = 0 \<longleftrightarrow> n = (0::nat)"
  by (auto simp: div_eq_0_iff)

lemma bswap_ones_sum:
  assumes "even (length bs)"
  shows "unat (bswap_16 (word_of_nat (ones_sum (be_sum bs)))) = ones_sum (le_sum bs)"
proof -
  let ?x = "ones_sum (be_sum bs)"
  have x: "unat (word_of_nat ?x :: u16) = ?x"
    unfolding unat_of_nat using ones_sum_le [of "be_sum bs"] by simp
  have "ones_sum (le_sum bs) = unat (bswap_16 (word_of_nat ?x))"
  proof (rule ones_sum_unique)
    show "unat (bswap_16 (word_of_nat ?x)) \<le> 65535"
      using unat_u16_less [of "bswap_16 (word_of_nat ?x)"] by linarith
    have "256 * ?x mod 65535 = 256 * be_sum bs mod 65535"
      by (metis mod_mult_right_eq ones_sum_mod)
    then show "unat (bswap_16 (word_of_nat ?x)) mod 65535 = le_sum bs mod 65535"
      by (simp only: unat_bswap_16 x bswap_mod le_be_sum [OF assms])
    have "unat (bswap_16 (word_of_nat ?x)) = 0 \<longleftrightarrow> ?x = 0"
      by (simp only: unat_bswap_16 x bswap_eq_0)
    then show "unat (bswap_16 (word_of_nat ?x)) = 0 \<longleftrightarrow> le_sum bs = 0"
      by (simp add: ones_sum_eq_0 sum_eq_0_iff [OF assms])
  qed
  then show ?thesis by simp
qed

text \<open>Byte by byte, the host's checksum is the one of RFC 1071.\<close>

lemma csum_rfc1071:
  assumes "even (length bs)" and "length bs < 2 ^ 48"
  shows "le16 (csum_bytes bs) = be16 (rfc1071_csum bs)"
proof -
  let ?x = "word_of_nat (ones_sum (be_sum bs)) :: u16"
  have x: "unat ?x = ones_sum (be_sum bs)"
    unfolding unat_of_nat using ones_sum_le [of "be_sum bs"] by simp
  have "unat (csum_bytes bs) = 65535 - unat (bswap_16 ?x)"
    using unat_csum_bytes [OF assms(2)] bswap_ones_sum [OF assms(1)] by simp
  then have "csum_bytes bs = NOT (bswap_16 ?x)"
    by (simp only: word_unat_eq_iff unat_not_u16)
  also have "\<dots> = bswap_16 (NOT ?x)"
    by (rule bit_eqI) (auto simp: bit_simps bit_bswap_16)
  also have "NOT ?x = rfc1071_csum bs"
    by (simp only: word_unat_eq_iff unat_not_u16 unat_rfc1071 x)
  finally show ?thesis
    by (simp add: le16_bswap_16 be16_def)
qed

text \<open>A checksum stored into its field makes the sum of the buffer come out as zero.\<close>

lemma csum_stored:
  assumes "even (length xs)" and "length xs + length ys + 2 < 2 ^ 48"
  shows "csum_bytes (xs @ le16 (csum_bytes (xs @ [0, 0] @ ys)) @ ys) = 0"
proof -
  let ?s = "le_sum xs + le_sum ys"
  let ?c = "csum_bytes (xs @ [0, 0] @ ys)"
  have c: "unat ?c = 65535 - ones_sum ?s"
    using assms by (subst unat_csum_bytes) (simp_all add: le_sum_append)
  have "le_sum (xs @ le16 ?c @ ys) = le_sum xs + (unat ?c + le_sum ys)"
    using le_sum_append [OF assms(1)] le_sum_append [of "le16 ?c" ys] by (simp add: le_sum_le16)
  then have total: "le_sum (xs @ le16 ?c @ ys) + ones_sum ?s = ?s + 65535"
    using c ones_sum_le [of ?s] by simp
  have "ones_sum (le_sum (xs @ le16 ?c @ ys)) = 65535"
  proof (rule ones_sum_unique)
    have "(le_sum (xs @ le16 ?c @ ys) + ones_sum ?s) mod 65535 = ones_sum ?s mod 65535"
      by (simp only: total ones_sum_mod mod_add_self2)
    then show "65535 mod 65535 = le_sum (xs @ le16 ?c @ ys) mod 65535"
      by (metis add_diff_cancel_right' add_le_same_cancel2 le_add2 mod_0 mod_eq_dvd_iff_nat
          mod_self dvd_imp_mod_0)
    show "(65535::nat) = 0 \<longleftrightarrow> le_sum (xs @ le16 ?c @ ys) = 0"
      using total ones_sum_le [of ?s] by (auto simp: ones_sum_def split: if_splits)
  qed simp
  then have "unat (csum_bytes (xs @ le16 ?c @ ys)) = 0"
    using assms by (subst unat_csum_bytes) simp_all
  then show ?thesis by (simp add: unat_0_iff)
qed

text \<open>The check a receiver makes, in network byte order.\<close>

lemma rfc1071_eq_0:
  "even (length bs) \<Longrightarrow> length bs < 2 ^ 48 \<Longrightarrow> rfc1071_csum bs = 0 \<longleftrightarrow> csum_bytes bs = 0"
proof -
  assume "even (length bs)" "length bs < 2 ^ 48"
  from csum_rfc1071 [OF this] have "le16 (csum_bytes bs) = le16 (bswap_16 (rfc1071_csum bs))"
    by (simp add: be16_def le16_bswap_16)
  then have "csum_bytes bs = bswap_16 (rfc1071_csum bs)"
    by (simp only: c16.enc_inject)
  moreover have "bswap_16 0 = 0" by (simp add: bswap_16_def)
  ultimately show ?thesis by (metis bswap_16_bswap_16)
qed

section \<open>Properties\<close>

text \<open>C18: \<open>csum\<close> computes the Internet checksum: on a buffer of even length (below \<open>2 ^ 48\<close>
  bytes, so that the 64 bit sum cannot overflow) the bytes it gives on the little-endian host
  are the bytes of the RFC 1071 checksum computed in network byte order.\<close>

theorem csum_is_rfc1071:
  assumes "even (length bs)" and "length bs < 2 ^ 48"
  shows "le16 (csum_bytes bs) = be16 (rfc1071_csum bs)"
  using assms by (rule csum_rfc1071)

theorem csum_is_rfc1071_witness:
  "le16 (csum_bytes [0x00, 0x01, 0xf2, 0x03, 0xf4, 0xf5, 0xf6, 0xf7]) = [0x22, 0x0d]"
proof -
  have "be16 (rfc1071_csum [0x00, 0x01, 0xf2, 0x03, 0xf4, 0xf5, 0xf6, 0xf7]) = [0x22, 0x0d]"
    by (simp add: rfc1071_csum_def ones_sum_def be16_def le16_def)
  then show ?thesis
    using csum_is_rfc1071 [of "[0x00, 0x01, 0xf2, 0x03, 0xf4, 0xf5, 0xf6, 0xf7]"] by simp
qed

text \<open>C19: a receiver's check succeeds: when the checksum of a buffer whose 16 bit checksum field is
  zero is stored into that field (at an even offset), the checksum of the result is zero.\<close>

theorem csum_verifies:
  assumes "even (length xs)" and "length xs + length ys + 2 < 2 ^ 48"
  shows "csum_bytes (xs @ le16 (csum_bytes (xs @ [0, 0] @ ys)) @ ys) = 0"
  using assms by (rule csum_stored)

theorem csum_verifies_witness:
  "csum_bytes ([0x45, 0x00] @ le16 (csum_bytes ([0x45, 0x00] @ [0, 0] @ [0x11])) @ [0x11]) = 0"
  by (rule csum_verifies) simp_all

text \<open>C40: the odd last byte of a buffer is counted as the high half of a host word, as if a zero
  byte came before it and not after it; it gives the checksum of the zero-padded buffer that the
  RFC asks for only when the byte itself is zero.\<close>

theorem csum_odd_padding:
  assumes "even (length bs)" and "length bs + 2 < 2 ^ 48"
  shows "csum_bytes (bs @ [b]) = csum_bytes (bs @ [0, b]) \<and>
    (csum_bytes (bs @ [b]) = csum_bytes (bs @ [b, 0]) \<longleftrightarrow> b = 0)"
proof -
  let ?s = "le_sum bs"
  have u: "unat (csum_bytes (bs @ [b])) = 65535 - ones_sum (?s + 256 * unat b)"
    "unat (csum_bytes (bs @ [0, b])) = 65535 - ones_sum (?s + 256 * unat b)"
    "unat (csum_bytes (bs @ [b, 0])) = 65535 - ones_sum (?s + unat b)"
    using assms by (subst unat_csum_bytes; simp add: le_sum_append)+
  have "unat b = 0" if "ones_sum (?s + 256 * unat b) = ones_sum (?s + unat b)"
  proof -
    have "(?s + 256 * unat b) mod 65535 = (?s + unat b) mod 65535"
      using that by (metis ones_sum_mod)
    then have "65535 dvd (?s + 256 * unat b) - (?s + unat b)"
      by (simp only: mod_eq_dvd_iff_nat)
    then have "65535 dvd 255 * unat b" by (simp add: left_diff_distrib')
    then obtain k where "255 * unat b = 65535 * k" by (rule dvdE)
    then have "unat b = 257 * k" by simp
    with unat_byte_le [of b] show ?thesis by (cases k) simp_all
  qed
  then have "csum_bytes (bs @ [b]) = csum_bytes (bs @ [b, 0]) \<longleftrightarrow> b = 0"
    using u ones_sum_le [of "?s + 256 * unat b"] ones_sum_le [of "?s + unat b"]
    by (auto simp: word_unat_eq_iff)
  then show ?thesis using u by (simp add: word_unat_eq_iff)
qed

theorem csum_odd_padding_witness:
  "csum_bytes [1, 2, 3] = csum_bytes [1, 2, 0, 3] \<and> csum_bytes [1, 2, 3] \<noteq> csum_bytes [1, 2, 3, 0]"
  using csum_odd_padding [of "[1, 2]" 3] by auto

text \<open>\<open>craft_ipv4_psd_hdr\<close> aborts when memory runs out and otherwise returns a new block with the
  addresses, a zero byte, the protocol and the length cut to 16 bits. Unlike every header field
  of the program the length is stored in host order.\<close>

theorem craft_ipv4_psd_hdr_result:
  "craft_ipv4_psd_hdr s d pt n w =
    (if alloc_ok w (brk w)
     then Returns (Ptr (brk w) 0) (w\<lparr>heap := (heap w)(brk w \<mapsto>
         Bytes (le32 s @ le32 d @ [0, pt] @ le16 (u16_of_size n))), brk := Suc (brk w)\<rparr>)
     else Faults AssertFailed)"
proof -
  have "u16_of_size (n mod 65536) = u16_of_size n"
    by (simp add: word_unat_eq_iff)
  then show ?thesis
    by (simp add: craft_ipv4_psd_hdr_def calloc_def alloc_run store_bytes_block splice_all
        ipv4_psd_hdr_bytes_def)
qed

end
