(* ===== verification/Bitmap.thy ===== *)
theory Bitmap
  imports Memory
begin

text \<open>
  \<open>bitmap.h\<close>: a set of numbers as the bits of a byte array. The interface \<open>id_set\<close> says what
  the allocator of IP identifiers relies on; the bitmap operations on byte arrays are its
  interpretation, and the operations on memory are shown to be those.
\<close>

section \<open>The operations\<close>

definition bitmap_idx :: "nat \<Rightarrow> nat" where
  "bitmap_idx entry = entry div 8"

definition bitmap_bit :: "nat \<Rightarrow> u8" where
  "bitmap_bit entry = push_bit (entry mod 8) 1"

definition bitmap_get :: "ptr \<Rightarrow> nat \<Rightarrow> bool cprog" where
  "bitmap_get bitmap entry = bindp (load_bytes (POINTER_ADD bitmap (bitmap_idx entry)) 1) (\<lambda>bs.
     retp (hd bs AND bitmap_bit entry \<noteq> 0))"

definition bitmap_set :: "ptr \<Rightarrow> nat \<Rightarrow> unit cprog" where
  "bitmap_set bitmap entry = bindp (load_bytes (POINTER_ADD bitmap (bitmap_idx entry)) 1) (\<lambda>bs.
     store_bytes (POINTER_ADD bitmap (bitmap_idx entry)) [hd bs OR bitmap_bit entry])"

definition bitmap_clear :: "ptr \<Rightarrow> nat \<Rightarrow> unit cprog" where
  "bitmap_clear bitmap entry = bindp (load_bytes (POINTER_ADD bitmap (bitmap_idx entry)) 1) (\<lambda>bs.
     store_bytes (POINTER_ADD bitmap (bitmap_idx entry)) [hd bs AND NOT (bitmap_bit entry)])"

section \<open>The interface\<close>

locale id_set =
  fixes get :: "'m \<Rightarrow> nat \<Rightarrow> bool"
    and ins :: "'m \<Rightarrow> nat \<Rightarrow> 'm"
    and del :: "'m \<Rightarrow> nat \<Rightarrow> 'm"
    and elems :: "'m \<Rightarrow> nat set"
    and size_of :: "'m \<Rightarrow> nat"
  assumes get: "i < size_of m \<Longrightarrow> get m i \<longleftrightarrow> i \<in> elems m"
    and ins: "i < size_of m \<Longrightarrow> elems (ins m i) = insert i (elems m)"
    and del: "i < size_of m \<Longrightarrow> elems (del m i) = elems m - {i}"
    and size_ins: "size_of (ins m i) = size_of m"
    and size_del: "size_of (del m i) = size_of m"
    and elems_bound: "elems m \<subseteq> {..<size_of m}"
begin

lemma get_ins:
  "i < size_of m \<Longrightarrow> j < size_of m \<Longrightarrow> get (ins m i) j \<longleftrightarrow> j = i \<or> get m j"
  by (auto simp: get ins size_ins)

lemma get_del:
  "i < size_of m \<Longrightarrow> j < size_of m \<Longrightarrow> get (del m i) j \<longleftrightarrow> j \<noteq> i \<and> get m j"
  by (auto simp: get del size_del)

text \<open>Taking an identifier that was free and giving it back restores the set.\<close>

lemma del_ins: "i < size_of m \<Longrightarrow> \<not> get m i \<Longrightarrow> elems (del (ins m i) i) = elems m"
  by (auto simp: get ins del size_ins)

lemma finite_elems: "finite (elems m)"
  using elems_bound finite_subset by blast

text \<open>Every free identifier that is taken makes the set larger by one.\<close>

lemma card_ins: "i < size_of m \<Longrightarrow> \<not> get m i \<Longrightarrow> card (elems (ins m i)) = Suc (card (elems m))"
  by (simp add: get ins finite_elems)

lemma card_elems: "card (elems m) \<le> size_of m"
  using card_mono [OF _ elems_bound [of m]] by simp

end

section \<open>Byte arrays as sets\<close>

definition bits_get :: "u8 list \<Rightarrow> nat \<Rightarrow> bool" where
  "bits_get bs i = (bs ! bitmap_idx i AND bitmap_bit i \<noteq> 0)"

definition bits_set :: "u8 list \<Rightarrow> nat \<Rightarrow> u8 list" where
  "bits_set bs i = bs[bitmap_idx i := bs ! bitmap_idx i OR bitmap_bit i]"

definition bits_clear :: "u8 list \<Rightarrow> nat \<Rightarrow> u8 list" where
  "bits_clear bs i = bs[bitmap_idx i := bs ! bitmap_idx i AND NOT (bitmap_bit i)]"

definition bits_elems :: "u8 list \<Rightarrow> nat set" where
  "bits_elems bs = {i. i < 8 * length bs \<and> bits_get bs i}"

lemma bits_get_bit: "bits_get bs i \<longleftrightarrow> bit (bs ! (i div 8)) (i mod 8)"
  by (simp add: bits_get_def bitmap_idx_def bitmap_bit_def bit_iff_and_push_bit_not_eq_0)

lemma bit_bitmap_bit: "bit (bitmap_bit i) n \<longleftrightarrow> n = i mod 8"
  by (auto simp: bitmap_bit_def bit_simps)

lemma same_bit: "(i::nat) div 8 = j div 8 \<Longrightarrow> i mod 8 = j mod 8 \<Longrightarrow> i = j"
  by (metis div_mult_mod_eq)

lemma bits_get_set:
  "i < 8 * length bs \<Longrightarrow> j < 8 * length bs \<Longrightarrow> bits_get (bits_set bs i) j \<longleftrightarrow> j = i \<or> bits_get bs j"
  by (auto simp: bits_get_bit bits_set_def bitmap_idx_def nth_list_update bit_simps bit_bitmap_bit
      dest: same_bit)

lemma bits_get_clear:
  "i < 8 * length bs \<Longrightarrow> j < 8 * length bs \<Longrightarrow> bits_get (bits_clear bs i) j \<longleftrightarrow> j \<noteq> i \<and> bits_get bs j"
  by (auto simp: bits_get_bit bits_clear_def bitmap_idx_def nth_list_update bit_simps bit_bitmap_bit
      dest: same_bit)

lemma length_bits [simp]: "length (bits_set bs i) = length bs" "length (bits_clear bs i) = length bs"
  by (simp_all add: bits_set_def bits_clear_def)

interpretation bm: id_set bits_get bits_set bits_clear bits_elems "\<lambda>bs. 8 * length bs"
  by unfold_locales (auto simp: bits_elems_def bits_get_set bits_get_clear)

section \<open>The operations on memory\<close>

lemma splice_one: "i < length bs \<Longrightarrow> splice i [x] bs = bs[i := x]"
  by (simp add: splice_def upd_conv_take_nth_drop)

lemma hd_take_drop:
  "i < length bs \<Longrightarrow> hd (take (Suc 0) (drop i bs)) = bs ! i"
  "i < length bs \<Longrightarrow> hd (drop i bs) = bs ! i"
  by (simp_all add: hd_drop_conv_nth take_Suc)

lemma bitmap_run [exec]:
  assumes "heap w b = Some (Bytes bs)" and "i < 8 * length bs"
  shows "bitmap_get (Ptr b 0) i w = Returns (bits_get bs i) w"
    and "bitmap_set (Ptr b 0) i w = Returns () (w\<lparr>heap := (heap w)(b \<mapsto> Bytes (bits_set bs i))\<rparr>)"
    and "bitmap_clear (Ptr b 0) i w = Returns () (w\<lparr>heap := (heap w)(b \<mapsto> Bytes (bits_clear bs i))\<rparr>)"
proof -
  have i: "bitmap_idx i < length bs" "Suc (bitmap_idx i) \<le> length bs"
    using assms(2) by (simp_all add: bitmap_idx_def div_less_iff_less_mult Suc_le_eq)
  with assms(1) have l: "load_bytes (Ptr b (bitmap_idx i)) (Suc 0) w
      = Returns (take (Suc 0) (drop (bitmap_idx i) bs)) w"
    by (simp add: load_bytes_block)
  with i show "bitmap_get (Ptr b 0) i w = Returns (bits_get bs i) w"
    by (simp add: bitmap_get_def bits_get_def hd_take_drop)
  from i l assms(1) show "bitmap_set (Ptr b 0) i w
      = Returns () (w\<lparr>heap := (heap w)(b \<mapsto> Bytes (bits_set bs i))\<rparr>)"
    by (simp add: bitmap_set_def bits_set_def hd_take_drop store_bytes_block splice_one)
  from i l assms(1) show "bitmap_clear (Ptr b 0) i w
      = Returns () (w\<lparr>heap := (heap w)(b \<mapsto> Bytes (bits_clear bs i))\<rparr>)"
    by (simp add: bitmap_clear_def bits_clear_def hd_take_drop store_bytes_block splice_one)
qed

section \<open>Properties\<close>

text \<open>C20: the bitmap in memory implements a set of numbers: in a block of \<open>n\<close> bytes and for an entry
  below \<open>8 * n\<close>, \<open>bitmap_get\<close> tests membership, \<open>bitmap_set\<close> inserts and \<open>bitmap_clear\<close> removes
  the entry, and nothing else in memory changes.\<close>

theorem bitmap_implements_set:
  assumes "heap w b = Some (Bytes bs)" and "i < 8 * length bs"
  shows "bitmap_get (Ptr b 0) i w = Returns (i \<in> bits_elems bs) w
    \<and> (\<exists>cs. bitmap_set (Ptr b 0) i w = Returns () (w\<lparr>heap := (heap w)(b \<mapsto> Bytes cs)\<rparr>)
         \<and> length cs = length bs \<and> bits_elems cs = insert i (bits_elems bs))
    \<and> (\<exists>cs. bitmap_clear (Ptr b 0) i w = Returns () (w\<lparr>heap := (heap w)(b \<mapsto> Bytes cs)\<rparr>)
         \<and> length cs = length bs \<and> bits_elems cs = bits_elems bs - {i})"
  using bitmap_run [OF assms] bm.get [OF assms(2)] bm.ins [OF assms(2)] bm.del [OF assms(2)]
  by auto

theorem bitmap_implements_set_witness:
  "bitmap_get (Ptr 0 0) 9 (demo_with [Bytes [0, 2]]) = Returns True (demo_with [Bytes [0, 2]])
    \<and> 9 \<in> bits_elems [0, 2]"
proof -
  have "9 \<in> bits_elems [0, 2]"
    by (simp add: bits_elems_def bits_get_def bitmap_idx_def bitmap_bit_def)
  then show ?thesis
    using bitmap_implements_set [of "demo_with [Bytes [0, 2]]" 0 "[0, 2]" 9] by simp
qed

end
