(* ===== verification/Ip_Id.thy ===== *)
theory Ip_Id
  imports Bitmap
begin

text \<open>
  The IP identification values of \<open>ip.c\<close>: \<open>ip_initialise\<close>, \<open>ip_finalise\<close>,
  \<open>allocate_ipv4_id\<close> and \<open>free_ipv4_id\<close> over the bitmap of used values. The search for a free
  value is a loop that may not end; it is shown exactly when it does and what it returns.
\<close>

section \<open>The operations\<close>

definition max_blocks :: int where
  "max_blocks = 1024"

text \<open>
  \<open>ip_initialise\<close>: the random generator is seeded with the address of the function; the
  \<open>memset\<close> comes before the \<open>assert\<close> on the pointer it writes through.
\<close>

definition ip_initialise :: "unit cprog" where
  "ip_initialise =
     bindp (getp code_addr) (\<lambda>addr.
     bindp (srand_rand (word_of_nat (unat addr mod 0xffff))) (\<lambda>r.
     bindp (modifyp (\<lambda>w. w\<lparr>last_block := word_of_int (r mod 0x1000)\<rparr>)) (\<lambda>_.
     bindp (calloc (65536 div 8)) (\<lambda>p.
     bindp (modifyp (\<lambda>w. w\<lparr>used_ip_id_values := p\<rparr>)) (\<lambda>_.
     bindp (memset p 0 (65536 div 8)) (\<lambda>_.
     assertp (p \<noteq> Null)))))))"

definition ip_finalise :: "unit cprog" where
  "ip_finalise = bindp (getp used_ip_id_values) free"

text \<open>
  The \<open>do\<close> loop of \<open>allocate_ipv4_id\<close>: a used entry moves on by 3 modulo 65535; a free one is
  marked, and ends the loop unless it is entry 0, which leaves \<open>current_id\<close> zero.
\<close>

partial_function (option) id_loop :: "ptr \<Rightarrow> u16 \<Rightarrow> u16 cprog" where
  "id_loop p entry w =
     bindp (bitmap_get p (unat entry)) (\<lambda>used w1.
       if \<not> used then
         bindp (bitmap_set p (unat entry)) (\<lambda>_ w2.
           if entry \<noteq> 0 then retp entry w2 else id_loop p entry w2) w1
       else id_loop p (word_of_int ((uint entry + 3) mod 65535)) w1) w"

text \<open>The choice of the identifier, up to the end of the loop.\<close>

definition select_ipv4_id :: "u16 cprog" where
  "select_ipv4_id =
     bindp (getp last_block) (\<lambda>lb.
     bindp (srand_rand (ucast lb)) (\<lambda>r.
     if uint lb + r \<ge> 2 ^ 31 then faultp SignedOverflow
     else
       let current_block = word_of_int ((uint lb + r) mod max_blocks) :: u16;
           entry = word_of_int (uint current_block * 8) :: u16
       in bindp (modifyp (\<lambda>w. w\<lparr>last_block := current_block\<rparr>)) (\<lambda>_.
          bindp (getp used_ip_id_values) (\<lambda>p. id_loop p entry))))"

text \<open>The identification field is at byte 4 of the header; it is stored in host order.\<close>

definition allocate_ipv4_id :: "ptr \<Rightarrow> bool cprog" where
  "allocate_ipv4_id iph =
     bindp select_ipv4_id (\<lambda>current_id.
     bindp (store_bytes (POINTER_ADD iph 4) (le16 current_id)) (\<lambda>_.
     retp True))"

definition free_ipv4_id :: "u16 \<Rightarrow> unit cprog" where
  "free_ipv4_id i = bindp (getp used_ip_id_values) (\<lambda>p. bitmap_clear p (unat i))"

section \<open>The state of the allocator\<close>

text \<open>The global bitmap pointer is to a block with a bit for every 16 bit value.\<close>

definition id_map :: "world \<Rightarrow> nat \<Rightarrow> u8 list \<Rightarrow> bool" where
  "id_map w b bs \<longleftrightarrow> used_ip_id_values w = Ptr b 0 \<and> heap w b = Some (Bytes bs) \<and> length bs = 8192"

text \<open>The entries the search looks at from entry \<open>e\<close> on, and the ones it can end with.\<close>

definition probe :: "nat \<Rightarrow> nat \<Rightarrow> nat" where
  "probe e k = (e + 3 * k) mod 65535"

definition free_at :: "u8 list \<Rightarrow> nat \<Rightarrow> bool" where
  "free_at bs i \<longleftrightarrow> i \<noteq> 0 \<and> i \<notin> bits_elems bs"

text \<open>The value a search from entry \<open>e\<close> ends with: the first free one.\<close>

definition chosen :: "u16 \<Rightarrow> u8 list \<Rightarrow> u16 \<Rightarrow> bool" where
  "chosen e bs i \<longleftrightarrow> (\<exists>k. unat i = probe (unat e) k \<and> free_at bs (unat i)
     \<and> (\<forall>j<k. \<not> free_at bs (probe (unat e) j)))"

lemma probe_0: "e < 65535 \<Longrightarrow> probe e 0 = e"
  by (simp add: probe_def)

lemma probe_Suc: "probe (probe e 1) k = probe e (Suc k)"
  by (simp add: probe_def mod_add_left_eq) (simp add: algebra_simps)

lemma probe_less [simp]: "probe e k < 65535"
  by (simp add: probe_def)

text \<open>65535 is a multiple of 3: the search stays in the residue class of its start, and covers it.\<close>

lemma probe_mod_3: "probe e k mod 3 = e mod 3"
proof -
  have "(3::nat) dvd 65535" by simp
  then have "probe e k mod 3 = (e + 3 * k) mod 3"
    unfolding probe_def by (rule mod_mod_cancel)
  then show ?thesis by simp
qed

lemma probe_covers:
  assumes "e < 65535" and "i < 65535" and "i mod 3 = e mod 3"
  shows "\<exists>k. probe e k = i"
proof (cases "e \<le> i")
  case True
  then have "3 dvd i - e" using assms(3) by (simp add: mod_eq_dvd_iff_nat)
  then obtain k where "i - e = 3 * k" by (rule dvdE)
  with True have "e + 3 * k = i" by simp
  then have "probe e k = i" using assms by (simp add: probe_def)
  then show ?thesis ..
next
  case False
  have "65535 = 3 * (21845 :: nat)" by simp
  then have "(i + 65535) mod 3 = e mod 3" using assms(3) by (simp only: mod_mult_self2)
  then have "3 dvd i + 65535 - e" using assms(1) by (simp only: mod_eq_dvd_iff_nat)
  then obtain k where "i + 65535 - e = 3 * k" by (rule dvdE)
  then have "e + 3 * k = i + 65535" using assms(1) by simp
  then have "probe e k = i" using assms by (simp add: probe_def)
  then show ?thesis ..
qed

lemma next_entry:
  "unat (word_of_int ((uint (entry :: u16) + 3) mod 65535) :: u16) = probe (unat entry) 1"
proof -
  have "uint (word_of_int ((uint entry + 3) mod 65535) :: u16) = (uint entry + 3) mod 65535"
    by (simp add: uint_word_of_int_eq take_bit_int_eq_self_iff)
  moreover have "int (probe (unat entry) 1) = (uint entry + 3) mod 65535"
    by (simp add: probe_def zmod_int)
  ultimately show ?thesis
    by (metis nat_int unat_eq_nat_uint)
qed

section \<open>The search\<close>

text \<open>One round of the search.\<close>

lemma id_loop_used:
  assumes "heap w b = Some (Bytes bs)" and "length bs = 8192" and "unat entry \<in> bits_elems bs"
  shows "id_loop (Ptr b 0) entry w
    = id_loop (Ptr b 0) (word_of_int ((uint entry + 3) mod 65535)) w"
proof -
  have "unat entry < 8 * length bs" using assms(2) unat_u16_less [of entry] by simp
  with assms show ?thesis
    by (subst id_loop.simps) (simp add: bitmap_run bm.get)
qed

lemma id_loop_free:
  assumes "heap w b = Some (Bytes bs)" and "length bs = 8192" and "unat entry \<notin> bits_elems bs"
  shows "id_loop (Ptr b 0) entry w =
    (let w' = w\<lparr>heap := (heap w)(b \<mapsto> Bytes (bits_set bs (unat entry)))\<rparr> in
     if entry \<noteq> 0 then Returns entry w' else id_loop (Ptr b 0) 0 w')"
proof -
  have "unat entry < 8 * length bs" using assms(2) unat_u16_less [of entry] by simp
  with assms show ?thesis
    by (subst id_loop.simps) (simp add: bitmap_run bm.get Let_def)
qed

lemma mark_0:
  assumes "length bs = 8192"
  shows "length (bits_set bs 0) = 8192" and "free_at (bits_set bs 0) i \<longleftrightarrow> free_at bs i"
    and "bits_set (bits_set bs 0) 0 = bits_set bs 0"
proof -
  have "bits_elems (bits_set bs 0) = insert 0 (bits_elems bs)" using assms by (intro bm.ins) simp
  then show "free_at (bits_set bs 0) i \<longleftrightarrow> free_at bs i" by (auto simp: free_at_def)
qed (use assms in \<open>simp_all add: bits_set_def bitmap_idx_def or.assoc\<close>)

text \<open>An entry that is not free is passed; entry 0 may get marked.\<close>

lemma id_loop_step:
  assumes "heap w b = Some (Bytes bs)" and "length bs = 8192" and "\<not> free_at bs (unat entry)"
  shows "\<exists>cs. id_loop (Ptr b 0) entry w
      = id_loop (Ptr b 0) (word_of_int ((uint entry + 3) mod 65535)) (w\<lparr>heap := (heap w)(b \<mapsto> Bytes cs)\<rparr>)
    \<and> (cs = bs \<or> cs = bits_set bs 0)"
proof (cases "unat entry \<in> bits_elems bs")
  case True
  with assms(1,2) have "id_loop (Ptr b 0) entry w
      = id_loop (Ptr b 0) (word_of_int ((uint entry + 3) mod 65535)) (w\<lparr>heap := (heap w)(b \<mapsto> Bytes bs)\<rparr>)"
    by (simp add: id_loop_used fun_upd_idem)
  then show ?thesis by blast
next
  case False
  with assms(3) have e: "entry = 0" by (auto simp: free_at_def unat_0_iff)
  let ?w = "w\<lparr>heap := (heap w)(b \<mapsto> Bytes (bits_set bs 0))\<rparr>"
  have "0 \<in> bits_elems (bits_set bs 0)" using assms(2) bm.ins [of 0 bs] by simp
  then have "id_loop (Ptr b 0) 0 ?w = id_loop (Ptr b 0) (word_of_int ((uint (0 :: u16) + 3) mod 65535)) ?w"
    using assms(2) mark_0(1) by (intro id_loop_used) simp_all
  with assms(1,2) False have "id_loop (Ptr b 0) entry w
      = id_loop (Ptr b 0) (word_of_int ((uint entry + 3) mod 65535)) ?w"
    by (simp add: id_loop_free e)
  then show ?thesis by blast
qed

text \<open>
  The search ends with the first free entry; on the way it may have marked entry 0.
\<close>

lemma id_loop_finds:
  assumes "heap w b = Some (Bytes bs)" and "length bs = 8192" and "unat entry < 65535"
    and "free_at bs (probe (unat entry) k)"
    and "\<forall>j<k. \<not> free_at bs (probe (unat entry) j)"
  shows "\<exists>cs. id_loop (Ptr b 0) entry w
      = Returns (word_of_nat (probe (unat entry) k))
          (w\<lparr>heap := (heap w)(b \<mapsto> Bytes (bits_set cs (probe (unat entry) k)))\<rparr>)
    \<and> (cs = bs \<or> cs = bits_set bs 0)"
  using assms
proof (induction k arbitrary: entry bs w)
  case 0
  then have "unat entry \<notin> bits_elems bs" "entry \<noteq> 0"
    by (auto simp: free_at_def probe_0)
  with 0 have "id_loop (Ptr b 0) entry w
      = Returns (word_of_nat (probe (unat entry) 0))
          (w\<lparr>heap := (heap w)(b \<mapsto> Bytes (bits_set bs (probe (unat entry) 0)))\<rparr>)"
    by (simp add: id_loop_free probe_0)
  then show ?case by blast
next
  case (Suc k)
  let ?next = "word_of_int ((uint entry + 3) mod 65535) :: u16"
  have nxt: "probe (unat ?next) j = probe (unat entry) (Suc j)" for j
    by (simp only: next_entry probe_Suc)
  have next_less: "unat ?next < 65535"
    by (simp only: next_entry probe_less)
  have "\<not> free_at bs (unat entry)"
    using Suc.prems(3,5) probe_0 by fastforce
  from id_loop_step [OF Suc.prems(1,2) this] obtain cs where
    step: "id_loop (Ptr b 0) entry w = id_loop (Ptr b 0) ?next (w\<lparr>heap := (heap w)(b \<mapsto> Bytes cs)\<rparr>)"
      (is "_ = id_loop _ _ ?w") and cs: "cs = bs \<or> cs = bits_set bs 0"
    by blast
  have len: "length cs = 8192" using cs Suc.prems(2) mark_0(1) by auto
  have free: "free_at cs i \<longleftrightarrow> free_at bs i" for i using cs mark_0(2) [OF Suc.prems(2)] by auto
  have heap: "heap ?w b = Some (Bytes cs)" by simp
  have fr: "free_at cs (probe (unat ?next) k)" "\<forall>j<k. \<not> free_at cs (probe (unat ?next) j)"
    using Suc.prems(4,5) by (auto simp: free nxt)
  from Suc.IH [OF heap len next_less fr, unfolded nxt] obtain ds where ds:
    "id_loop (Ptr b 0) ?next ?w = Returns (word_of_nat (probe (unat entry) (Suc k)))
       (?w\<lparr>heap := (heap ?w)(b \<mapsto> Bytes (bits_set ds (probe (unat entry) (Suc k))))\<rparr>)"
    "ds = cs \<or> ds = bits_set cs 0" by blast
  have "ds = bs \<or> ds = bits_set bs 0" using ds(2) cs mark_0(3) [OF Suc.prems(2)] by auto
  moreover have "(heap ?w)(b \<mapsto> x) = (heap w)(b \<mapsto> x)" for x by (simp add: fun_eq_iff)
  then have "id_loop (Ptr b 0) entry w = Returns (word_of_nat (probe (unat entry) (Suc k)))
      (w\<lparr>heap := (heap w)(b \<mapsto> Bytes (bits_set ds (probe (unat entry) (Suc k))))\<rparr>)"
    using step ds(1) by simp
  ultimately show ?case by blast
qed

text \<open>A search that returns has found a free entry.\<close>

lemma id_loop_returned:
  assumes "id_loop p entry w = Some r"
  shows "p = Ptr b 0 \<Longrightarrow> heap w b = Some (Bytes bs) \<Longrightarrow> length bs = 8192 \<Longrightarrow> unat entry < 65535 \<Longrightarrow>
    \<exists>k. free_at bs (probe (unat entry) k)"
proof (induction arbitrary: bs rule: id_loop.raw_induct [OF _ assms])
  case (1 f p entry w r)
  let ?next = "word_of_int ((uint entry + 3) mod 65535) :: u16"
  have bound: "unat entry < 8 * length bs" using 1(5) unat_u16_less [of entry] by simp
  have step: "\<exists>k. free_at bs (probe (unat entry) k)"
    if "free_at bs (probe (unat e) k)" "e = ?next" for e k
  proof -
    from that have "free_at bs (probe (unat entry) (Suc k))"
      by (simp only: next_entry probe_Suc)
    then show ?thesis by blast
  qed
  show ?case
  proof (cases "unat entry \<in> bits_elems bs")
    case True
    with 1(2,3,4) bound have "f p ?next w = Some r"
      by (simp add: bitmap_run bm.get)
    then have "\<exists>k. free_at bs (probe (unat ?next) k)"
      by (rule 1(1) [OF _ 1(3,4,5)]) (simp only: next_entry probe_less)
    with step show ?thesis by blast
  next
    case False
    show ?thesis
    proof (cases "entry = 0")
      case True
      let ?cs = "bits_set bs 0"
      let ?w = "w\<lparr>heap := (heap w)(b \<mapsto> Bytes ?cs)\<rparr>"
      have "f p 0 ?w = Some r"
        using 1(2,3,4) bound False True by (simp add: bitmap_run bm.get)
      then have "\<exists>k. free_at ?cs (probe (unat (0 :: u16)) k)"
        by (rule 1(1) [OF _ 1(3)]) (use 1(5) in simp_all)
      moreover have "bits_elems ?cs = insert 0 (bits_elems bs)"
        using 1(5) by (intro bm.ins) simp
      ultimately show ?thesis using True by (auto simp: free_at_def)
    next
      case False': False
      with False have "free_at bs (unat entry)" by (simp add: free_at_def unat_0_iff)
      then show ?thesis using 1(6) probe_0 by metis
    qed
  qed
qed

lemma id_loop_no_fault:
  assumes "heap w b = Some (Bytes bs)" and "length bs = 8192" and "unat entry < 65535"
    and "\<exists>k. free_at bs (probe (unat entry) k)"
  shows "\<exists>k cs. id_loop (Ptr b 0) entry w
        = Returns (word_of_nat (probe (unat entry) k))
            (w\<lparr>heap := (heap w)(b \<mapsto> Bytes (bits_set cs (probe (unat entry) k)))\<rparr>)
      \<and> (cs = bs \<or> cs = bits_set bs 0) \<and> free_at bs (probe (unat entry) k)
      \<and> (\<forall>j<k. \<not> free_at bs (probe (unat entry) j))"
proof -
  let ?k = "LEAST k. free_at bs (probe (unat entry) k)"
  have "free_at bs (probe (unat entry) ?k)" using assms(4) by (rule LeastI_ex)
  moreover have "\<forall>j<?k. \<not> free_at bs (probe (unat entry) j)"
    using not_less_Least by blast
  ultimately show ?thesis using id_loop_finds [OF assms(1-3)] by blast
qed

section \<open>Choosing an identifier\<close>

text \<open>The sum of the last block and the random number, and the block and entry it leads to.\<close>

definition block_sum :: "world \<Rightarrow> int" where
  "block_sum w = uint (last_block w) + rand_of w (ucast (last_block w)) mod 2 ^ 31"

definition start_block :: "world \<Rightarrow> u16" where
  "start_block w = word_of_int (block_sum w mod max_blocks)"

definition start_entry :: "world \<Rightarrow> u16" where
  "start_entry w = word_of_int (uint (start_block w) * 8)"

lemma block_sum_nonneg: "0 \<le> block_sum w"
  by (simp add: block_sum_def)

lemma uint_start_block: "uint (start_block w) = block_sum w mod 1024"
proof -
  have "block_sum w mod 1024 < 2 ^ LENGTH(16)"
    by (rule order.strict_trans [OF pos_mod_bound]) simp_all
  then show ?thesis
    by (simp add: start_block_def max_blocks_def uint_word_of_int_eq take_bit_int_eq_self_iff)
qed

lemma uint_start_entry: "uint (start_entry w) = 8 * (block_sum w mod 1024)"
proof -
  have "block_sum w mod 1024 * 8 < 8192" by simp
  then have "block_sum w mod 1024 * 8 < 2 ^ LENGTH(16)"
    by (rule order.strict_trans) simp
  moreover have "0 \<le> block_sum w mod 1024 * 8" by simp
  ultimately show ?thesis
    by (simp only: start_entry_def uint_start_block uint_word_of_int_eq take_bit_int_eq_self_iff
        mult.commute)
qed

lemma start_entry_less: "unat (start_entry w) < 65535"
proof -
  have "uint (start_entry w) < 8192" by (simp add: uint_start_entry)
  moreover have "int (unat (start_entry w)) = uint (start_entry w)" by (rule uint_nat [symmetric])
  ultimately show ?thesis by linarith
qed

text \<open>The random numbers do not make \<open>last_block + rand()\<close> overflow.\<close>

definition rand_small :: "world \<Rightarrow> bool" where
  "rand_small w \<longleftrightarrow> (\<forall>seed. rand_of w seed mod 2 ^ 31 < 2 ^ 31 - 65536)"

lemma rand_small_block_sum:
  assumes "rand_small w"
  shows "block_sum w < 2 ^ 31"
proof -
  have "uint (last_block w) < 2 ^ LENGTH(16)" by (rule unsigned_less)
  moreover have "rand_of w (ucast (last_block w)) mod 2 ^ 31 < 2 ^ 31 - 65536"
    using assms unfolding rand_small_def by blast
  ultimately show ?thesis by (simp add: block_sum_def)
qed

lemma select_overflow [exec]: "2 ^ 31 \<le> block_sum w \<Longrightarrow> select_ipv4_id w = Faults SignedOverflow"
  by (simp add: select_ipv4_id_def srand_rand_def block_sum_def)

lemma select_run:
  assumes "block_sum w < 2 ^ 31" and "used_ip_id_values w = p"
  shows "select_ipv4_id w = id_loop p (start_entry w) (w\<lparr>last_block := start_block w\<rparr>)"
proof -
  have "\<not> 2 ^ 31 \<le> block_sum w" using assms(1) by simp
  then show ?thesis
    using assms(2) by (simp add: select_ipv4_id_def srand_rand_def start_entry_def start_block_def
        Let_def block_sum_def [symmetric] del: power_numeral)
qed

text \<open>
  Everything about a choice that returns: it does so when some non-zero identifier of the
  residue class of the start is free, and then takes one.
\<close>

definition selectable :: "world \<Rightarrow> u8 list \<Rightarrow> bool" where
  "selectable w bs \<longleftrightarrow> (\<exists>i<65535. i mod 3 = unat (start_entry w) mod 3 \<and> free_at bs i)"

lemma selectable_probe: "selectable w bs \<longleftrightarrow> (\<exists>k. free_at bs (probe (unat (start_entry w)) k))"
proof
  assume "selectable w bs"
  then obtain i where "i < 65535" "i mod 3 = unat (start_entry w) mod 3" "free_at bs i"
    by (auto simp: selectable_def)
  with probe_covers [OF start_entry_less] show "\<exists>k. free_at bs (probe (unat (start_entry w)) k)"
    by blast
next
  assume "\<exists>k. free_at bs (probe (unat (start_entry w)) k)"
  then show "selectable w bs"
    unfolding selectable_def using probe_mod_3 probe_less by blast
qed

lemma select_result:
  assumes "id_map w b bs" and "block_sum w < 2 ^ 31" and "selectable w bs"
  shows "\<exists>i cs. select_ipv4_id w
      = Returns i (w\<lparr>last_block := start_block w, heap := (heap w)(b \<mapsto> Bytes cs)\<rparr>)
    \<and> length cs = 8192 \<and> free_at bs (unat i) \<and> unat i < 65535
    \<and> insert 0 (bits_elems cs) = insert 0 (insert (unat i) (bits_elems bs))
    \<and> chosen (start_entry w) bs i"
proof -
  let ?e = "start_entry w"
  let ?w = "w\<lparr>last_block := start_block w\<rparr>"
  have w: "heap ?w b = Some (Bytes bs)" "length bs = 8192" "used_ip_id_values w = Ptr b 0"
    using assms(1) by (simp_all add: id_map_def)
  obtain k cs where k: "id_loop (Ptr b 0) ?e ?w = Returns (word_of_nat (probe (unat ?e) k))
        (?w\<lparr>heap := (heap ?w)(b \<mapsto> Bytes (bits_set cs (probe (unat ?e) k)))\<rparr>)"
    "cs = bs \<or> cs = bits_set bs 0" "free_at bs (probe (unat ?e) k)"
    "\<forall>j<k. \<not> free_at bs (probe (unat ?e) j)"
    using id_loop_no_fault [OF w(1,2) start_entry_less] assms(3) selectable_probe by blast
  define i where "i = probe (unat ?e) k"
  have i: "i < 65535" by (simp add: i_def)
  then have u: "unat (word_of_nat i :: u16) = i"
    unfolding unat_of_nat by simp
  have "length cs = 8192" using k(2) w(2) by auto
  moreover have "insert 0 (bits_elems cs) = insert 0 (bits_elems bs)"
    using k(2) w(2) bm.ins [of 0 bs] by auto
  moreover have "bits_elems (bits_set cs i) = insert i (bits_elems cs)"
    using i \<open>length cs = 8192\<close> by (intro bm.ins) simp
  moreover have "select_ipv4_id w = Returns (word_of_nat i)
      (w\<lparr>last_block := start_block w, heap := (heap w)(b \<mapsto> Bytes (bits_set cs i))\<rparr>)"
    using select_run [OF assms(2) w(3)] k(1) by (simp add: i_def)
  moreover have "length (bits_set cs i) = 8192" using \<open>length cs = 8192\<close> by simp
  moreover have "free_at bs i" using k(3) by (simp only: i_def)
  moreover from this k(4) have "chosen ?e bs (word_of_nat i)"
    unfolding chosen_def u by (intro exI [of _ k] conjI) (simp_all add: i_def)
  ultimately show ?thesis
    using i by (intro exI [of _ "word_of_nat i"] exI [of _ "bits_set cs i"] conjI)
      (simp_all only: u insert_commute [of 0 i])
qed

lemma select_returned:
  assumes "id_map w b bs" and "select_ipv4_id w = Some r"
  shows "r = Inl SignedOverflow \<or> block_sum w < 2 ^ 31 \<and> selectable w bs"
proof (cases "block_sum w < 2 ^ 31")
  case True
  have m: "heap w b = Some (Bytes bs)" "length bs = 8192" "used_ip_id_values w = Ptr b 0"
    using assms(1) by (simp_all add: id_map_def)
  have "id_loop (Ptr b 0) (start_entry w) (w\<lparr>last_block := start_block w\<rparr>) = Some r"
    by (rule trans [OF select_run [OF True m(3), symmetric] assms(2)])
  from id_loop_returned [OF this refl _ m(2) start_entry_less] m(1)
  have "selectable w bs" by (simp add: selectable_probe)
  with True show ?thesis by simp
next
  case False
  then have "2 ^ 31 \<le> block_sum w" by (rule leI)
  then have "select_ipv4_id w = Faults SignedOverflow" by (rule select_overflow)
  with assms(2) show ?thesis by simp
qed

lemma select_not_overflow:
  assumes "id_map w b bs" and "block_sum w < 2 ^ 31"
  shows "select_ipv4_id w \<noteq> Faults SignedOverflow \<or> selectable w bs"
proof (rule disjCI)
  assume no: "\<not> selectable w bs"
  have m: "heap (w\<lparr>last_block := start_block w\<rparr>) b = Some (Bytes bs)" "length bs = 8192"
    "used_ip_id_values w = Ptr b 0"
    using assms(1) by (simp_all add: id_map_def)
  show "select_ipv4_id w \<noteq> Faults SignedOverflow"
  proof
    assume f: "select_ipv4_id w = Faults SignedOverflow"
    have "id_loop (Ptr b 0) (start_entry w) (w\<lparr>last_block := start_block w\<rparr>) = Faults SignedOverflow"
      by (rule trans [OF select_run [OF assms(2) m(3), symmetric] f])
    from id_loop_returned [OF this refl m(1,2) start_entry_less] no
    show False by (simp add: selectable_probe)
  qed
qed

section \<open>Initialisation\<close>

lemma bits_elems_zero [simp]: "bits_elems (replicate n 0) = {}"
  by (auto simp: bits_elems_def bits_get_bit)

lemma ip_initialise_run [exec]:
  assumes "alloc_ok w (brk w)"
  shows "\<exists>lb. ip_initialise w = Returns () (w\<lparr>last_block := lb, used_ip_id_values := Ptr (brk w) 0,
     heap := (heap w)(brk w \<mapsto> Bytes (replicate 8192 0)), brk := Suc (brk w)\<rparr>) \<and> uint lb < 4096"
proof -
  have "uint (word_of_int (x mod 4096) :: u16) = x mod 4096" for x
  proof -
    have "x mod 4096 < 2 ^ LENGTH(16)"
      by (rule order.strict_trans [OF pos_mod_bound]) simp_all
    then show ?thesis by (simp add: uint_word_of_int_eq take_bit_int_eq_self_iff)
  qed
  moreover have "ip_initialise w = Returns () (w\<lparr>last_block := word_of_int
        (rand_of w (word_of_nat (unat (code_addr w) mod 0xffff)) mod 2 ^ 31 mod 4096),
      used_ip_id_values := Ptr (brk w) 0,
      heap := (heap w)(brk w \<mapsto> Bytes (replicate 8192 0)), brk := Suc (brk w)\<rparr>)"
    using assms by (simp add: ip_initialise_def srand_rand_def calloc_def alloc_run memset_def
        store_bytes_block splice_all)
  ultimately show ?thesis
    by (intro exI conjI) (assumption, simp)
qed

lemma ip_initialise_no_memory:
  "\<not> alloc_ok w (brk w) \<Longrightarrow> ip_initialise w = Faults NullDeref"
  by (simp add: ip_initialise_def srand_rand_def calloc_def alloc_run memset_def)

lemma free_run [exec]:
  assumes "id_map w b bs"
  shows "free_ipv4_id i w
    = Returns () (w\<lparr>heap := (heap w)(b \<mapsto> Bytes (bits_clear bs (unat i)))\<rparr>)"
proof -
  have "unat i < 8 * length bs" "used_ip_id_values w = Ptr b 0" "heap w b = Some (Bytes bs)"
    using assms unat_u16_less [of i] by (simp_all add: id_map_def)
  then show ?thesis by (simp add: free_ipv4_id_def bitmap_run)
qed

section \<open>Concrete states\<close>

text \<open>An allocator whose bitmap is \<open>bs\<close>, with the random number 7 for every seed.\<close>

definition demo_ids :: "u16 \<Rightarrow> u8 list \<Rightarrow> world" where
  "demo_ids lb bs = (demo_with [Bytes bs])\<lparr>used_ip_id_values := Ptr 0 0, last_block := lb\<rparr>"

lemma id_map_demo: "length bs = 8192 \<Longrightarrow> id_map (demo_ids lb bs) 0 bs"
  by (simp add: id_map_def demo_ids_def)

lemma block_sum_demo: "block_sum (demo_ids lb bs) = uint lb + 7"
  by (simp add: block_sum_def demo_ids_def)

lemma block_sum_7:
  assumes "rand_of w = (\<lambda>_. 7)"
  shows "block_sum w < 2 ^ 31"
proof -
  have "uint (last_block w) < 2 ^ LENGTH(16)" by (rule unsigned_less)
  then show ?thesis by (simp add: block_sum_def assms)
qed

lemma start_entry_demo:
  "start_entry (demo_ids 0 bs) = 56" "start_entry (demo_ids 2 bs) = 72"
  by (simp_all add: start_entry_def start_block_def block_sum_demo max_blocks_def)

text \<open>A third of all values in use: the multiples of 3.\<close>

definition thirds :: "u8 list" where
  "thirds = map (\<lambda>j. if j mod 3 = 0 then 0x49 else if j mod 3 = 1 then 0x92 else 0x24) [0..<8192]"

lemma bit_thirds:
  assumes "j < 8192" and "r < 8"
  shows "bit (thirds ! j) r \<longleftrightarrow> (8 * j + r) mod 3 = 0"
proof -
  have r: "r = 0 \<or> r = 1 \<or> r = 2 \<or> r = 3 \<or> r = 4 \<or> r = 5 \<or> r = 6 \<or> r = 7"
    using assms(2) by linarith
  have j: "j mod 3 = 0 \<or> j mod 3 = 1 \<or> j mod 3 = 2" by linarith
  have "(8 * j + r) mod 3 = (2 * j + r + 3 * (2 * j)) mod 3" by (rule arg_cong [where f = "\<lambda>n. n mod 3"]) simp
  also have "\<dots> = (2 * j + r) mod 3" by (rule mod_mult_self2)
  also have "\<dots> = (2 * (j mod 3) + r) mod 3" by (metis mod_add_left_eq mod_mult_right_eq)
  finally have "(8 * j + r) mod 3 = (2 * (j mod 3) + r) mod 3" .
  moreover have "thirds ! j = (if j mod 3 = 0 then 0x49 else if j mod 3 = 1 then 0x92 else 0x24)"
    using assms(1) by (simp add: thirds_def)
  ultimately show ?thesis
    using r j by (elim disjE) (simp_all add: bit_numeral_rec)
qed

lemma bits_elems_thirds: "bits_elems thirds = {i. i < 65536 \<and> i mod 3 = 0}"
proof -
  have "length thirds = 8192" by (simp add: thirds_def)
  moreover have "bits_get thirds i \<longleftrightarrow> i mod 3 = 0" if "i < 65536" for i
    using bit_thirds [of "i div 8" "i mod 8"] that
    by (simp add: bits_get_bit div_less_iff_less_mult)
  ultimately show ?thesis unfolding bits_elems_def by auto
qed

lemma selectable_small:
  assumes "bits_elems bs \<subseteq> {0, x}"
  shows "selectable w bs"
proof -
  let ?r = "unat (start_entry w) mod 3"
  define i where "i = (if ?r + 3 = x then ?r + 6 else ?r + 3)"
  have "?r < 3" by simp
  then have small: "i < 65535" "i \<noteq> 0" "i \<noteq> x" unfolding i_def by auto
  have "(?r + 3 * 2) mod 3 = ?r" "(?r + 3 * 1) mod 3 = ?r"
    by (simp_all only: mod_mult_self2 mod_mod_trivial)
  then have "i mod 3 = ?r" unfolding i_def by simp
  moreover have "free_at bs i"
    using small assms by (auto simp: free_at_def)
  ultimately show ?thesis
    using small(1) unfolding selectable_def by blast
qed

section \<open>Properties\<close>

text \<open>C37: \<open>ip_initialise\<close> sets up a bitmap of 8192 bytes with no value in use and a last block below
  4096; when the bitmap cannot be allocated it writes through the null pointer, as its \<open>assert\<close>
  comes after the \<open>memset\<close>.\<close>

theorem ip_initialise_result:
  "(if alloc_ok w (brk w)
    then \<exists>w' bs. ip_initialise w = Returns () w' \<and> id_map w' (brk w) bs \<and> bits_elems bs = {}
      \<and> uint (last_block w') < 4096
    else ip_initialise w = Faults NullDeref)"
proof (cases "alloc_ok w (brk w)")
  case True
  from ip_initialise_run [OF this] obtain lb where
    "ip_initialise w = Returns () (w\<lparr>last_block := lb, used_ip_id_values := Ptr (brk w) 0,
       heap := (heap w)(brk w \<mapsto> Bytes (replicate 8192 0)), brk := Suc (brk w)\<rparr>)"
    "uint lb < 4096" by blast
  with True show ?thesis
    by (auto simp: id_map_def intro!: exI [of _ "replicate 8192 0"])
qed (simp add: ip_initialise_no_memory)

text \<open>C7: \<open>allocate_ipv4_id\<close>'s search: when some free non-zero value has the residue modulo 3 of the
  start entry (and the block computation does not overflow), it returns a value that is not zero,
  not 65535 and was free, and marks it; no other value but 0 changes.\<close>

theorem select_ipv4_id_fresh:
  assumes "id_map w b bs" and "block_sum w < 2 ^ 31"
    and "i < 65535" and "i mod 3 = unat (start_entry w) mod 3" and "i \<noteq> 0" and "i \<notin> bits_elems bs"
  shows "\<exists>x w' cs. select_ipv4_id w = Returns x w' \<and> id_map w' b cs
    \<and> x \<noteq> 0 \<and> unat x < 65535 \<and> unat x \<notin> bits_elems bs
    \<and> insert 0 (bits_elems cs) = insert 0 (insert (unat x) (bits_elems bs))"
proof -
  have "selectable w bs"
    using assms(3-6) by (auto simp: selectable_def free_at_def)
  from select_result [OF assms(1,2) this] obtain x cs where r:
    "select_ipv4_id w = Returns x (w\<lparr>last_block := start_block w, heap := (heap w)(b \<mapsto> Bytes cs)\<rparr>)"
    "length cs = 8192" "free_at bs (unat x)" "unat x < 65535"
    "insert 0 (bits_elems cs) = insert 0 (insert (unat x) (bits_elems bs))" by blast
  moreover have "id_map (w\<lparr>last_block := start_block w, heap := (heap w)(b \<mapsto> Bytes cs)\<rparr>) b cs"
    using assms(1) r(2) by (simp add: id_map_def)
  moreover have "x \<noteq> 0" "unat x \<notin> bits_elems bs"
    using r(3) by (auto simp: free_at_def unat_0_iff)
  ultimately show ?thesis by blast
qed

theorem select_ipv4_id_fresh_witness:
  "\<exists>x w' cs. select_ipv4_id (demo_ids 0 thirds) = Returns x w' \<and> id_map w' 0 cs
    \<and> x \<noteq> 0 \<and> unat x < 65535 \<and> unat x \<notin> bits_elems thirds
    \<and> insert 0 (bits_elems cs) = insert 0 (insert (unat x) (bits_elems thirds))"
  by (rule select_ipv4_id_fresh [where i = 2])
     (simp_all add: id_map_demo thirds_def [THEN arg_cong, of length] block_sum_demo start_entry_demo
        bits_elems_thirds)

text \<open>C8: the search ends exactly when a free non-zero value of its residue class exists: the step 3
  divides 65535, so the search never leaves the class.\<close>

theorem select_ipv4_id_terminates:
  assumes "id_map w b bs" and "block_sum w < 2 ^ 31"
  shows "select_ipv4_id w \<noteq> Diverges \<longleftrightarrow>
    (\<exists>i<65535. i mod 3 = unat (start_entry w) mod 3 \<and> i \<noteq> 0 \<and> i \<notin> bits_elems bs)"
proof -
  have "select_ipv4_id w \<noteq> Diverges \<longleftrightarrow> selectable w bs"
  proof
    assume "select_ipv4_id w \<noteq> Diverges"
    then obtain r where r: "select_ipv4_id w = Some r" by auto
    with select_returned [OF assms(1) r] select_not_overflow [OF assms]
    show "selectable w bs" by auto
  next
    assume "selectable w bs"
    from select_result [OF assms this] show "select_ipv4_id w \<noteq> Diverges" by auto
  qed
  then show ?thesis by (auto simp: selectable_def free_at_def)
qed

theorem select_ipv4_id_terminates_witness:
  "select_ipv4_id (demo_ids 0 thirds) \<noteq> Diverges"
proof -
  have "id_map (demo_ids 0 thirds) 0 thirds"
    by (rule id_map_demo) (simp add: thirds_def)
  moreover have "block_sum (demo_ids 0 thirds) < 2 ^ 31"
    by (simp add: block_sum_demo)
  moreover have "\<exists>i<65535. i mod 3 = unat (start_entry (demo_ids 0 thirds)) mod 3 \<and> i \<noteq> 0
      \<and> i \<notin> bits_elems thirds"
    by (intro exI [of _ 2]) (simp add: start_entry_demo bits_elems_thirds)
  ultimately show ?thesis
    using select_ipv4_id_terminates by blast
qed

text \<open>C35: the allocator can hang although most values are free: with only the multiples of 3 in use
  and a start entry that is one of them, the search never ends, while 43690 other values are
  free.\<close>

theorem select_ipv4_id_starves:
  "id_map (demo_ids 2 thirds) 0 thirds \<and> select_ipv4_id (demo_ids 2 thirds) = Diverges
    \<and> card ({..<65536} - bits_elems thirds) = 43690"
proof (intro conjI)
  show m: "id_map (demo_ids 2 thirds) 0 thirds"
    by (rule id_map_demo) (simp add: thirds_def)
  have b: "block_sum (demo_ids 2 thirds) < 2 ^ 31"
    by (simp add: block_sum_demo)
  have "\<not> selectable (demo_ids 2 thirds) thirds"
    by (auto simp: selectable_def free_at_def start_entry_demo bits_elems_thirds)
  with select_returned [OF m] select_not_overflow [OF m b]
  show "select_ipv4_id (demo_ids 2 thirds) = Diverges"
    by (cases "select_ipv4_id (demo_ids 2 thirds)") auto
  have "bits_elems thirds = (\<lambda>k. 3 * k) ` {..<21846}"
    unfolding bits_elems_thirds by (auto simp: image_iff)
  moreover have "inj_on (\<lambda>k::nat. 3 * k) {..<21846}" by (rule inj_onI) simp
  ultimately have "card (bits_elems thirds) = 21846" by (simp add: card_image)
  moreover have "bits_elems thirds \<subseteq> {..<65536}" by (auto simp: bits_elems_thirds)
  ultimately show "card ({..<65536} - bits_elems thirds) = 43690"
    by (simp add: card_Diff_subset finite_subset [OF _ finite_lessThan])
qed

text \<open>C36: \<open>ip_finalise\<close> leaves the pointer to the freed bitmap in place: allocating an identifier
  afterwards uses freed memory.\<close>

theorem ip_finalise_dangles:
  assumes "id_map w b bs" and "mem_inv w" and "block_sum w < 2 ^ 31"
  shows "\<exists>w'. ip_finalise w = Returns () w' \<and> select_ipv4_id w' = Faults UseAfterFree"
proof -
  let ?w = "w\<lparr>heap := (heap w)(b := None)\<rparr>"
  let ?v = "?w\<lparr>last_block := start_block ?w\<rparr>"
  have m: "heap w b = Some (Bytes bs)" "used_ip_id_values w = Ptr b 0"
    using assms(1) by (simp_all add: id_map_def)
  then have "b < brk w" using assms(2) by (metis mem_inv_def not_le option.simps(3))
  then have "load_bytes (Ptr b i) (Suc 0) ?v = Faults UseAfterFree" for i
    by (simp add: load_bytes.simps block_def)
  then have "id_loop (Ptr b 0) (start_entry ?w) ?v = Faults UseAfterFree"
    by (subst id_loop.simps) (simp add: bitmap_get_def)
  moreover have "block_sum ?w < 2 ^ 31" "used_ip_id_values ?w = Ptr b 0"
    using assms(3) m(2) by (simp_all add: block_sum_def)
  then have "select_ipv4_id ?w = id_loop (Ptr b 0) (start_entry ?w) ?v"
    by (rule select_run)
  moreover have "ip_finalise w = Returns () ?w"
    using m by (simp add: ip_finalise_def free_block)
  ultimately show ?thesis by auto
qed

theorem ip_finalise_dangles_witness:
  "\<exists>w'. ip_finalise (demo_ids 0 thirds) = Returns () w' \<and> select_ipv4_id w' = Faults UseAfterFree"
proof (rule ip_finalise_dangles)
  show "id_map (demo_ids 0 thirds) 0 thirds"
    by (rule id_map_demo) (simp add: thirds_def)
  show "mem_inv (demo_ids 0 thirds)"
    by (simp add: mem_inv_def demo_ids_def)
  show "block_sum (demo_ids 0 thirds) < 2 ^ 31"
    by (simp add: block_sum_demo)
qed

end
