(* ===== verification/Ipv4.thy ===== *)
theory Ipv4
  imports Link Csum Ip_Id
begin

text \<open>
  The IPv4 layer of \<open>ip.c\<close> and \<open>ip.h\<close>: making a header, the type of service, and sending a
  datagram. Headers are shown to be what RFC 791 asks for and to verify at the receiver; sending
  is verified against the interface \<open>link_layer\<close>, once for all links.
\<close>

section \<open>The operations\<close>

text \<open>The length of the header that \<open>create_ipv4_hdr\<close> computes; what it adds for padding is always 4.\<close>

definition ipv4_hdr_len :: "u8 \<Rightarrow> u8 \<Rightarrow> nat" where
  "ipv4_hdr_len option_type opt_len =
     (let n0 = 20;
          n1 = (if option_type \<noteq> 0 then n0 + 1 else n0);
          n2 = (if opt_len \<noteq> 0 then n1 + 1 + unat opt_len else n1)
      in if n2 mod 4 \<noteq> 0 then n2 + (n2 mod 4 + (4 - n2 mod 4)) else n2)"

text \<open>
  The header is stored with the identification and the checksum zero; both are filled in
  afterwards, the checksum at byte 10. Options are written behind the 20 bytes of the block.
\<close>

definition create_ipv4_hdr ::
  "u32 \<Rightarrow> u32 \<Rightarrow> u8 \<Rightarrow> u16 \<Rightarrow> u8 \<Rightarrow> u8 \<Rightarrow> u8 \<Rightarrow> u8 \<Rightarrow> ptr \<Rightarrow> u16 \<Rightarrow> ptr cprog" where
  "create_ipv4_hdr src dst tos_v f_off_vcf ttl_v pt option_type opt_len option_buf tlen =
     (let n = ipv4_hdr_len option_type opt_len;
          ihl_v = word_of_nat (n div 4) :: u8
      in
      bindp (calloc 20) (\<lambda>iph.
      if iph = Null then retp iph
      else
        bindp (store_bytes iph (ipv4_hdr_bytes \<lparr>ihl = ucast ihl_v, version = 4, tos = tos_v,
          hlen = htons (u16_of_size (n + unat tlen)), hid = 0,
          flags_foff = htons (f_off_vcf OR word_of_int (IPV4_FLAGS_value DONT_FRAGMENT * 2 ^ 8)),
          ttl = ttl_v, ptcl = pt, hcsum = 0, hsrc = src, hdst = dst\<rparr>)) (\<lambda>_.
        bindp (allocate_ipv4_id iph) (\<lambda>_.
        bindp (if option_type \<noteq> 0 then store_bytes (POINTER_ADD iph 20) [option_type] else retp ()) (\<lambda>_.
        bindp (if opt_len \<noteq> 0
          then bindp (store_bytes (POINTER_ADD iph 21) [opt_len]) (\<lambda>_.
            memcpy (POINTER_ADD iph 22) option_buf (unat opt_len))
          else retp ()) (\<lambda>_.
        bindp (csum iph n) (\<lambda>c.
        bindp (store_bytes (POINTER_ADD iph 10) (le16 c)) (\<lambda>_.
        retp iph))))))))"

definition create_std_ipv4_hdr :: "u32 \<Rightarrow> u32 \<Rightarrow> u8 \<Rightarrow> u16 \<Rightarrow> ptr cprog" where
  "create_std_ipv4_hdr src dst pt tlen = create_ipv4_hdr src dst 16 0 64 pt 0 0 Null tlen"

definition ipv4_parse_tos :: "ipv4_socket_options \<Rightarrow> u8" where
  "ipv4_parse_tos so = ucast (pre so) OR push_bit 3 (ucast (low_delay so))
     OR push_bit 4 (ucast (high_throughput so)) OR push_bit 5 (ucast (high_reliability so))"

text \<open>
  Sending, in two parts, the second from the created header on: the total length is read back from the header, the result of the link is cut to 16
  bits, and the error value -1 has type \<open>size_t\<close>. \<open>link\<close> is the \<open>link_tx\<close> of the build.
\<close>

definition ipv4_send ::
  "(ptr \<Rightarrow> ptr \<Rightarrow> nat \<Rightarrow> nat cprog) \<Rightarrow> ptr \<Rightarrow> ptr \<Rightarrow> ptr \<Rightarrow> nat \<Rightarrow> nat cprog" where
  "ipv4_send link sock ip_hdr data data_len =
     bindp (load_bytes (POINTER_ADD ip_hdr 2) 2) (\<lambda>lenb.
     let size = unat (ntohs (of_le16 lenb)) in
     bindp (calloc size) (\<lambda>packet.
     if packet = Null then bindp (free ip_hdr) (\<lambda>_. retp SIZE_MAX)
     else
       bindp (memcpy packet ip_hdr 20) (\<lambda>_.
       bindp (memcpy (POINTER_ADD packet 20) data data_len) (\<lambda>_.
       bindp (link sock packet size) (\<lambda>r.
       let sent = u16_of_size r in
       bindp (load_bytes (POINTER_ADD ip_hdr 4) 2) (\<lambda>idb.
       bindp (free_ipv4_id (of_le16 idb)) (\<lambda>_.
       bindp (free ip_hdr) (\<lambda>_.
       bindp (free packet) (\<lambda>_.
       retp (unat sent))))))))))"

definition ipv4_transmit_datagram ::
  "(ptr \<Rightarrow> ptr \<Rightarrow> nat \<Rightarrow> nat cprog) \<Rightarrow> ptr \<Rightarrow> u32 \<Rightarrow> u32 \<Rightarrow> ptr \<Rightarrow> nat \<Rightarrow> nat cprog" where
  "ipv4_transmit_datagram link sock src dst data data_len =
     bindp (load_sock sock) (\<lambda>s.
     bindp (load_iopts (ip_options s)) (\<lambda>iopts.
     bindp (create_ipv4_hdr src dst 0 (ucast (no_fragment iopts)) (sopt_ttl iopts)
       (word_of_int (protocol s)) 0 0 Null (u16_of_size data_len)) (\<lambda>ip_hdr.
     if ip_hdr = Null then retp SIZE_MAX
     else ipv4_send link sock ip_hdr data data_len)))"

section \<open>Making a header\<close>

text \<open>The header that is made, given the identifier, and its checksum.\<close>

definition with_csum :: "ipv4_hdr \<Rightarrow> ipv4_hdr" where
  "with_csum h = h\<lparr>hcsum := csum_bytes (ipv4_hdr_bytes (h\<lparr>hcsum := 0\<rparr>))\<rparr>"

definition plain_hdr :: "u32 \<Rightarrow> u32 \<Rightarrow> u8 \<Rightarrow> u16 \<Rightarrow> u8 \<Rightarrow> u8 \<Rightarrow> u16 \<Rightarrow> u16 \<Rightarrow> ipv4_hdr" where
  "plain_hdr src dst tos_v foff ttl_v pt tlen i = with_csum \<lparr>ihl = 5, version = 4, tos = tos_v,
     hlen = htons (20 + tlen), hid = i, flags_foff = htons (foff OR 0x4000), ttl = ttl_v, ptcl = pt,
     hcsum = 0, hsrc = src, hdst = dst\<rparr>"

lemma splice_hid: "splice 4 (le16 i) (ipv4_hdr_bytes h) = ipv4_hdr_bytes (h\<lparr>hid := i\<rparr>)"
  by (simp add: splice_def ipv4_hdr_bytes_def le16_def le32_def)

lemma splice_hcsum: "splice 10 (le16 c) (ipv4_hdr_bytes h) = ipv4_hdr_bytes (h\<lparr>hcsum := c\<rparr>)"
  by (simp add: splice_def ipv4_hdr_bytes_def le16_def le32_def)

text \<open>The receiver's check of RFC 791 on a header: the checksum of its bytes is zero.\<close>

lemma with_csum_verifies: "rfc1071_csum (ipv4_hdr_bytes (with_csum h)) = 0"
proof -
  let ?xs = "[nibbles (ihl h) (version h), tos h] @ le16 (hlen h) @ le16 (hid h)
     @ le16 (flags_foff h) @ [ttl h, ptcl h]"
  let ?ys = "le32 (hsrc h) @ le32 (hdst h)"
  have bytes: "ipv4_hdr_bytes (h\<lparr>hcsum := c\<rparr>) = ?xs @ le16 c @ ?ys" for c
    by (simp add: ipv4_hdr_bytes_def)
  have "le16 0 = [0, 0]" by (simp add: le16_def)
  then have "csum_bytes (ipv4_hdr_bytes (with_csum h)) = 0"
    using csum_stored [of ?xs ?ys] by (simp only: with_csum_def bytes) simp
  then show ?thesis by (simp add: rfc1071_eq_0)
qed

lemma select_hdr:
  assumes "id_map w b bs" and "block_sum w < 2 ^ 31" and "selectable w bs" and "heap w k = None"
  shows "\<exists>i cs. select_ipv4_id (w\<lparr>brk := n, heap := (heap w)(k \<mapsto> x)\<rparr>)
      = Returns i (w\<lparr>brk := n, last_block := start_block w, heap := (heap w)(b \<mapsto> Bytes cs, k \<mapsto> x)\<rparr>)
    \<and> length cs = 8192 \<and> free_at bs (unat i) \<and> unat i < 65535
    \<and> insert 0 (bits_elems cs) = insert 0 (insert (unat i) (bits_elems bs))
    \<and> chosen (start_entry w) bs i"
proof -
  let ?w = "w\<lparr>brk := n, heap := (heap w)(k \<mapsto> x)\<rparr>"
  have bk: "b \<noteq> k" using assms(1,4) by (auto simp: id_map_def)
  then have m: "id_map ?w b bs" using assms(1) by (simp add: id_map_def)
  have s: "block_sum ?w = block_sum w" by (simp add: block_sum_def)
  have e: "start_block ?w = start_block w" by (simp add: start_block_def s)
  have "selectable ?w bs" using assms(3) by (simp add: selectable_def start_entry_def e)
  from select_result [OF m _ this] assms(2) bk show ?thesis
    by (simp add: s e start_entry_def fun_upd_twist)
qed

lemma create_ipv4_hdr_run:
  assumes "id_map w b bs" and "block_sum w < 2 ^ 31" and "selectable w bs" and "mem_inv w"
    and "alloc_ok w (brk w)"
  shows "\<exists>i cs. create_ipv4_hdr src dst tv fo tt pt 0 0 ob tlen w = Returns (Ptr (brk w) 0)
      (w\<lparr>brk := Suc (brk w), last_block := start_block w, heap := (heap w)(b \<mapsto> Bytes cs,
        brk w \<mapsto> Bytes (ipv4_hdr_bytes (plain_hdr src dst tv fo tt pt tlen i)))\<rparr>)
    \<and> length cs = 8192 \<and> free_at bs (unat i) \<and> unat i < 65535
    \<and> insert 0 (bits_elems cs) = insert 0 (insert (unat i) (bits_elems bs))
    \<and> chosen (start_entry w) bs i"
proof -
  define h where "h = \<lparr>ihl = 5, version = 4, tos = tv, hlen = htons (20 + tlen), hid = 0,
     flags_foff = htons (fo OR 0x4000), ttl = tt, ptcl = pt, hcsum = 0, hsrc = src, hdst = dst\<rparr>"
  have fresh: "heap w (brk w) = None" using assms(4) by simp
  then have bk: "b \<noteq> brk w" using assms(1) by (auto simp: id_map_def)
  obtain i cs where r: "select_ipv4_id (w\<lparr>brk := Suc (brk w), heap := (heap w)(brk w \<mapsto> Bytes (ipv4_hdr_bytes h))\<rparr>)
      = Returns i (w\<lparr>brk := Suc (brk w), last_block := start_block w, heap := (heap w)(b \<mapsto> Bytes cs,
          brk w \<mapsto> Bytes (ipv4_hdr_bytes h))\<rparr>)"
    "length cs = 8192" "free_at bs (unat i)" "unat i < 65535"
    "insert 0 (bits_elems cs) = insert 0 (insert (unat i) (bits_elems bs))" "chosen (start_entry w) bs i"
    using select_hdr [OF assms(1-3) fresh, where x = "Bytes (ipv4_hdr_bytes h)" and n = "Suc (brk w)"]
    by (elim exE conjE) (rule that)
  have ip: "plain_hdr src dst tv fo tt pt tlen i
      = h\<lparr>hid := i, hcsum := csum_bytes (ipv4_hdr_bytes (h\<lparr>hid := i\<rparr>))\<rparr>"
    by (simp add: plain_hdr_def with_csum_def h_def)
  have n: "ipv4_hdr_len 0 0 = 20" by (simp add: ipv4_hdr_len_def)
  have "u16_of_size (20 + unat tlen) = 20 + tlen" by (simp add: u16_of_size_def)
  moreover have "word_of_int (IPV4_FLAGS_value DONT_FRAGMENT * 2 ^ 8) = (0x4000 :: u16)" by simp
  moreover have "ucast (word_of_nat (20 div 4) :: u8) = (5 :: 4 word)" by simp
  ultimately have fields: "\<lparr>ihl = ucast (word_of_nat (20 div 4) :: u8), version = 4, tos = tv,
      hlen = htons (u16_of_size (20 + unat tlen)), hid = 0,
      flags_foff = htons (fo OR word_of_int (IPV4_FLAGS_value DONT_FRAGMENT * 2 ^ 8)),
      ttl = tt, ptcl = pt, hcsum = 0, hsrc = src, hdst = dst\<rparr> = h"
    by (simp only: h_def)
  define w1 where "w1 = (\<lambda>xs. w\<lparr>brk := Suc (brk w), heap := (heap w)(brk w \<mapsto> Bytes xs)\<rparr>)"
  define w2 where "w2 = (\<lambda>xs. w\<lparr>brk := Suc (brk w), last_block := start_block w,
    heap := (heap w)(b \<mapsto> Bytes cs, brk w \<mapsto> Bytes xs)\<rparr>)"
  have "calloc 20 w = Returns (Ptr (brk w) 0) (w1 (replicate 20 0))"
    using assms(5) by (simp add: calloc_def alloc_run w1_def)
  moreover have "store_bytes (Ptr (brk w) 0) (ipv4_hdr_bytes h) (w1 (replicate 20 0)) = Returns () (w1 (ipv4_hdr_bytes h))"
    by (simp add: w1_def store_bytes_block splice_all)
  moreover have "allocate_ipv4_id (Ptr (brk w) 0) (w1 (ipv4_hdr_bytes h)) = Returns True (w2 (ipv4_hdr_bytes (h\<lparr>hid := i\<rparr>)))"
    using r(1) by (simp add: allocate_ipv4_id_def w1_def w2_def store_bytes_block splice_hid)
  moreover have "csum (Ptr (brk w) 0) 20 (w2 (ipv4_hdr_bytes (h\<lparr>hid := i\<rparr>)))
      = Returns (csum_bytes (ipv4_hdr_bytes (h\<lparr>hid := i\<rparr>))) (w2 (ipv4_hdr_bytes (h\<lparr>hid := i\<rparr>)))"
    by (simp add: csum_def w2_def load_bytes_block)
  moreover have "store_bytes (Ptr (brk w) 10) (le16 (csum_bytes (ipv4_hdr_bytes (h\<lparr>hid := i\<rparr>))))
      (w2 (ipv4_hdr_bytes (h\<lparr>hid := i\<rparr>))) = Returns () (w2 (ipv4_hdr_bytes (plain_hdr src dst tv fo tt pt tlen i)))"
    by (simp add: w2_def store_bytes_block splice_hcsum ip)
  ultimately have "create_ipv4_hdr src dst tv fo tt pt 0 0 ob tlen w = Returns (Ptr (brk w) 0)
      (w2 (ipv4_hdr_bytes (plain_hdr src dst tv fo tt pt tlen i)))"
    unfolding create_ipv4_hdr_def n Let_def fields by simp
  with r(2-6) show ?thesis unfolding w2_def by (intro exI conjI)
qed

section \<open>Sending\<close>

lemma hdr_bytes_parts [simp]:
  "take 2 (drop 2 (ipv4_hdr_bytes h)) = le16 (hlen h)"
  "take 2 (drop 4 (ipv4_hdr_bytes h)) = le16 (hid h)"
  by (simp_all add: ipv4_hdr_bytes_def le16_def)

lemma plain_hdr_simps [simp]:
  "hlen (plain_hdr src dst tv fo tt pt tlen i) = htons (20 + tlen)"
  "hid (plain_hdr src dst tv fo tt pt tlen i) = i"
  by (simp_all add: plain_hdr_def with_csum_def)

lemma unat_total_length: "n \<le> 65515 \<Longrightarrow> unat (20 + u16_of_size n) = n + 20"
proof -
  assume "n \<le> 65515"
  then have "20 + u16_of_size n = (word_of_nat (20 + n) :: u16)" "(20 + n) mod 65536 = 20 + n"
    by (simp_all add: u16_of_size_def)
  then show ?thesis by (simp only: unat_of_nat) simp
qed

text \<open>Releasing the identifier that was taken restores the set, but for entry 0.\<close>

lemma release_taken:
  assumes "length cs = 8192" and "free_at bs (unat (i :: u16))"
    and "insert 0 (bits_elems cs) = insert 0 (insert (unat i) (bits_elems bs))"
  shows "length (bits_clear cs (unat i)) = 8192
    \<and> insert 0 (bits_elems (bits_clear cs (unat i))) = insert 0 (bits_elems bs)"
proof -
  have i: "unat i < 8 * length cs" using assms(1) unat_u16_less [of i] by simp
  have n: "unat i \<noteq> 0" "unat i \<notin> bits_elems bs" using assms(2) by (simp_all add: free_at_def)
  have "insert 0 (bits_elems cs - {unat i}) = insert 0 (bits_elems cs) - {unat i}"
    using n(1) by (simp add: insert_Diff_if)
  also have "\<dots> = insert 0 (bits_elems bs)"
    unfolding assms(3) using n by (simp add: insert_Diff_if)
  finally show ?thesis using assms(1) bm.del [OF i] by simp
qed

text \<open>The IP options of a socket.\<close>

definition iopts_at :: "(nat \<rightharpoonup> obj) \<Rightarrow> net_socket \<Rightarrow> ipv4_socket_options \<Rightarrow> bool" where
  "iopts_at h s io \<longleftrightarrow> (\<exists>k. ip_options s = Ptr k 0 \<and> h k = Some (Ip_options io))"

lemma iopts_at_fresh:
  assumes "iopts_at h s io" and "h b = None"
  shows "iopts_at (h(b := x)) s io"
proof -
  obtain k where "ip_options s = Ptr k 0" "h k = Some (Ip_options io)"
    using assms(1) by (auto simp: iopts_at_def)
  moreover from this assms(2) have "k \<noteq> b" by auto
  ultimately show ?thesis by (simp add: iopts_at_def)
qed

text \<open>The header of the datagrams of a socket.\<close>

definition sock_hdr :: "net_socket \<Rightarrow> ipv4_socket_options \<Rightarrow> u32 \<Rightarrow> u32 \<Rightarrow> nat \<Rightarrow> u16 \<Rightarrow> ipv4_hdr" where
  "sock_hdr s io src dst n i = plain_hdr src dst 0 (ucast (no_fragment io)) (sopt_ttl io)
     (word_of_int (protocol s)) (u16_of_size n) i"

text \<open>A state that can send: an identifier can be chosen, and the bitmap is apart from the socket.\<close>

definition ids_ok :: "world \<Rightarrow> nat \<Rightarrow> u8 list \<Rightarrow> bool" where
  "ids_ok w b bs \<longleftrightarrow> id_map w b bs \<and> block_sum w < 2 ^ 31 \<and> selectable w bs"

text \<open>Every transmission begins with making the header.\<close>

definition hdr_made :: "world \<Rightarrow> nat \<Rightarrow> u8 list \<Rightarrow> u8 list \<Rightarrow> world" where
  "hdr_made w b cs hb = w\<lparr>brk := Suc (brk w), last_block := start_block w,
     heap := (heap w)(b \<mapsto> Bytes cs, brk w \<mapsto> Bytes hb)\<rparr>"

lemma transmit_begins:
  assumes "p = Ptr a 0" "heap w a = Some (Net_socket s)" "iopts_at (heap w) s io"
    and "ids_ok w b bs" and "mem_inv w" and "alloc_ok w (brk w)"
  shows "\<exists>i cs. ipv4_transmit_datagram tx p src dst d n w
      = ipv4_send tx p (Ptr (brk w) 0) d n (hdr_made w b cs (ipv4_hdr_bytes (sock_hdr s io src dst n i)))
    \<and> length cs = 8192 \<and> free_at bs (unat i)
    \<and> insert 0 (bits_elems cs) = insert 0 (insert (unat i) (bits_elems bs)) \<and> chosen (start_entry w) bs i"
proof -
  have im: "id_map w b bs" "block_sum w < 2 ^ 31" "selectable w bs"
    using assms(4) by (simp_all add: ids_ok_def)
  obtain j where j: "ip_options s = Ptr j 0" "heap w j = Some (Ip_options io)"
    using assms(3) by (auto simp: iopts_at_def)
  from create_ipv4_hdr_run [OF im assms(5,6), where src = src and dst = dst and tv = 0
        and fo = "ucast (no_fragment io)" and tt = "sopt_ttl io" and pt = "word_of_int (protocol s)"
        and ob = Null and tlen = "u16_of_size n"]
  obtain i cs where "create_ipv4_hdr src dst 0 (ucast (no_fragment io)) (sopt_ttl io)
      (word_of_int (protocol s)) 0 0 Null (u16_of_size n) w
        = Returns (Ptr (brk w) 0) (hdr_made w b cs (ipv4_hdr_bytes (sock_hdr s io src dst n i)))"
    "length cs = 8192" "free_at bs (unat i)"
    "insert 0 (bits_elems cs) = insert 0 (insert (unat i) (bits_elems bs))" "chosen (start_entry w) bs i"
    by (elim exE conjE) (rule that, unfold sock_hdr_def hdr_made_def)
  then show ?thesis
    using assms(1,2) j
    by (intro exI [of _ i] exI [of _ cs]) (simp add: ipv4_transmit_datagram_def load_sock_run load_iopts_run)
qed

text \<open>The packet is built in a second new block, and both are given back after sending.\<close>

definition packet_made :: "world \<Rightarrow> nat \<Rightarrow> u8 list \<Rightarrow> u8 list \<Rightarrow> u8 list \<Rightarrow> world" where
  "packet_made w b cs hb q = w\<lparr>brk := Suc (Suc (brk w)), last_block := start_block w,
     heap := (heap w)(b \<mapsto> Bytes cs, brk w \<mapsto> Bytes hb, Suc (brk w) \<mapsto> Bytes q)\<rparr>"

definition ipv4_finish :: "ptr \<Rightarrow> ptr \<Rightarrow> nat \<Rightarrow> nat cprog" where
  "ipv4_finish ip_hdr packet r =
     bindp (load_bytes (POINTER_ADD ip_hdr 4) 2) (\<lambda>idb.
     bindp (free_ipv4_id (of_le16 idb)) (\<lambda>_.
     bindp (free ip_hdr) (\<lambda>_.
     bindp (free packet) (\<lambda>_.
     retp (unat (u16_of_size r))))))"

lemma ipv4_send_builds:
  assumes "heap w b = Some (Bytes bs)" and "mem_inv w" and "alloc_ok w (Suc (brk w))"
    and hb: "length hb = 20" "take 2 (drop 2 hb) = le16 (htons (20 + u16_of_size (length xs)))"
    and "src_at (heap w) d xs" and "b \<notin> ptr_block d" and "length xs \<le> 65515"
  shows "ipv4_send tx p (Ptr (brk w) 0) d (length xs) (hdr_made w b cs hb)
    = bindp (tx p (Ptr (Suc (brk w)) 0) (20 + length xs)) (ipv4_finish (Ptr (brk w) 0) (Ptr (Suc (brk w)) 0))
        (packet_made w b cs hb (hb @ xs))"
proof -
  let ?q = "Suc (brk w)" and ?n = "20 + length xs" and ?W = "packet_made w b cs hb"
  have f: "heap w (brk w) = None" "heap w ?q = None" using assms(2) by simp_all
  with assms(1) have ne: "b \<noteq> brk w" "b \<noteq> ?q" by auto
  have "load_bytes (Ptr (brk w) 2) 2 (hdr_made w b cs hb)
      = Returns (le16 (htons (20 + u16_of_size (length xs)))) (hdr_made w b cs hb)"
    by (subst load_bytes_block [where bs = hb]) (simp_all add: hdr_made_def hb)
  moreover have "calloc ?n (hdr_made w b cs hb) = Returns (Ptr ?q 0) (?W (replicate ?n 0))"
    unfolding calloc_def alloc_run using assms(3) by (simp add: hdr_made_def) (simp add: packet_made_def)
  moreover have "memcpy (Ptr ?q 0) (Ptr (brk w) 0) 20 (?W (replicate ?n 0)) = Returns () (?W (hb @ replicate (length xs) 0))"
    by (subst memcpy_into [where xs = hb and bs = "replicate ?n 0"]) (simp_all add: packet_made_def hb splice_def)
  moreover have "src_at (heap (?W y)) d xs" for y
    unfolding packet_made_def using src_at_apart [OF assms(6,7)] f ne by simp
  then have "memcpy (Ptr ?q 20) d (length xs) (?W (hb @ replicate (length xs) 0)) = Returns () (?W (hb @ xs))"
    by (subst memcpy_into [where xs = xs and bs = "hb @ replicate (length xs) 0"])
      (simp_all add: packet_made_def hb splice_def)
  moreover have "unat (ntohs (of_le16 (le16 (htons (20 + u16_of_size (length xs)))))) = ?n"
    using unat_total_length [OF assms(8)] by (simp del: le16_htons)
  ultimately show ?thesis
    by (simp add: ipv4_send_def ipv4_finish_def [abs_def] Let_def del: le16_htons ntohs_htons add_2_eq_Suc add_2_eq_Suc')
qed

lemma ipv4_finish_run:
  assumes "id_map w b bs" and "mem_inv w" and "length cs = 8192"
    and hb: "length hb = 20" "take 2 (drop 4 hb) = le16 i"
    and v: "heap v = heap (packet_made w b cs hb q)" "used_ip_id_values v = used_ip_id_values w"
  shows "ipv4_finish (Ptr (brk w) 0) (Ptr (Suc (brk w)) 0) r v
    = Returns (r mod 65536) (v\<lparr>heap := (heap w)(b \<mapsto> Bytes (bits_clear cs (unat i)))\<rparr>)"
proof -
  let ?h = "brk w" and ?q = "Suc (brk w)" and ?cs = "bits_clear cs (unat i)"
  have f: "heap w ?h = None" "heap w ?q = None" using assms(2) by simp_all
  moreover have "heap w b = Some (Bytes bs)" using assms(1) by (simp add: id_map_def)
  ultimately have ne: "b \<noteq> ?h" "b \<noteq> ?q" by auto
  define H where "H = (heap w)(b \<mapsto> Bytes cs, ?h \<mapsto> Bytes hb, ?q \<mapsto> Bytes q)"
  have vh: "heap v = H" using v(1) by (simp add: packet_made_def H_def)
  have "load_bytes (Ptr ?h 4) 2 v = Returns (le16 i) v"
    by (subst load_bytes_block [where bs = hb]) (simp_all add: vh H_def hb)
  moreover have "id_map v b cs" using assms(1,3) v(2) ne by (simp add: id_map_def vh H_def)
  from free_run [OF this] have "free_ipv4_id i v = Returns () (v\<lparr>heap := H(b \<mapsto> Bytes ?cs)\<rparr>)"
    by (simp add: vh)
  moreover have "free (Ptr ?h 0) (v\<lparr>heap := H(b \<mapsto> Bytes ?cs)\<rparr>) = Returns () (v\<lparr>heap := H(b \<mapsto> Bytes ?cs, ?h := None)\<rparr>)"
    by (subst free_block [where x = "Bytes hb"]) (use ne in \<open>simp_all add: H_def\<close>)
  moreover have "free (Ptr ?q 0) (v\<lparr>heap := H(b \<mapsto> Bytes ?cs, ?h := None)\<rparr>)
      = Returns () (v\<lparr>heap := H(b \<mapsto> Bytes ?cs, ?h := None, ?q := None)\<rparr>)"
    by (subst free_block [where x = "Bytes q"]) (use ne in \<open>simp_all add: H_def\<close>)
  moreover have "H(b \<mapsto> Bytes ?cs, ?h := None, ?q := None) = (heap w)(b \<mapsto> Bytes ?cs)"
    using f ne by (auto simp: H_def fun_eq_iff)
  ultimately show ?thesis by (simp add: ipv4_finish_def)
qed

context link_layer begin

lemma ipv4_transmit_run:
  assumes s: "sock_ok c (heap w) p s" "iopts_at (heap w) s io" "dev_ok w"
    and ids: "ids_ok w b bs" "b \<notin> link_foot (heap w) p" "b \<notin> ptr_block d"
    and mem: "mem_inv w" "alloc_ok w (brk w)" "alloc_ok w (Suc (brk w))"
    and data: "src_at (heap w) d xs" "length xs \<le> 65515"
  shows "\<exists>i cs r k n m tr. ipv4_transmit_datagram tx p src dst d (length xs) w = Returns (r mod 65536)
      (w\<lparr>last_block := start_block w, heap := (heap w)(b \<mapsto> Bytes cs), brk := k, inb_count := n,
         sys_count := m, trace := trace w @ tr\<rparr>)
    \<and> brk w \<le> k \<and> length cs = 8192 \<and> insert 0 (bits_elems cs) = insert 0 (bits_elems bs)
    \<and> free_at bs (unat i) \<and> chosen (start_entry w) bs i
    \<and> carries c s (returns_of w) (ipv4_hdr_bytes (sock_hdr s io src dst (length xs) i) @ xs) r tr"
proof -
  have im: "id_map w b bs" using ids(1) by (simp add: ids_ok_def)
  then have hw: "heap w b = Some (Bytes bs)" by (simp add: id_map_def)
  obtain a where a: "p = Ptr a 0" "heap w a = Some (Net_socket s)" using sock [OF s(1)] by blast
  let ?h = "brk w" and ?q = "Suc (brk w)"
  obtain i cs where c: "ipv4_transmit_datagram tx p src dst d (length xs) w
      = ipv4_send tx p (Ptr ?h 0) d (length xs)
          (hdr_made w b cs (ipv4_hdr_bytes (sock_hdr s io src dst (length xs) i)))"
    "length cs = 8192" "free_at bs (unat i)"
    "insert 0 (bits_elems cs) = insert 0 (insert (unat i) (bits_elems bs))" "chosen (start_entry w) bs i"
    using transmit_begins [OF a s(2) ids(1) mem(1,2), of tx src dst d "length xs"] by (elim exE conjE) (rule that)
  define hb where "hb = ipv4_hdr_bytes (sock_hdr s io src dst (length xs) i)"
  have hb: "length hb = 20" "take 2 (drop 2 hb) = le16 (htons (20 + u16_of_size (length xs)))"
    "take 2 (drop 4 hb) = le16 i" by (simp_all add: hb_def sock_hdr_def)
  have f: "heap w ?h = None" "heap w ?q = None" using mem(1) by simp_all
  with hw have ne: "b \<noteq> ?h" "b \<noteq> ?q" by auto
  define W where "W = packet_made w b cs hb (hb @ xs)"
  have "sock_ok c (heap W) p s"
    unfolding W_def packet_made_def using apart [OF s(1) ids(2)] f ne by (simp add: fresh)
  moreover have "dev_ok W" by (rule device [OF s(3)]) (simp_all add: W_def packet_made_def)
  moreover have "bytes_at (heap W) (Ptr ?q 0) (hb @ xs)" by (simp add: W_def packet_made_def)
  moreover have "mem_inv W" using mem(1) ne hw by (auto simp: W_def packet_made_def mem_inv_def)
  moreover have "returns_of W = returns_of w" by (simp add: returns_of_def W_def packet_made_def fun_eq_iff)
  moreover have "length (hb @ xs) = 20 + length xs" using hb by simp
  ultimately obtain r k n m tr where sent: "tx p (Ptr ?q 0) (20 + length xs) W
      = Returns r (W\<lparr>brk := k, inb_count := n, sys_count := m, trace := trace w @ tr\<rparr>)"
    "Suc ?q \<le> k" "carries c s (returns_of w) (hb @ xs) r tr"
    using carried [of c W p s "Ptr ?q 0" "hb @ xs"] data(2) by (auto simp: W_def packet_made_def)
  let ?v = "W\<lparr>brk := k, inb_count := n, sys_count := m, trace := trace w @ tr\<rparr>"
  have "ipv4_finish (Ptr ?h 0) (Ptr ?q 0) r ?v
      = Returns (r mod 65536) (?v\<lparr>heap := (heap w)(b \<mapsto> Bytes (bits_clear cs (unat i)))\<rparr>)"
    by (rule ipv4_finish_run [OF im mem(1) c(2) hb(1,3), of _ "hb @ xs"]) (simp_all add: W_def packet_made_def)
  then have "ipv4_transmit_datagram tx p src dst d (length xs) w
      = Returns (r mod 65536) (?v\<lparr>heap := (heap w)(b \<mapsto> Bytes (bits_clear cs (unat i)))\<rparr>)"
    using sent(1) unfolding c(1) hb_def [symmetric] ipv4_send_builds [OF hw mem(1,3) hb(1,2) data(1) ids(3) data(2)]
      W_def [symmetric] by simp
  moreover have "?v\<lparr>heap := g\<rparr> = w\<lparr>last_block := start_block w, heap := g, brk := k, inb_count := n,
      sys_count := m, trace := trace w @ tr\<rparr>" for g
    by (simp add: W_def packet_made_def)
  ultimately show ?thesis
    using sent(2,3) release_taken [OF c(2-4)] c(3,5) unfolding hb_def
    by (intro exI [of _ i] exI [of _ "bits_clear cs (unat i)"] exI [of _ r] exI [of _ k] exI [of _ n]
        exI [of _ m] exI [of _ tr] conjI) (assumption | simp)+
qed

end

section \<open>Receiving\<close>

text \<open>
  What a receiver that follows RFC 791 does with a whole datagram: check the version, the lengths, the
  checksum, and that the datagram is no fragment of another (offset and "more fragments" are zero),
  and take out the payload.
\<close>

definition rfc791_receive :: "u8 list \<Rightarrow> (ipv4_hdr \<times> u8 list) option" where
  "rfc791_receive bs = (if length bs < 20 then None
     else let h = ipv4_hdr_of (take 20 bs); hl = 4 * unat (ihl h); n = unat (ntohs (hlen h)) in
       if version h \<noteq> 4 \<or> hl < 20 \<or> n < hl \<or> length bs < n \<or> rfc1071_csum (take hl bs) \<noteq> 0
         \<or> ntohs (flags_foff h) AND 0x3FFF \<noteq> 0 then None
       else Some (h, take (n - hl) (drop hl bs)))"

lemma plain_hdr_fixed [simp]:
  "ihl (plain_hdr src dst tv fo tt pt tlen i) = 5" "version (plain_hdr src dst tv fo tt pt tlen i) = 4"
  by (simp_all add: plain_hdr_def with_csum_def)

lemma plain_hdr_flags: "ntohs (flags_foff (plain_hdr src dst tv fo tt pt tlen i)) AND 0x3FFF = fo AND 0x3FFF"
  by (simp add: plain_hdr_def with_csum_def bit.conj_disj_distrib2)

lemma plain_hdr_received:
  assumes "length xs \<le> 65515" and h_def: "h = plain_hdr src dst tv fo tt pt (u16_of_size (length xs)) i"
  shows "rfc791_receive (ipv4_hdr_bytes h @ xs) = (if fo AND 0x3FFF = 0 then Some (h, xs) else None)"
proof -
  have "unat (ntohs (hlen h)) = length xs + 20"
    using unat_total_length [OF assms(1)] by (simp add: h_def)
  moreover have "rfc1071_csum (ipv4_hdr_bytes h) = 0"
    unfolding h_def plain_hdr_def by (rule with_csum_verifies)
  moreover have "ihl h = 5" "version h = 4" by (simp_all add: h_def)
  moreover have "ntohs (flags_foff h) AND 0x3FFF = fo AND 0x3FFF" unfolding h_def by (rule plain_hdr_flags)
  ultimately show ?thesis by (simp add: rfc791_receive_def Let_def)
qed

lemma no_fragment_cases: "(nf :: 1 word) = 0 \<or> nf = 1"
proof -
  have "unat nf < 2 ^ LENGTH(1)" by (rule unsigned_less)
  then have "unat nf = 0 \<or> unat nf = 1" by auto
  then show ?thesis by (metis word_eq_iff_unsigned unsigned_0 unsigned_1)
qed

lemma no_fragment_offset: "(ucast (nf :: 1 word) :: u16) AND 0x3FFF = 0 \<longleftrightarrow> nf = 0"
  using no_fragment_cases [of nf] by auto

lemma sock_hdr_received:
  assumes "length xs \<le> 65515"
  shows "rfc791_receive (ipv4_hdr_bytes (sock_hdr s io src dst (length xs) i) @ xs)
    = (if no_fragment io = 0 then Some (sock_hdr s io src dst (length xs) i, xs) else None)"
  using plain_hdr_received [OF assms sock_hdr_def [of s io src dst "length xs" i]]
  by (simp add: no_fragment_offset)

section \<open>A concrete state\<close>

text \<open>A socket over the given link, an empty bitmap in block 5 and the data in block 6.\<close>

definition demo_net :: "LINK_TYPE \<Rightarrow> u8 list \<Rightarrow> world" where
  "demo_net lt xs = (demo_with (demo_blocks lt @ [Bytes (replicate 8192 0), Bytes xs]))
     \<lparr>used_ip_id_values := Ptr 5 0\<rparr>"

definition demo_iopts :: ipv4_socket_options where
  "demo_iopts = zero_ipv4_socket_options\<lparr>sopt_ttl := 64\<rparr>"

lemma demo_net_simps [simp]:
  "alloc_ok (demo_net lt xs) b" "brk (demo_net lt xs) = 7" "last_block (demo_net lt xs) = 0"
  "trace (demo_net lt xs) = []" "mem_inv (demo_net lt xs)" "memory_ok (demo_net lt xs)"
  "returns_of (demo_net lt xs) k = int k" "\<not> moves (demo_net lt xs) b"
  by (simp_all add: demo_net_def mem_inv_def memory_ok_def returns_of_def)

lemma demo_net_heap [simp]:
  "heap (demo_net lt xs) 0 = Some (Net_socket demo_sock)"
  "heap (demo_net lt xs) (Suc 0) = Some (Link_options \<lparr>link_type = lt, proto = eth_header (Ptr 2 0)\<rparr>)"
  "heap (demo_net lt xs) 3 = Some (Bytes [101, 0])"
  "heap (demo_net lt xs) 4 = Some (Ip_options demo_iopts)"
  "heap (demo_net lt xs) 5 = Some (Bytes (replicate 8192 0))"
  "heap (demo_net lt xs) 6 = Some (Bytes xs)"
  by (simp_all add: demo_net_def demo_iopts_def nth_append)

lemma demo_net_ids: "ids_ok (demo_net lt xs) 5 (replicate 8192 0)"
proof -
  have "block_sum (demo_net lt xs) = 7" by (simp add: block_sum_def demo_net_def)
  moreover have "selectable (demo_net lt xs) (replicate 8192 0)"
    by (rule selectable_small [of _ 0]) simp
  ultimately show ?thesis by (simp add: ids_ok_def id_map_def) (simp add: demo_net_def)
qed

lemma demo_net_iopts: "iopts_at (heap (demo_net lt xs)) demo_sock demo_iopts"
  by (simp add: iopts_at_def) (simp add: demo_sock_def)

lemma demo_net_foot: "5 \<notin> link_foot (heap (demo_net lt xs)) (Ptr 0 0)"
  by (simp add: link_foot_def) (simp add: demo_sock_def)

lemma demo_net_data: "src_at (heap (demo_net lt xs)) (Ptr 6 0) xs"
  by simp

lemma demo_net_uart: "uart_ok (demo_net lt xs)"
  unfolding uart_ok_def
proof
  fix k
  have "ready (uart (demo_net lt xs) (k + 2))" by (simp add: demo_net_def ready_def)
  then show "\<exists>j\<ge>k. ready (uart (demo_net lt xs) j)" by (intro exI [of _ "k + 2"] conjI le_add1)
qed

lemma demo_net_slip: "slip_sock () (heap (demo_net SLIP xs)) (Ptr 0 0) demo_sock"
  by (simp add: slip_sock_def) (simp add: demo_sock_def)

lemma demo_net_eth: "eth_sock (demo_eth, [101]) (heap (demo_net ETH xs)) (Ptr 0 0) demo_sock"
  using eth_sock_demo [of "[Bytes (replicate 8192 0), Bytes xs]"] by (simp add: demo_net_def)

lemmas demo_net_ok = demo_net_iopts demo_net_ids demo_net_foot demo_net_data

section \<open>Properties\<close>

text \<open>C12: a header without options is a header of RFC 791: version 4 and 5 words, the type of service,
  the total length and the flags in network byte order with "don't fragment" always set, time to
  live, protocol and addresses as given, an identifier that was free, and a checksum that
  verifies. The bitmap is the only other memory that changes.\<close>

theorem create_ipv4_hdr_rfc791:
  assumes "ids_ok w b bs" and "mem_inv w" and "alloc_ok w (brk w)"
  shows "\<exists>w' hb i cs. create_ipv4_hdr src dst tv fo tt pt 0 0 ob tlen w = Returns (Ptr (brk w) 0) w'
    \<and> heap w' = (heap w)(b \<mapsto> Bytes cs, brk w \<mapsto> Bytes hb)
    \<and> hb = [0x45, tv] @ be16 (20 + tlen) @ le16 i @ be16 (fo OR 0x4000) @ [tt, pt]
        @ take 2 (drop 10 hb) @ le32 src @ le32 dst
    \<and> rfc1071_csum hb = 0
    \<and> i \<noteq> 0 \<and> unat i \<notin> bits_elems bs
    \<and> insert 0 (bits_elems cs) = insert 0 (insert (unat i) (bits_elems bs))"
proof -
  have im: "id_map w b bs" "block_sum w < 2 ^ 31" "selectable w bs"
    using assms(1) by (simp_all add: ids_ok_def)
  from create_ipv4_hdr_run [OF im assms(2,3), of src dst tv fo tt pt ob tlen] obtain i cs where
    c: "create_ipv4_hdr src dst tv fo tt pt 0 0 ob tlen w = Returns (Ptr (brk w) 0)
      (w\<lparr>brk := Suc (brk w), last_block := start_block w, heap := (heap w)(b \<mapsto> Bytes cs,
        brk w \<mapsto> Bytes (ipv4_hdr_bytes (plain_hdr src dst tv fo tt pt tlen i)))\<rparr>)"
    and f: "free_at bs (unat i)" "insert 0 (bits_elems cs) = insert 0 (insert (unat i) (bits_elems bs))"
    by (elim exE conjE) (rule that)
  define hb where "hb = ipv4_hdr_bytes (plain_hdr src dst tv fo tt pt tlen i)"
  have "nibbles 5 4 = 0x45" by (simp add: nibbles_def)
  then have bytes: "hb = [0x45, tv] @ be16 (20 + tlen) @ le16 i @ be16 (fo OR 0x4000) @ [tt, pt]
        @ le16 (hcsum (plain_hdr src dst tv fo tt pt tlen i)) @ le32 src @ le32 dst"
    by (simp add: hb_def ipv4_hdr_bytes_def plain_hdr_def with_csum_def)
  then have ten: "take 2 (drop 10 hb) = le16 (hcsum (plain_hdr src dst tv fo tt pt tlen i))" by simp
  have v: "rfc1071_csum hb = 0" unfolding hb_def plain_hdr_def by (rule with_csum_verifies)
  have "i \<noteq> 0" "unat i \<notin> bits_elems bs" using f(1) by (auto simp: free_at_def unat_0_iff)
  with c f(2) bytes [folded ten] v show ?thesis
    unfolding hb_def [symmetric] by (intro exI conjI) (assumption | simp)+
qed

theorem create_ipv4_hdr_rfc791_witness:
  "\<exists>w' hb. create_ipv4_hdr 1 2 16 0 64 17 0 0 Null 8 (demo_net SLIP []) = Returns (Ptr 7 0) w'
    \<and> heap w' 7 = Some (Bytes hb) \<and> rfc1071_csum hb = 0"
  using create_ipv4_hdr_rfc791 [OF demo_net_ids [of SLIP "[]"], of 1 2 16 0 64 17 Null 8] by auto

text \<open>C24: only 20 bytes are allocated for a header, so asking for an option (a type or a length)
  writes outside of the block.\<close>

theorem create_ipv4_hdr_options_overflow:
  assumes "ids_ok w b bs" and "mem_inv w" and "alloc_ok w (brk w)"
    and "option_type \<noteq> 0 \<or> opt_len \<noteq> 0"
  shows "create_ipv4_hdr src dst tv fo tt pt option_type opt_len ob tlen w = Faults OutOfBounds"
proof -
  define n where "n = ipv4_hdr_len option_type opt_len"
  define h where "h = \<lparr>ihl = ucast (word_of_nat (n div 4) :: u8), version = 4,
     tos = tv, hlen = htons (u16_of_size (n + unat tlen)), hid = 0,
     flags_foff = htons (fo OR word_of_int (IPV4_FLAGS_value DONT_FRAGMENT * 2 ^ 8)),
     ttl = tt, ptcl = pt, hcsum = 0, hsrc = src, hdst = dst\<rparr>"
  have im: "id_map w b bs" "block_sum w < 2 ^ 31" "selectable w bs"
    using assms(1) by (simp_all add: ids_ok_def)
  have fresh: "heap w (brk w) = None" using assms(2) by simp
  with im(1) have bk: "b \<noteq> brk w" by (auto simp: id_map_def)
  from select_hdr [OF im fresh, where x = "Bytes (ipv4_hdr_bytes h)" and n = "Suc (brk w)"]
  obtain i cs where r: "select_ipv4_id (w\<lparr>brk := Suc (brk w), heap := (heap w)(brk w \<mapsto> Bytes (ipv4_hdr_bytes h))\<rparr>)
      = Returns i (w\<lparr>brk := Suc (brk w), last_block := start_block w, heap := (heap w)(b \<mapsto> Bytes cs,
          brk w \<mapsto> Bytes (ipv4_hdr_bytes h))\<rparr>)"
    by (elim exE conjE) (rule that)
  show ?thesis
    unfolding create_ipv4_hdr_def Let_def n_def [symmetric] h_def [symmetric]
    using assms(3,4) r bk
    by (cases "option_type = 0") (simp_all add: calloc_def alloc_run store_bytes_block splice_all
        allocate_ipv4_id_def splice_hid store_bytes_overrun)
qed

theorem create_ipv4_hdr_options_overflow_witness:
  "create_ipv4_hdr 1 2 0 0 64 17 7 0 Null 8 (demo_net SLIP []) = Faults OutOfBounds"
  by (rule create_ipv4_hdr_options_overflow [OF demo_net_ids]) simp_all

text \<open>C38: \<open>ipv4_parse_tos\<close> is injective in the four fields, but it is not the layout of RFC 791,
  which has the precedence in the three highest bits and delay, throughput and reliability below
  them: the two agree exactly for routine precedence, no reliability, and equal delay and
  throughput.\<close>

theorem ipv4_parse_tos_layout:
  "unat (ipv4_parse_tos so) = unat (pre so) + 8 * unat (low_delay so) + 16 * unat (high_throughput so)
      + 32 * unat (high_reliability so)
   \<and> (ipv4_parse_tos so = push_bit 5 (ucast (pre so)) OR push_bit 4 (ucast (low_delay so))
        OR push_bit 3 (ucast (high_throughput so)) OR push_bit 2 (ucast (high_reliability so))
      \<longleftrightarrow> pre so = 0 \<and> high_reliability so = 0 \<and> low_delay so = high_throughput so)"
proof -
  have b: "unat x = 0 \<or> unat x = 1" for x :: "1 word"
    using unsigned_less [of x, where ?'a = nat] by auto
  have p: "unat x = 0 \<or> unat x = 1 \<or> unat x = 2 \<or> unat x = 3 \<or> unat x = 4 \<or> unat x = 5
      \<or> unat x = 6 \<or> unat x = 7" for x :: "3 word"
    using unsigned_less [of x, where ?'a = nat] by auto
  have b': "x = 0 \<or> x = 1" for x :: "1 word"
    using b [of x] by (auto simp: word_unat_eq_iff)
  have p': "x = 0 \<or> x = 1 \<or> x = 2 \<or> x = 3 \<or> x = 4 \<or> x = 5 \<or> x = 6 \<or> x = 7" for x :: "3 word"
    using p [of x] by (auto simp: word_unat_eq_iff)
  show ?thesis
    using b' [of "low_delay so"] b' [of "high_throughput so"] b' [of "high_reliability so"] p' [of "pre so"]
    unfolding ipv4_parse_tos_def by (elim disjE) simp_all
qed

text \<open>Over SLIP, \<open>ipv4_transmit_datagram\<close> puts exactly the frame of the datagram (a 20 byte
  header, the data) on the serial port, returns its length, header included, gives the identifier
  back and frees both blocks: but for entry 0 of the bitmap the heap is as before.\<close>

theorem ipv4_transmit_slip:
  assumes "slip_sock () (heap w) p s" and "iopts_at (heap w) s io" and "uart_ok w"
    and "ids_ok w b bs" and "b \<notin> link_foot (heap w) p" and "b \<notin> ptr_block d"
    and "mem_inv w" and "memory_ok w" and "src_at (heap w) d xs" and "length xs \<le> 65515"
  shows "\<exists>i cs w' tr. ipv4_transmit_datagram (link_tx transmit) p src dst d (length xs) w
      = Returns (length xs + 20) w'
    \<and> heap w' = (heap w)(b \<mapsto> Bytes cs) \<and> insert 0 (bits_elems cs) = insert 0 (bits_elems bs)
    \<and> trace w' = trace w @ tr
    \<and> polite 0x2f8 False (slip_frame (ipv4_hdr_bytes (sock_hdr s io src dst (length xs) i) @ xs)) tr"
proof -
  from slip.ipv4_transmit_run [OF assms(1-7) _ _ assms(9,10), of transmit src dst] assms(8)
  obtain i cs r k n m tr where *: "ipv4_transmit_datagram (link_tx transmit) p src dst d (length xs) w
      = Returns (r mod 65536) (w\<lparr>last_block := start_block w, heap := (heap w)(b \<mapsto> Bytes cs), brk := k,
          inb_count := n, sys_count := m, trace := trace w @ tr\<rparr>)"
    "insert 0 (bits_elems cs) = insert 0 (bits_elems bs)"
    "slip_carries () s (returns_of w) (ipv4_hdr_bytes (sock_hdr s io src dst (length xs) i) @ xs) r tr"
    by (elim exE conjE meta_impE) (simp_all add: memory_ok_def)
  from *(3) have r: "polite 0x2f8 False (slip_frame (ipv4_hdr_bytes (sock_hdr s io src dst (length xs) i) @ xs)) tr"
    "r mod 65536 = length xs + 20"
    using assms(10) by (simp_all add: slip_carries_def)
  show ?thesis
    by (rule exI [of _ i], rule exI [of _ cs], rule exI [of _ "w\<lparr>last_block := start_block w, heap := (heap w)(b \<mapsto> Bytes cs), brk := k,
      inb_count := n, sys_count := m, trace := trace w @ tr\<rparr>"], rule exI [of _ tr])
      (simp add: *(1) [unfolded r(2)] *(2) r(1))
qed

theorem ipv4_transmit_slip_witness:
  "\<exists>w'. ipv4_transmit_datagram (link_tx lf_os_transmit) (Ptr 0 0) 1 2 (Ptr 6 0) (length [9, 8, 7 :: u8])
      (demo_net SLIP [9, 8, 7]) = Returns 23 w'"
  using ipv4_transmit_slip [OF demo_net_slip demo_net_iopts demo_net_uart demo_net_ids demo_net_foot,
      of "Ptr 6 0" "[9, 8, 7]" "[9, 8, 7]" lf_os_transmit 1 2] by auto

text \<open>C22: over Ethernet on Linux, \<open>ipv4_transmit_datagram\<close> sends one frame: Ethernet header, IP header,
  data. It returns the low 16 bits of what \<open>sendto\<close> returned, so that an error is 65535.
  When there is memory for its blocks, it releases them and the identifier, whatever the system
  calls return.\<close>

theorem ipv4_transmit_linux:
  assumes "eth_sock (e, name) (heap w) p s" and "iopts_at (heap w) s io" and "memory_ok w"
    and "ids_ok w b bs" and "b \<notin> link_foot (heap w) p" and "b \<notin> ptr_block d"
    and "mem_inv w" and "src_at (heap w) d xs" and "length xs \<le> 65515"
  shows "\<exists>i cs w'. ipv4_transmit_datagram (link_tx linux_transmit) p src dst d (length xs) w
      = Returns (size_of_int (returns_of w 1) mod 65536) w'
    \<and> heap w' = (heap w)(b \<mapsto> Bytes cs) \<and> insert 0 (bits_elems cs) = insert 0 (bits_elems bs)
    \<and> trace w' = trace w @ [If_nametoindex name, Sendto (raw_sockfd s)
        (eth_hdr_bytes e @ ipv4_hdr_bytes (sock_hdr s io src dst (length xs) i) @ xs)
        (linux_sockaddr (mac_src e) (returns_of w 0))]"
proof -
  from eth_linux.ipv4_transmit_run [OF assms(1-7) _ _ assms(8,9), of src dst] assms(3)
  obtain i cs r k n m tr where *: "ipv4_transmit_datagram (link_tx linux_transmit) p src dst d (length xs) w
      = Returns (r mod 65536) (w\<lparr>last_block := start_block w, heap := (heap w)(b \<mapsto> Bytes cs), brk := k,
          inb_count := n, sys_count := m, trace := trace w @ tr\<rparr>)"
    "insert 0 (bits_elems cs) = insert 0 (bits_elems bs)"
    "eth_carries linux_calls (e, name) s (returns_of w)
      (ipv4_hdr_bytes (sock_hdr s io src dst (length xs) i) @ xs) r tr"
    by (elim exE conjE meta_impE) (simp_all add: memory_ok_def)
  from *(3) have tr: "tr = [If_nametoindex name, Sendto (raw_sockfd s)
        (eth_hdr_bytes e @ ipv4_hdr_bytes (sock_hdr s io src dst (length xs) i) @ xs)
        (linux_sockaddr (mac_src e) (returns_of w 0))]"
    and r: "r mod 65536 = size_of_int (returns_of w 1) mod 65536"
    by (simp_all add: eth_carries_def linux_calls_def Let_def)
  show ?thesis
    by (rule exI [of _ i], rule exI [of _ cs], rule exI [of _ "w\<lparr>last_block := start_block w, heap := (heap w)(b \<mapsto> Bytes cs), brk := k,
      inb_count := n, sys_count := m, trace := trace w @ tr\<rparr>"])
      (simp add: *(1) [unfolded r] *(2) tr)
qed

theorem ipv4_transmit_linux_witness:
  "\<exists>w' i. ipv4_transmit_datagram (link_tx linux_transmit) (Ptr 0 0) 1 2 (Ptr 6 0) (length [9, 8, 7 :: u8])
      (demo_net ETH [9, 8, 7]) = Returns 1 w'
    \<and> trace w' = [If_nametoindex [101], Sendto 4
        (eth_hdr_bytes demo_eth @ ipv4_hdr_bytes (sock_hdr demo_sock demo_iopts 1 2 (length [9, 8, 7 :: u8]) i)
          @ [9, 8, 7]) (linux_sockaddr [7, 8, 9, 10, 11, 12] 0)]"
proof -
  have "raw_sockfd demo_sock = 4" "mac_src demo_eth = [7, 8, 9, 10, 11, 12]" "size_of_int 1 mod 65536 = 1"
    by (simp_all add: demo_sock_def demo_eth_def size_of_int_def)
  with ipv4_transmit_linux [OF demo_net_eth demo_net_iopts _ demo_net_ids demo_net_foot,
      of "[9, 8, 7]" "Ptr 6 0" "[9, 8, 7]" 1 2]
  show ?thesis by auto
qed

text \<open>C21: what \<open>ipv4_transmit_datagram\<close> sends over SLIP is a header and the data, with the option
  \<open>no_fragment\<close> of the socket as the fragment offset of the header: the flags are "don't fragment"
  and nothing else in any case. So the datagram is received exactly when the option is not set;
  when it is set, the datagram is a fragment at offset 8 of one whose beginning never comes.\<close>

theorem ipv4_no_fragment:
  assumes "slip_sock () (heap w) p s" and "iopts_at (heap w) s io" and "uart_ok w"
    and "ids_ok w b bs" and "b \<notin> link_foot (heap w) p" and "b \<notin> ptr_block d"
    and "mem_inv w" and "memory_ok w" and "src_at (heap w) d xs" and "length xs \<le> 65515"
  shows "\<exists>h dg w' tr. ipv4_transmit_datagram (link_tx transmit) p src dst d (length xs) w = Returns (length dg) w'
    \<and> trace w' = trace w @ tr \<and> polite 0x2f8 False (slip_frame dg) tr
    \<and> dg = ipv4_hdr_bytes h @ xs \<and> ipv4_hdr_of (take 20 dg) = h
    \<and> ntohs (flags_foff h) AND 0x1FFF = ucast (no_fragment io) \<and> ntohs (flags_foff h) AND 0xE000 = 0x4000
    \<and> rfc791_receive dg = (if no_fragment io = 0 then Some (h, xs) else None)"
proof -
  from ipv4_transmit_slip [OF assms, of transmit src dst] obtain i cs w' tr where
    r: "ipv4_transmit_datagram (link_tx transmit) p src dst d (length xs) w = Returns (length xs + 20) w'"
      "trace w' = trace w @ tr"
      "polite 0x2f8 False (slip_frame (ipv4_hdr_bytes (sock_hdr s io src dst (length xs) i) @ xs)) tr"
    by (elim exE conjE) (rule that)
  let ?h = "sock_hdr s io src dst (length xs) i"
  have "length (ipv4_hdr_bytes ?h @ xs) = length xs + 20" by simp
  moreover have "ntohs (flags_foff ?h) AND 0x1FFF = ucast (no_fragment io)"
      "ntohs (flags_foff ?h) AND 0xE000 = 0x4000"
    using no_fragment_cases [of "no_fragment io"] by (auto simp: sock_hdr_def plain_hdr_def with_csum_def)
  moreover have "ipv4_hdr_of (take 20 (ipv4_hdr_bytes ?h @ xs)) = ?h" by simp
  ultimately show ?thesis
    using r sock_hdr_received [OF assms(10), of s io src dst i]
    by (intro exI [of _ ?h] exI [of _ "ipv4_hdr_bytes ?h @ xs"] exI [of _ w'] exI [of _ tr]) simp
qed

theorem ipv4_no_fragment_witness:
  "\<exists>dg w'. ipv4_transmit_datagram (link_tx lf_os_transmit) (Ptr 0 0) 1 2 (Ptr 6 0) (length [9, 8, 7 :: u8])
      (demo_net SLIP [9, 8, 7]) = Returns (length dg) w' \<and> (\<exists>h. rfc791_receive dg = Some (h, [9, 8, 7]))"
proof -
  have "5 \<notin> ptr_block (Ptr 6 0)" "mem_inv (demo_net SLIP [9, 8, 7])" "memory_ok (demo_net SLIP [9, 8, 7])"
    "length [9, 8, 7 :: u8] \<le> 65515" "no_fragment demo_iopts = 0"
    by (simp_all add: demo_iopts_def zero_ipv4_socket_options_def)
  with ipv4_no_fragment [OF demo_net_slip demo_net_iopts demo_net_uart demo_net_ids demo_net_foot this(1-3)
      demo_net_data this(4), of lf_os_transmit 1 2]
  show ?thesis by (simp only: if_True simp_thms) metis
qed

end
