(* ===== verification/Ipv4_Fail.thy ===== *)
theory Ipv4_Fail
  imports Ipv4
begin

text \<open>
  How sending a datagram fails (\<open>ipv4_transmit_datagram\<close> of \<open>ip.c\<close>): data that is too long, no memory for
  the packet, no memory for the header.
\<close>

section \<open>Sending fails\<close>

lemma memcpy_overrun:
  assumes "bytes_at (heap w) s xs" and "n = length xs" and "xs \<noteq> []"
    and "heap w b = Some (Bytes bs)" and "length bs < off + n"
  shows "memcpy (Ptr b off) s n w = Faults OutOfBounds"
  using assms by (simp add: memcpy_run store_bytes_overrun)

text \<open>The total length that is read back from the header, cut to 16 bits.\<close>

lemma length_read:
  "load_bytes (Ptr (brk w) 2) 2 (hdr_made w b cs (ipv4_hdr_bytes (sock_hdr s io src dst n i)))
     = Returns (le16 (htons (20 + u16_of_size n))) (hdr_made w b cs (ipv4_hdr_bytes (sock_hdr s io src dst n i)))"
  by (subst load_bytes_block [where bs = "ipv4_hdr_bytes (sock_hdr s io src dst n i)"])
    (simp_all add: hdr_made_def sock_hdr_def)

lemma total_read: "unat (20 + u16_of_size n) = (20 + n mod 65536) mod 65536"
  by (simp add: unat_word_ariths)

lemmas send_run = ipv4_send_def Let_def total_read

lemma oversize_faults:
  assumes "p = Ptr a 0" "heap w a = Some (Net_socket s)" "iopts_at (heap w) s io"
    and "ids_ok w b bs" and "mem_inv w" and "alloc_ok w (brk w)" "alloc_ok w (Suc (brk w))"
    and "bytes_at (heap w) d xs" and "b \<notin> ptr_block d" and "65515 < length xs"
  shows "ipv4_transmit_datagram tx p src dst d (length xs) w = Faults OutOfBounds"
proof -
  from transmit_begins [OF assms(1-6), of tx src dst d "length xs"] obtain i cs where
    b: "ipv4_transmit_datagram tx p src dst d (length xs) w = ipv4_send tx p (Ptr (brk w) 0) d (length xs)
      (hdr_made w b cs (ipv4_hdr_bytes (sock_hdr s io src dst (length xs) i)))"
    by (elim exE conjE) (rule that)
  define hb where "hb = ipv4_hdr_bytes (sock_hdr s io src dst (length xs) i)"
  define n2 where "n2 = (20 + length xs mod 65536) mod 65536"
  have hb: "length hb = 20" by (simp add: hb_def)
  have "heap w b = Some (Bytes bs)" using assms(4) by (simp add: ids_ok_def id_map_def)
  then have ne: "b \<noteq> brk w" "b \<noteq> Suc (brk w)" "heap w (brk w) = None" "heap w (Suc (brk w)) = None"
    using assms(5) by auto
  let ?q = "Suc (brk w)"
  define W where "W = (\<lambda>q. w\<lparr>last_block := start_block w,
    heap := (heap w)(b \<mapsto> Bytes cs, brk w \<mapsto> Bytes hb, ?q \<mapsto> Bytes q), brk := Suc ?q\<rparr>)"
  have c: "calloc n2 (hdr_made w b cs hb) = Returns (Ptr ?q 0) (W (replicate n2 0))"
    using assms(7) by (simp add: calloc_def alloc_run hdr_made_def W_def)
  have l: "load_bytes (Ptr (brk w) 2) 2 (hdr_made w b cs hb)
      = Returns (le16 (htons (20 + u16_of_size (length xs)))) (hdr_made w b cs hb)"
    unfolding hb_def by (rule length_read)
  have small: "n2 < length xs + 20"
  proof (cases "length xs < 65536")
    case True
    then have "n2 = length xs + 20 - 65536" using assms(10) by (simp add: n2_def le_mod_geq)
    with assms(10) show ?thesis by linarith
  next
    case False
    have "n2 < 65536" unfolding n2_def by (rule mod_less_divisor) simp
    with False show ?thesis by linarith
  qed
  have h: "bytes_at (heap (W q)) (Ptr (brk w) 0) hb" for q by (simp add: W_def)
  have d: "bytes_at (heap (W q)) d xs" for q
    using assms(8,9) ne by (simp add: W_def bytes_at_apart)
  have q: "heap (W r) ?q = Some (Bytes r)" for r by (simp add: W_def)
  show ?thesis
  proof (cases "n2 < 20")
    case True
    have "memcpy (Ptr ?q 0) (Ptr (brk w) 0) 20 (W (replicate n2 0)) = Faults OutOfBounds"
      using True hb by (intro memcpy_overrun [OF h _ _ q]) auto
    with c l show ?thesis
      by (simp add: b send_run n2_def hb_def [symmetric] del: le16_htons add_2_eq_Suc add_2_eq_Suc')
  next
    case False
    have "memcpy (Ptr ?q 0) (Ptr (brk w) 0) 20 (W (replicate n2 0)) = Returns () (W (splice 0 hb (replicate n2 0)))"
      using False hb by (subst memcpy_into [OF src_atI [OF h] _ q]) (simp_all add: W_def)
    moreover have "memcpy (Ptr ?q 20) d (length xs) (W (splice 0 hb (replicate n2 0))) = Faults OutOfBounds"
      using small assms(10) False hb by (intro memcpy_overrun [OF d _ _ q]) auto
    ultimately show ?thesis
      using c l by (simp add: b send_run n2_def hb_def [symmetric] del: le16_htons add_2_eq_Suc add_2_eq_Suc')
  qed
qed

lemma no_memory_run:
  assumes "p = Ptr a 0" "heap w a = Some (Net_socket s)" "iopts_at (heap w) s io"
    and "ids_ok w b bs" and "mem_inv w" and "alloc_ok w (brk w)" "\<not> alloc_ok w (Suc (brk w))"
  shows "\<exists>i cs. ipv4_transmit_datagram tx p src dst d n w = Returns SIZE_MAX
      (w\<lparr>last_block := start_block w, brk := Suc (Suc (brk w)), heap := (heap w)(b \<mapsto> Bytes cs)\<rparr>)
    \<and> length cs = 8192 \<and> free_at bs (unat (i :: u16))
    \<and> insert 0 (bits_elems cs) = insert 0 (insert (unat i) (bits_elems bs))"
proof -
  from transmit_begins [OF assms(1-6), of tx src dst d n] obtain i cs where
    b: "ipv4_transmit_datagram tx p src dst d n w = ipv4_send tx p (Ptr (brk w) 0) d n
      (hdr_made w b cs (ipv4_hdr_bytes (sock_hdr s io src dst n i)))"
    "length cs = 8192" "free_at bs (unat i)"
    "insert 0 (bits_elems cs) = insert 0 (insert (unat i) (bits_elems bs))"
    by (elim exE conjE) (rule that)
  define hb where "hb = ipv4_hdr_bytes (sock_hdr s io src dst n i)"
  have "heap w b = Some (Bytes bs)" using assms(4) by (simp add: ids_ok_def id_map_def)
  then have ne: "b \<noteq> brk w" "heap w (brk w) = None" using assms(5) by auto
  define W where "W = (\<lambda>h. w\<lparr>last_block := start_block w, brk := Suc (Suc (brk w)), heap := h\<rparr>)"
  have l: "load_bytes (Ptr (brk w) 2) 2 (hdr_made w b cs hb)
      = Returns (le16 (htons (20 + u16_of_size n))) (hdr_made w b cs hb)"
    unfolding hb_def by (rule length_read)
  have c: "calloc m (hdr_made w b cs hb)
      = Returns Null (W ((heap w)(b \<mapsto> Bytes cs, brk w \<mapsto> Bytes hb)))" for m
    using assms(7) by (simp add: calloc_def alloc_run hdr_made_def W_def)
  have "(heap w)(b \<mapsto> Bytes cs, brk w := None) = (heap w)(b \<mapsto> Bytes cs)"
    using ne by (auto simp: fun_eq_iff)
  then have "free (Ptr (brk w) 0) (W ((heap w)(b \<mapsto> Bytes cs, brk w \<mapsto> Bytes hb)))
      = Returns () (W ((heap w)(b \<mapsto> Bytes cs)))"
    by (subst free_block [where x = "Bytes hb"]) (simp_all add: W_def)
  then have "ipv4_transmit_datagram tx p src dst d n w = Returns SIZE_MAX (W ((heap w)(b \<mapsto> Bytes cs)))"
    using c l by (simp add: b(1) send_run hb_def [symmetric] del: le16_htons add_2_eq_Suc add_2_eq_Suc')
  with b(2-4) show ?thesis unfolding W_def by (intro exI conjI)
qed

lemma no_header_run:
  assumes "heap w a = Some (Net_socket s)" "iopts_at (heap w) s io" and "\<not> alloc_ok w (brk w)"
  shows "ipv4_transmit_datagram tx (Ptr a 0) src dst d n w = Returns SIZE_MAX (w\<lparr>brk := Suc (brk w)\<rparr>)"
proof -
  obtain j where "ip_options s = Ptr j 0" "heap w j = Some (Ip_options io)"
    using assms(2) by (auto simp: iopts_at_def)
  then show ?thesis
    using assms(1,3) by (simp add: ipv4_transmit_datagram_def load_sock_run load_iopts_run create_ipv4_hdr_def
        Let_def calloc_def alloc_run)
qed

section \<open>Properties\<close>

text \<open>C23: data that does not fit into 65535 bytes together with the header is not refused: the
  total length wraps around and the copy runs over the end of the packet's block.\<close>

theorem ipv4_transmit_oversize:
  assumes "heap w a = Some (Net_socket s)" and "iopts_at (heap w) s io"
    and "ids_ok w b bs" and "mem_inv w" and "memory_ok w"
    and "bytes_at (heap w) d xs" and "b \<notin> ptr_block d" and "65515 < length xs"
  shows "ipv4_transmit_datagram link (Ptr a 0) src dst d (length xs) w = Faults OutOfBounds"
  by (rule oversize_faults [OF refl assms(1-4) _ _ assms(6-8)])
    (use assms(5) in \<open>simp_all add: memory_ok_def\<close>)

theorem ipv4_transmit_oversize_witness:
  "ipv4_transmit_datagram (link_tx linux_transmit) (Ptr 0 0) 1 2 (Ptr 6 0) (length (replicate 65516 (7 :: u8)))
     (demo_net ETH (replicate 65516 7)) = Faults OutOfBounds"
  by (rule ipv4_transmit_oversize [OF _ demo_net_iopts demo_net_ids]) simp_all

text \<open>C25: when there is memory for the header but not for the packet, -1 is returned and the header
  freed, but its identifier stays marked as used for good.\<close>

theorem ipv4_transmit_no_memory_leaks_id:
  assumes "heap w a = Some (Net_socket s)" and "iopts_at (heap w) s io"
    and "ids_ok w b bs" and "mem_inv w" and "alloc_ok w (brk w)" and "\<not> alloc_ok w (Suc (brk w))"
  shows "\<exists>i cs w'. ipv4_transmit_datagram link (Ptr a 0) src dst d n w = Returns SIZE_MAX w'
    \<and> heap w' = (heap w)(b \<mapsto> Bytes cs) \<and> i \<noteq> 0 \<and> i \<notin> bits_elems bs \<and> i \<in> bits_elems cs"
proof -
  from no_memory_run [OF refl assms, of link src dst d n] obtain i cs where
    r: "ipv4_transmit_datagram link (Ptr a 0) src dst d n w = Returns SIZE_MAX
      (w\<lparr>last_block := start_block w, brk := Suc (Suc (brk w)), heap := (heap w)(b \<mapsto> Bytes cs)\<rparr>)"
    "free_at bs (unat (i :: u16))" "insert 0 (bits_elems cs) = insert 0 (insert (unat i) (bits_elems bs))"
    by (elim exE conjE) (rule that)
  have n: "unat i \<noteq> 0" "unat i \<notin> bits_elems bs" using r(2) by (simp_all add: free_at_def)
  moreover have "unat i \<in> insert 0 (bits_elems cs)" unfolding r(3) by simp
  with n(1) have "unat i \<in> bits_elems cs" by simp
  moreover define w' where "w' = w\<lparr>last_block := start_block w, brk := Suc (Suc (brk w)),
    heap := (heap w)(b \<mapsto> Bytes cs)\<rparr>"
  have "ipv4_transmit_datagram link (Ptr a 0) src dst d n w = Returns SIZE_MAX w'"
    "heap w' = (heap w)(b \<mapsto> Bytes cs)" using r(1) by (simp_all add: w'_def)
  ultimately show ?thesis by blast
qed

theorem ipv4_transmit_no_memory_leaks_id_witness:
  "\<exists>w'. ipv4_transmit_datagram (link_tx linux_transmit) (Ptr 0 0) 1 2 (Ptr 6 0) 1
      (demo_net ETH [9]\<lparr>alloc_ok := \<lambda>b. b < 8\<rparr>) = Returns SIZE_MAX w'"
proof -
  let ?w = "demo_net ETH [9]\<lparr>alloc_ok := \<lambda>b. b < 8\<rparr>"
  have "iopts_at (heap ?w) demo_sock demo_iopts" using demo_net_iopts by simp
  moreover have "block_sum ?w = block_sum (demo_net ETH [9])" by (simp add: block_sum_def)
  then have "ids_ok ?w 5 (replicate 8192 0)" using demo_net_ids [of ETH "[9]"]
    by (simp add: ids_ok_def id_map_def selectable_def start_entry_def start_block_def)
  moreover have "mem_inv ?w" using demo_net_simps(5) [of ETH "[9]"] by (simp add: mem_inv_def)
  ultimately show ?thesis
    using ipv4_transmit_no_memory_leaks_id [of ?w 0 demo_sock demo_iopts 5 "replicate 8192 0"
        "link_tx linux_transmit" 1 2 "Ptr 6 0" 1] by auto
qed

end
