(* ===== verification/Udp.thy ===== *)
theory Udp
  imports Ipv4_Fail
begin

text \<open>
  UDP, \<open>udp.c\<close>: making a header and sending a message. The block of the header is resized to
  its length field as it reads in network byte order, and the data is copied through the old
  pointer: it is shown for which lengths and behaviours of \<open>realloc\<close> sending works, what it sends
  then, and how it fails otherwise.
\<close>

section \<open>The operations\<close>

text \<open>The lengths are \<open>uint16_t\<close>; the length field is at byte 4.\<close>

definition create_udp_hdr :: "u16 \<Rightarrow> u16 \<Rightarrow> ptr \<Rightarrow> u16 \<Rightarrow> ptr cprog" where
  "create_udp_hdr sport dport data n =
     bindp (calloc 8) (\<lambda>ret.
     bindp (assertp (ret \<noteq> Null)) (\<lambda>_.
     bindp (store_bytes ret (udp_hdr_bytes \<lparr>usrc = htons sport, udst = htons dport,
       ulen = htons (u16_of_size (unat n + 8)), ucsum = htons 0\<rparr>)) (\<lambda>_.
     retp ret)))"

definition udp_send :: "(ptr \<Rightarrow> ptr \<Rightarrow> nat \<Rightarrow> nat cprog) \<Rightarrow>
    ptr \<Rightarrow> u32 \<Rightarrow> u32 \<Rightarrow> u16 \<Rightarrow> u16 \<Rightarrow> ptr \<Rightarrow> nat \<Rightarrow> nat cprog" where
  "udp_send link sock src_addr dst_addr sport dport data n =
     bindp (create_udp_hdr sport dport data (u16_of_size n)) (\<lambda>uhdr.
     if uhdr = Null then retp 0
     else
       bindp (load_bytes (POINTER_ADD uhdr 4) 2) (\<lambda>lenb.
       bindp (realloc uhdr (unat (of_le16 lenb))) (\<lambda>packet.
       if packet = Null then bindp (free uhdr) (\<lambda>_. retp 0)
       else
         bindp (memcpy (POINTER_ADD uhdr 8) data n) (\<lambda>_.
         bindp (ipv4_transmit_datagram link sock src_addr dst_addr packet (size_add 8 n)) (\<lambda>sent.
         bindp (free packet) (\<lambda>_.
         retp sent))))))"

section \<open>The message\<close>

text \<open>The header of a message, and what a receiver of RFC 768 does with a datagram's payload.\<close>

definition message_hdr :: "u16 \<Rightarrow> u16 \<Rightarrow> nat \<Rightarrow> u8 list" where
  "message_hdr sport dport n = be16 sport @ be16 dport @ be16 (u16_of_size (n + 8)) @ [0, 0]"

definition rfc768_receive :: "u8 list \<Rightarrow> (u16 \<times> u16 \<times> u8 list) option" where
  "rfc768_receive bs = (if length bs < 8 then None
     else let h = udp_hdr_of (take 8 bs); n = unat (ntohs (ulen h)) in
       if n < 8 \<or> length bs < n \<or> ucsum h \<noteq> 0 then None
       else Some (ntohs (usrc h), ntohs (udst h), take (n - 8) (drop 8 bs)))"

lemma length_message_hdr [simp]: "length (message_hdr sp dp n) = 8"
  by (simp add: message_hdr_def)

lemma u16_of_size_add: "u16_of_size (unat (u16_of_size n) + 8) = u16_of_size (n + 8)"
  by (simp add: word_unat_eq_iff mod_add_left_eq)

lemma htons_0 [simp]: "htons 0 = 0"
  by (simp add: htons_def bswap_16_def)

lemma message_hdr_bytes:
  "udp_hdr_bytes \<lparr>usrc = htons sp, udst = htons dp, ulen = htons (u16_of_size (n + 8)), ucsum = 0\<rparr>
     = message_hdr sp dp n"
  by (simp add: udp_hdr_bytes_def message_hdr_def) (simp add: le16_def)

lemma message_received:
  assumes "length xs \<le> 65527"
  shows "rfc768_receive (message_hdr sp dp (length xs) @ xs) = Some (sp, dp, xs)"
proof -
  have "(length xs + 8) mod 65536 = length xs + 8" using assms by simp
  then show ?thesis
    by (simp add: rfc768_receive_def message_hdr_bytes [symmetric] udp.dec_enc)
qed

lemma create_udp_hdr_run [exec]:
  "create_udp_hdr sp dp d (u16_of_size n) w =
    (if alloc_ok w (brk w)
     then Returns (Ptr (brk w) 0) (w\<lparr>heap := (heap w)(brk w \<mapsto> Bytes (message_hdr sp dp n)), brk := Suc (brk w)\<rparr>)
     else Faults AssertFailed)"
  by (simp add: create_udp_hdr_def calloc_def alloc_run store_bytes_block splice_all
      u16_of_size_add [simplified] message_hdr_bytes)

text \<open>The size the block is given: the two bytes of the length swapped.\<close>

definition realloc_size :: "nat \<Rightarrow> nat" where
  "realloc_size n = 256 * ((n + 8) mod 256) + (n + 8) div 256 mod 256"

lemma length_field: "take 2 (drop 4 (message_hdr sp dp n)) = be16 (u16_of_size (n + 8))"
  by (simp add: message_hdr_def)

lemma realloc_size_read: "unat (of_le16 (be16 (u16_of_size (n + 8)))) = realloc_size n"
proof -
  have "unat (of_le16 (be16 (u16_of_size (n + 8)))) = unat (bswap_16 (u16_of_size (n + 8)))"
    by (simp add: be16_def flip: le16_bswap_16)
  moreover have "m mod 65536 mod 256 = m mod 256" for m :: nat
    by (rule mod_mod_cancel) simp
  moreover have "m mod 65536 div 256 = m div 256 mod 256" for m :: nat
    by (simp add: mod_mult2_eq [of m 256 256, simplified])
  ultimately show ?thesis by (simp add: unat_bswap_16 realloc_size_def)
qed

text \<open>The lengths that fit: the low byte of the length is not less than its high byte.\<close>

definition udp_fits :: "nat \<Rightarrow> bool" where
  "udp_fits n \<longleftrightarrow> n + 8 < 65536 \<and> (n + 8) div 256 \<le> (n + 8) mod 256"

lemma realloc_size_less: "realloc_size n < 65536"
proof -
  have "(n + 8) mod 256 < 256" "(n + 8) div 256 mod 256 < 256" by simp_all
  then show ?thesis unfolding realloc_size_def by linarith
qed

lemma udp_fits_iff: "udp_fits n \<longleftrightarrow> n + 8 \<le> realloc_size n"
proof (cases "n + 8 < 65536")
  case True
  then have "(n + 8) div 256 mod 256 = (n + 8) div 256" by (simp add: div_less_iff_less_mult)
  moreover have glue: "m = 256 * q + r \<Longrightarrow> m \<le> 256 * r + q \<longleftrightarrow> q \<le> r" for m q r :: nat
    by linarith
  have "n + 8 \<le> 256 * ((n + 8) mod 256) + (n + 8) div 256 \<longleftrightarrow> (n + 8) div 256 \<le> (n + 8) mod 256"
    by (rule glue) (rule mult_div_mod_eq [symmetric])
  ultimately show ?thesis
    using True unfolding udp_fits_def realloc_size_def by simp
next
  case False
  with realloc_size_less [of n] show ?thesis unfolding udp_fits_def by linarith
qed

lemma realloc_size_0: "realloc_size n = 0 \<longleftrightarrow> (n + 8) mod 65536 = 0"
proof -
  have "m mod 65536 = 256 * (m div 256 mod 256) + m mod 256" for m :: nat
    by (simp add: mod_mult2_eq [of m 256 256, simplified])
  then show ?thesis unfolding realloc_size_def by auto
qed

section \<open>Sending\<close>

text \<open>The first steps of every message: the header is made and its block resized.\<close>

lemma block_length_read:
  "load_bytes (Ptr (brk w) 4) 2 (w\<lparr>heap := (heap w)(brk w \<mapsto> Bytes (message_hdr sp dp n)), brk := m\<rparr>)
     = Returns (be16 (u16_of_size (n + 8))) (w\<lparr>heap := (heap w)(brk w \<mapsto> Bytes (message_hdr sp dp n)), brk := m\<rparr>)"
  by (subst load_bytes_block [where bs = "message_hdr sp dp n"]) (simp_all add: length_field)

text \<open>The state with the header's block resized in place, holding \<open>bs\<close>.\<close>

definition resized :: "world \<Rightarrow> u8 list \<Rightarrow> world" where
  "resized w bs = w\<lparr>heap := (heap w)(brk w \<mapsto> Bytes bs), brk := Suc (Suc (brk w))\<rparr>"

definition resized_bytes :: "world \<Rightarrow> u16 \<Rightarrow> u16 \<Rightarrow> nat \<Rightarrow> u8 list" where
  "resized_bytes w sp dp n = take (realloc_size n) (message_hdr sp dp n)
     @ map (junk w (Suc (brk w))) [8..<realloc_size n]"

lemma length_resized_bytes: "length (resized_bytes w sp dp n) = realloc_size n"
  by (simp add: resized_bytes_def)

lemma realloc_in_place:
  assumes "mem_inv w" and "alloc_ok w (Suc (brk w))" and "\<not> moves w (Suc (brk w))" and "realloc_size n \<noteq> 0"
  shows "realloc (Ptr (brk w) 0) (realloc_size n)
      (w\<lparr>heap := (heap w)(brk w \<mapsto> Bytes (message_hdr sp dp n)), brk := Suc (brk w)\<rparr>)
    = Returns (Ptr (brk w) 0) (resized w (resized_bytes w sp dp n))"
  using assms by (simp add: realloc.simps resized_def resized_bytes_def)

text \<open>
  A message that fits, in a block that stays where it is: the datagram is sent from a state that
  differs in the two new blocks only.
\<close>

lemma udp_send_begins:
  assumes "mem_inv w" and "alloc_ok w (brk w)" and "alloc_ok w (Suc (brk w))" and "\<not> moves w (Suc (brk w))"
    and "src_at (heap w) d xs" and "udp_fits (length xs)"
  shows "\<exists>rest. udp_send link p src dst sp dp d (length xs) w
    = bindp (ipv4_transmit_datagram link p src dst (Ptr (brk w) 0) (length (message_hdr sp dp (length xs) @ xs)))
        (\<lambda>sent. bindp (free (Ptr (brk w) 0)) (\<lambda>_. retp sent))
        (resized w ((message_hdr sp dp (length xs) @ xs) @ rest))"
proof -
  let ?n = "length xs" and ?m = "message_hdr sp dp (length xs)"
  have fit: "?n + 8 \<le> realloc_size ?n" using assms(6) by (simp add: udp_fits_iff)
  then have nz: "realloc_size ?n \<noteq> 0" by simp
  define ys where "ys = map (junk w (Suc (brk w))) [8..<realloc_size ?n]"
  have rb: "resized_bytes w sp dp ?n = ?m @ ys"
    using fit by (simp add: resized_bytes_def ys_def)
  have ly: "length ys = realloc_size ?n - 8" by (simp add: ys_def)
  have "heap w (brk w) = None" using assms(1) by simp
  then have "memcpy (Ptr (brk w) 8) d ?n (resized w (?m @ ys))
      = Returns () (resized w ((?m @ xs) @ drop ?n ys))"
    using assms(5) fit ly
    by (subst memcpy_into [where xs = xs and bs = "?m @ ys"]) (simp_all add: resized_def splice_def)
  moreover have "size_add 8 ?n = length (?m @ xs)"
    using assms(6) by (simp add: udp_fits_def)
  ultimately show ?thesis
    using assms(2) realloc_in_place [OF assms(1,3,4) nz, of sp dp] rb
    by (intro exI [of _ "drop ?n ys"])
      (simp add: udp_send_def create_udp_hdr_run block_length_read realloc_size_read
        del: add_2_eq_Suc add_2_eq_Suc')
qed

lemma ids_ok_other:
  assumes "ids_ok w b bs" and "used_ip_id_values w' = used_ip_id_values w" and "last_block w' = last_block w"
    and "rand_of w' = rand_of w" and "heap w' b = heap w b"
  shows "ids_ok w' b bs"
proof -
  have "block_sum w' = block_sum w" using assms(3,4) by (simp add: block_sum_def)
  with assms show ?thesis
    by (simp add: ids_ok_def id_map_def selectable_def start_entry_def start_block_def)
qed

text \<open>The resized state can send as well.\<close>

lemma resized_simps [simp]:
  "heap (resized w ys) = (heap w)(brk w \<mapsto> Bytes ys)" "alloc_ok (resized w ys) = alloc_ok w"
  "uart (resized w ys) = uart w" "brk (resized w ys) = Suc (Suc (brk w))" "trace (resized w ys) = trace w"
  "returns_of (resized w ys) = returns_of w" "errno_of (resized w ys) = errno_of w"
  "used_ip_id_values (resized w ys) = used_ip_id_values w" "env.truncate (resized w ys) = env.truncate w"
  by (simp_all add: resized_def returns_of_def env.truncate_def fun_eq_iff)

lemma resized_start [simp]:
  "start_block (resized w ys) = start_block w" "start_entry (resized w ys) = start_entry w"
  by (simp_all add: resized_def start_entry_def start_block_def block_sum_def)

lemma resized_ok:
  assumes "mem_inv w" and "ids_ok w b bs" and "iopts_at (heap w) s io"
  shows "mem_inv (resized w ys)" and "ids_ok (resized w ys) b bs" and "iopts_at (heap (resized w ys)) s io"
    and "b \<noteq> brk w" and "heap w (brk w) = None"
proof -
  show f: "heap w (brk w) = None" using assms(1) by simp
  have "heap w b = Some (Bytes bs)" using assms(2) by (simp add: ids_ok_def id_map_def)
  with f show ne: "b \<noteq> brk w" by auto
  show "mem_inv (resized w ys)" using assms(1) by (simp add: mem_inv_def)
  show "ids_ok (resized w ys) b bs"
    by (rule ids_ok_other [OF assms(2)]) (use ne in \<open>simp_all add: resized_def\<close>)
  show "iopts_at (heap (resized w ys)) s io" using iopts_at_fresh [OF assms(3) f] by simp
qed

text \<open>What sending keeps of the state beside the memory: the outside world and the bitmap's address.\<close>

definition kept :: "world \<Rightarrow> world \<Rightarrow> bool" where
  "kept w w' \<longleftrightarrow> env.truncate w' = env.truncate w \<and> used_ip_id_values w' = used_ip_id_values w \<and> brk w \<le> brk w'"

lemma kept_env:
  assumes "kept w w'"
  shows "alloc_ok w' = alloc_ok w" and "moves w' = moves w" and "rand_of w' = rand_of w" and "uart w' = uart w"
    and "used_ip_id_values w' = used_ip_id_values w"
  using assms by (simp_all add: kept_def env.truncate_def)

lemma kept_mem_inv:
  assumes "kept w w'" and "mem_inv w" and "heap w' = (heap w)(b := x)" and "heap w b \<noteq> None"
  shows "mem_inv w'"
  using assms by (auto simp: kept_def mem_inv_def)

context link_layer begin

lemma udp_send_kept:
  assumes s: "sock_ok c (heap w) p s" "iopts_at (heap w) s io" "dev_ok w"
    and ids: "ids_ok w b bs" "b \<notin> link_foot (heap w) p"
    and mem: "mem_inv w" "memory_ok w" "\<not> moves w (Suc (brk w))"
    and data: "src_at (heap w) d xs" "udp_fits (length xs)" "length xs \<le> 65507"
  shows "\<exists>i cs r w' tr. udp_send tx p src dst sp dp d (length xs) w = Returns (r mod 65536) w'
    \<and> kept w w' \<and> length cs = 8192 \<and> chosen (start_entry w) bs i \<and> last_block w' = start_block w
    \<and> heap w' = (heap w)(b \<mapsto> Bytes cs) \<and> insert 0 (bits_elems cs) = insert 0 (bits_elems bs)
    \<and> trace w' = trace w @ tr
    \<and> carries c s (returns_of w) (ipv4_hdr_bytes (sock_hdr s io src dst (length xs + 8) i)
        @ message_hdr sp dp (length xs) @ xs) r tr"
proof -
  let ?m = "message_hdr sp dp (length xs) @ xs"
  have ok: "alloc_ok w k" for k using mem(2) by (simp add: memory_ok_def)
  obtain rest where u: "udp_send tx p src dst sp dp d (length xs) w
    = bindp (ipv4_transmit_datagram tx p src dst (Ptr (brk w) 0) (length ?m))
        (\<lambda>sent. bindp (free (Ptr (brk w) 0)) (\<lambda>_. retp sent)) (resized w (?m @ rest))"
    using udp_send_begins [OF mem(1) ok ok mem(3) data(1,2), of tx p src dst sp dp] by blast
  define w1 where "w1 = resized w (?m @ rest)"
  note ok1 = resized_ok(1-3) [OF mem(1) ids(1) s(2), of "?m @ rest", folded w1_def]
    resized_ok(4,5) [OF mem(1) ids(1) s(2)]
  have p: "sock_ok c (heap w1) p s" "dev_ok w1" "b \<notin> link_foot (heap w1) p" "b \<notin> ptr_block (Ptr (brk w) 0)"
    "alloc_ok w1 k" "src_at (heap w1) (Ptr (brk w) 0) ?m" "length ?m \<le> 65515" for k
    using fresh [OF s(1) ok1(5)] device [OF s(3)] foot [OF s(1) ok1(5)] ids(2) ok1(4) ok data(3)
    by (simp_all add: w1_def)
  obtain i cs r k n m tr where t:
    "ipv4_transmit_datagram tx p src dst (Ptr (brk w) 0) (length ?m) w1 = Returns (r mod 65536)
      (w1\<lparr>last_block := start_block w1, heap := (heap w1)(b \<mapsto> Bytes cs), brk := k, inb_count := n,
         sys_count := m, trace := trace w1 @ tr\<rparr>)"
    "brk w1 \<le> k" "length cs = 8192" "insert 0 (bits_elems cs) = insert 0 (bits_elems bs)"
    "chosen (start_entry w1) bs i"
    "carries c s (returns_of w1) (ipv4_hdr_bytes (sock_hdr s io src dst (length ?m) i) @ ?m) r tr"
    using ipv4_transmit_run [OF p(1) ok1(3) p(2) ok1(2) p(3,4) ok1(1) p(5) p(5) p(6,7), of src dst]
    by (elim exE conjE) (rule that)
  define w2 where "w2 = w1\<lparr>last_block := start_block w1, heap := (heap w1)(b \<mapsto> Bytes cs), brk := k,
    inb_count := n, sys_count := m, trace := trace w1 @ tr\<rparr>"
  define w3 where "w3 = w2\<lparr>heap := (heap w2)(brk w := None)\<rparr>"
  have "free (Ptr (brk w) 0) w2 = Returns () w3"
    unfolding w3_def by (rule free_block [where x = "Bytes (?m @ rest)"]) (use ok1(4) in \<open>simp add: w2_def w1_def\<close>)
  then have "udp_send tx p src dst sp dp d (length xs) w = Returns (r mod 65536) w3"
    using t(1) unfolding u w1_def [symmetric] w2_def [symmetric] by simp
  moreover have "heap w3 = (heap w)(b \<mapsto> Bytes cs)"
    using ok1(4,5) by (auto simp: w3_def w2_def w1_def fun_eq_iff)
  moreover have "trace w3 = trace w @ tr" by (simp add: w3_def w2_def w1_def)
  moreover have "carries c s (returns_of w) (ipv4_hdr_bytes (sock_hdr s io src dst (length xs + 8) i) @ ?m) r tr"
    using t(6) by (simp add: w1_def add.commute)
  moreover have "kept w w3"
    using t(2) unfolding kept_def by (simp add: w3_def w2_def w1_def env.truncate_def) (simp add: resized_def)
  moreover have "last_block w3 = start_block w" by (simp add: w3_def w2_def w1_def)
  moreover have "chosen (start_entry w) bs i" using t(5) by (simp add: w1_def)
  ultimately show ?thesis using t(3,4) by (intro exI conjI)
qed

lemma udp_send_run:
  assumes s: "sock_ok c (heap w) p s" "iopts_at (heap w) s io" "dev_ok w"
    and ids: "ids_ok w b bs" "b \<notin> link_foot (heap w) p"
    and mem: "mem_inv w" "memory_ok w" "\<not> moves w (Suc (brk w))"
    and data: "src_at (heap w) d xs" "udp_fits (length xs)" "length xs \<le> 65507"
  shows "\<exists>i cs r w' tr. udp_send tx p src dst sp dp d (length xs) w = Returns (r mod 65536) w'
    \<and> heap w' = (heap w)(b \<mapsto> Bytes cs) \<and> insert 0 (bits_elems cs) = insert 0 (bits_elems bs)
    \<and> trace w' = trace w @ tr
    \<and> carries c s (returns_of w) (ipv4_hdr_bytes (sock_hdr s io src dst (length xs + 8) i)
        @ message_hdr sp dp (length xs) @ xs) r tr"
  using udp_send_kept [OF assms, of src dst sp dp] by (elim exE conjE) (intro exI conjI)

end

section \<open>Failing\<close>

lemma memcpy_freed:
  assumes "bytes_at (heap w) s xs" and "n = length xs" and "xs \<noteq> []" and "heap w b = None" and "b < brk w"
  shows "memcpy (Ptr b off) s n w = Faults UseAfterFree"
  using assms by (simp add: memcpy_run store_bytes_freed)

lemma realloc_moved:
  assumes "mem_inv w" and "alloc_ok w (Suc (brk w))" and "moves w (Suc (brk w))" and "realloc_size n \<noteq> 0"
  shows "realloc (Ptr (brk w) 0) (realloc_size n)
      (w\<lparr>heap := (heap w)(brk w \<mapsto> Bytes (message_hdr sp dp n)), brk := Suc (brk w)\<rparr>)
    = Returns (Ptr (Suc (brk w)) 0) (w\<lparr>heap := (heap w)(Suc (brk w) \<mapsto> Bytes (resized_bytes w sp dp n)),
        brk := Suc (Suc (brk w))\<rparr>)"
proof -
  have "(heap w)(brk w := None) = heap w" using assms(1) by (simp add: fun_upd_idem)
  then show ?thesis
    using assms(2-4) by (simp add: realloc.simps resized_bytes_def)
qed

lemmas udp_run = udp_send_def create_udp_hdr_run block_length_read realloc_size_read

lemma udp_send_zero:
  assumes "alloc_ok w (brk w)" and "realloc_size n = 0"
  shows "udp_send tx p src dst sp dp d n w = Faults ReallocZero"
  using assms by (simp add: udp_run realloc.simps del: add_2_eq_Suc add_2_eq_Suc')

lemma udp_send_moved:
  assumes "mem_inv w" and "alloc_ok w (brk w)" and "alloc_ok w (Suc (brk w))" and "moves w (Suc (brk w))"
    and "bytes_at (heap w) d xs" and "xs \<noteq> []" and "realloc_size (length xs) \<noteq> 0"
  shows "udp_send tx p src dst sp dp d (length xs) w = Faults UseAfterFree"
proof -
  let ?w = "w\<lparr>heap := (heap w)(Suc (brk w) \<mapsto> Bytes (resized_bytes w sp dp (length xs))), brk := Suc (Suc (brk w))\<rparr>"
  have "memcpy (Ptr (brk w) 8) d (length xs) ?w = Faults UseAfterFree"
    using assms(1,5,6) by (intro memcpy_freed [where xs = xs]) simp_all
  then show ?thesis
    using assms(2) realloc_moved [OF assms(1,3,4,7), of sp dp]
    by (simp add: udp_run del: add_2_eq_Suc add_2_eq_Suc')
qed

lemma udp_send_overrun:
  assumes "mem_inv w" and "alloc_ok w (brk w)" and "alloc_ok w (Suc (brk w))" and "\<not> moves w (Suc (brk w))"
    and "bytes_at (heap w) d xs" and "xs \<noteq> []" and "realloc_size (length xs) \<noteq> 0" and "\<not> udp_fits (length xs)"
  shows "udp_send tx p src dst sp dp d (length xs) w = Faults OutOfBounds"
proof -
  have "realloc_size (length xs) < length xs + 8" using assms(8) by (simp add: udp_fits_iff not_le)
  then have "memcpy (Ptr (brk w) 8) d (length xs) (resized w (resized_bytes w sp dp (length xs)))
      = Faults OutOfBounds"
    using assms(1,5,6) by (intro memcpy_overrun [where xs = xs and bs = "resized_bytes w sp dp (length xs)"])
      (simp_all add: resized_def length_resized_bytes)
  then show ?thesis
    using assms(2) realloc_in_place [OF assms(1,3,4,7), of sp dp]
    by (simp add: udp_run del: add_2_eq_Suc add_2_eq_Suc')
qed

lemma udp_send_no_memory_run:
  assumes "mem_inv w" and "(n + 8) mod 65536 \<noteq> 0" and "\<not> (alloc_ok w (brk w) \<and> alloc_ok w (Suc (brk w)))"
  shows "udp_send link p src dst sp dp d n w =
    (if alloc_ok w (brk w) then Returns 0 (w\<lparr>brk := Suc (Suc (brk w))\<rparr>) else Faults AssertFailed)"
proof (cases "alloc_ok w (brk w)")
  case True
  let ?w = "\<lambda>k. w\<lparr>heap := (heap w)(brk w \<mapsto> Bytes (message_hdr sp dp n)), brk := k\<rparr>"
  have "realloc_size n \<noteq> 0" using assms(2) by (simp add: realloc_size_0)
  then have "realloc (Ptr (brk w) 0) (realloc_size n) (?w (Suc (brk w))) = Returns Null (?w (Suc (Suc (brk w))))"
    using True assms(3) by (simp add: realloc.simps)
  moreover have "free (Ptr (brk w) 0) (?w k) = Returns () (w\<lparr>brk := k\<rparr>)" for k
    using assms(1) by (subst free_block [where x = "Bytes (message_hdr sp dp n)"]) (simp_all add: fun_upd_idem)
  ultimately show ?thesis
    using True by (simp add: udp_run del: add_2_eq_Suc add_2_eq_Suc')
qed (simp add: udp_run)

text \<open>Without memory for the datagram nothing is sent and -1 is returned.\<close>

lemma transmit_no_memory:
  assumes "heap w a = Some (Net_socket s)" "iopts_at (heap w) s io" and "ids_ok w b bs" and "mem_inv w"
    and "\<not> (alloc_ok w (brk w) \<and> alloc_ok w (Suc (brk w)))"
  shows "\<exists>k lb cs. ipv4_transmit_datagram tx (Ptr a 0) src dst d n w = Returns SIZE_MAX
      (w\<lparr>last_block := lb, brk := k, heap := (heap w)(b \<mapsto> Bytes cs)\<rparr>)"
proof (cases "alloc_ok w (brk w)")
  case True
  with no_memory_run [OF refl assms(1-4) True, of tx src dst d n] assms(5) show ?thesis by blast
next
  case False
  have "heap w b = Some (Bytes bs)" using assms(3) by (simp add: ids_ok_def id_map_def)
  then have "w\<lparr>brk := Suc (brk w)\<rparr>
      = w\<lparr>last_block := last_block w, brk := Suc (brk w), heap := (heap w)(b \<mapsto> Bytes bs)\<rparr>"
    by (simp add: fun_upd_idem)
  with no_header_run [OF assms(1,2) False, of tx src dst d n] show ?thesis by metis
qed

lemma udp_send_ip_fails:
  assumes "mem_inv w" and "alloc_ok w (brk w)" and "alloc_ok w (Suc (brk w))" and "\<not> moves w (Suc (brk w))"
    and "src_at (heap w) d xs" and "udp_fits (length xs)"
    and "heap w a = Some (Net_socket s)" "iopts_at (heap w) s io" and "ids_ok w b bs"
    and "\<not> (alloc_ok w (brk w + 2) \<and> alloc_ok w (brk w + 3))"
  shows "\<exists>w'. udp_send link (Ptr a 0) src dst sp dp d (length xs) w = Returns SIZE_MAX w' \<and> trace w' = trace w
    \<and> errno_of w' = errno_of w"
proof -
  let ?m = "message_hdr sp dp (length xs) @ xs"
  obtain rest where u: "udp_send link (Ptr a 0) src dst sp dp d (length xs) w
    = bindp (ipv4_transmit_datagram link (Ptr a 0) src dst (Ptr (brk w) 0) (length ?m))
        (\<lambda>sent. bindp (free (Ptr (brk w) 0)) (\<lambda>_. retp sent)) (resized w (?m @ rest))"
    using udp_send_begins [OF assms(1-6), of link "Ptr a 0" src dst sp dp] by blast
  define w1 where "w1 = resized w (?m @ rest)"
  note ok = resized_ok(1-3) [OF assms(1,9,8), of "?m @ rest", folded w1_def] resized_ok(4,5) [OF assms(1,9,8)]
  have "heap w1 a = Some (Net_socket s)" using assms(7) ok(5) by (auto simp: w1_def)
  moreover have "\<not> (alloc_ok w1 (brk w1) \<and> alloc_ok w1 (Suc (brk w1)))"
    using assms(10) by (simp add: w1_def eval_nat_numeral)
  ultimately obtain k lb cs where t: "ipv4_transmit_datagram link (Ptr a 0) src dst (Ptr (brk w) 0) (length ?m) w1
      = Returns SIZE_MAX (w1\<lparr>last_block := lb, brk := k, heap := (heap w1)(b \<mapsto> Bytes cs)\<rparr>)" (is "_ = Returns _ ?w2")
    using transmit_no_memory ok(1-3) by blast
  have "free (Ptr (brk w) 0) ?w2 = Returns () (?w2\<lparr>heap := (heap ?w2)(brk w := None)\<rparr>)"
    by (rule free_block [where x = "Bytes (?m @ rest)"]) (use ok(4) in \<open>simp add: w1_def\<close>)
  with t have "udp_send link (Ptr a 0) src dst sp dp d (length xs) w
      = Returns SIZE_MAX (?w2\<lparr>heap := (heap ?w2)(brk w := None)\<rparr>)"
    unfolding u w1_def [symmetric] by simp
  then show ?thesis by (simp add: w1_def)
qed

text \<open>Over SLIP, a message that fits is sent as one frame.\<close>

lemma udp_send_slip:
  assumes "slip_sock () (heap w) p s" and "iopts_at (heap w) s io" and "uart_ok w"
    and "ids_ok w b bs" and "b \<notin> link_foot (heap w) p" and "mem_inv w" and "memory_ok w"
    and "\<not> moves w (Suc (brk w))" and "src_at (heap w) d xs" and "udp_fits (length xs)"
    and "length xs \<le> 65507"
  shows "\<exists>i cs w' tr. udp_send (link_tx transmit) p src dst sp dp d (length xs) w = Returns (length xs + 28) w'
    \<and> heap w' = (heap w)(b \<mapsto> Bytes cs) \<and> insert 0 (bits_elems cs) = insert 0 (bits_elems bs)
    \<and> trace w' = trace w @ tr
    \<and> polite 0x2f8 False (slip_frame (ipv4_hdr_bytes (sock_hdr s io src dst (length xs + 8) i)
        @ be16 sp @ be16 dp @ be16 (u16_of_size (length xs + 8)) @ [0, 0] @ xs)) tr"
proof -
  obtain i cs r w' tr where *: "udp_send (link_tx transmit) p src dst sp dp d (length xs) w = Returns (r mod 65536) w'"
    "heap w' = (heap w)(b \<mapsto> Bytes cs)" "insert 0 (bits_elems cs) = insert 0 (bits_elems bs)"
    "trace w' = trace w @ tr"
    "slip_carries () s (returns_of w) (ipv4_hdr_bytes (sock_hdr s io src dst (length xs + 8) i)
        @ message_hdr sp dp (length xs) @ xs) r tr"
    using slip.udp_send_run [OF assms, of transmit src dst sp dp] by (elim exE conjE) (rule that)
  then have "r mod 65536 = length xs + 28"
    using assms(11) by (simp add: slip_carries_def)
  with * show ?thesis
    by (intro exI [of _ i] exI [of _ cs] exI [of _ w'] exI [of _ tr])
      (simp add: slip_carries_def message_hdr_def)
qed

section \<open>Properties\<close>

text \<open>\<open>create_udp_hdr\<close> makes a new block with the header of RFC 768: ports and length (header
  included, cut to 16 bits) in network byte order, no checksum. Without memory it aborts, so the
  check for null in \<open>udp_send\<close> is never reached.\<close>

theorem create_udp_hdr_result:
  "create_udp_hdr sp dp d (u16_of_size n) w =
    (if alloc_ok w (brk w)
     then Returns (Ptr (brk w) 0) (w\<lparr>heap := (heap w)(brk w \<mapsto>
       Bytes (be16 sp @ be16 dp @ be16 (u16_of_size (n + 8)) @ [0, 0])), brk := Suc (brk w)\<rparr>)
     else Faults AssertFailed)"
  unfolding create_udp_hdr_run message_hdr_def by (rule refl)

text \<open>C13: how \<open>udp_send\<close> fails when the lengths do not fit or \<open>realloc\<close> moves the block, for data that
  is not empty and enough memory: \<open>realloc\<close> is called with size 0 when the length is a multiple of
  65536; the data is copied through the freed pointer when the block moved; and past the end of
  the block when the swapped length is too small. The first length that fails is 248.\<close>

theorem udp_send_faults:
  assumes "mem_inv w" and "memory_ok w" and "bytes_at (heap w) d xs" and "xs \<noteq> []"
    and "moves w (Suc (brk w)) \<or> \<not> udp_fits (length xs)"
  shows "udp_send link p src dst sp dp d (length xs) w =
    Faults (if (length xs + 8) mod 65536 = 0 then ReallocZero
            else if moves w (Suc (brk w)) then UseAfterFree
            else OutOfBounds)"
proof -
  have ok: "alloc_ok w k" for k using assms(2) by (simp add: memory_ok_def)
  show ?thesis
    using udp_send_zero [OF ok, of "length xs"] udp_send_moved [OF assms(1) ok ok _ assms(3,4)]
      udp_send_overrun [OF assms(1) ok ok _ assms(3,4)] assms(5)
    by (cases "moves w (Suc (brk w))") (simp_all add: realloc_size_0)
qed

theorem udp_send_faults_witness:
  "udp_send (link_tx linux_transmit) (Ptr 0 0) 1 2 1234 1337 (Ptr 6 0) (length (replicate 248 (7 :: u8)))
     (demo_net ETH (replicate 248 7)) = Faults OutOfBounds"
proof -
  have "bytes_at (heap (demo_net ETH (replicate 248 7))) (Ptr 6 0) (replicate 248 7)" by simp
  then show ?thesis
    using udp_send_faults [of "demo_net ETH (replicate 248 7)" "Ptr 6 0" "replicate 248 7"]
    by (simp add: udp_fits_def)
qed

text \<open>Without memory for the header \<open>udp_send\<close> aborts; when the block cannot be resized it frees it
  and returns 0, with nothing sent.\<close>

theorem udp_send_no_memory:
  assumes "mem_inv w" and "(n + 8) mod 65536 \<noteq> 0" and "\<not> (alloc_ok w (brk w) \<and> alloc_ok w (Suc (brk w)))"
  shows "udp_send link p src dst sp dp d n w =
    (if alloc_ok w (brk w) then Returns 0 (w\<lparr>brk := Suc (Suc (brk w))\<rparr>) else Faults AssertFailed)"
  using assms by (rule udp_send_no_memory_run)

theorem udp_send_no_memory_witness:
  "udp_send (link_tx linux_transmit) (Ptr 0 0) 1 2 3 4 (Ptr 6 0) 1 (demo_net ETH [9]\<lparr>alloc_ok := \<lambda>b. b < 8\<rparr>)
     = Returns 0 (demo_net ETH [9]\<lparr>alloc_ok := \<lambda>b. b < 8, brk := 9\<rparr>)"
proof -
  have "mem_inv (demo_net ETH [9]\<lparr>alloc_ok := \<lambda>b. b < 8\<rparr>)"
    using demo_net_simps(5) [of ETH "[9]"] by (simp add: mem_inv_def)
  from udp_send_no_memory [OF this, of 1 "link_tx linux_transmit" "Ptr 0 0" 1 2 3 4 "Ptr 6 0"]
  show ?thesis by simp
qed

end
