(* ===== verification/Socket.thy ===== *)
theory Socket
  imports Ipv4
begin

text \<open>
  Opening a socket, \<open>socket.c\<close>: the socket that \<open>new_socket\<close> makes is the well-formed one the other
  layers need, for every platform; when memory runs out it frees what it allocated, but does not
  close the descriptor.
\<close>

section \<open>The operation\<close>

text \<open>Assignments to fields of a structure in memory.\<close>

definition upd_sock :: "ptr \<Rightarrow> (net_socket \<Rightarrow> net_socket) \<Rightarrow> unit cprog" where
  "upd_sock p f = bindp (load_sock p) (\<lambda>s. store_obj p (Net_socket (f s)))"

definition upd_iopts :: "ptr \<Rightarrow> (ipv4_socket_options \<Rightarrow> ipv4_socket_options) \<Rightarrow> unit cprog" where
  "upd_iopts p f = bindp (load_iopts p) (\<lambda>i. store_obj p (Ip_options (f i)))"

definition upd_link :: "ptr \<Rightarrow> (link_options_t \<Rightarrow> link_options_t) \<Rightarrow> unit cprog" where
  "upd_link p f = bindp (load_link p) (\<lambda>l. store_obj p (Link_options (f l)))"

definition new_socket :: "(ptr \<Rightarrow> int cprog) \<Rightarrow> int \<Rightarrow> int \<Rightarrow> int \<Rightarrow> ptr \<Rightarrow> ptr \<Rightarrow> ptr \<Rightarrow> ptr cprog" where
  "new_socket raw_socket fam prot ty smac dmac ifname =
     bindp (alloc (Net_socket zero_net_socket)) (\<lambda>ret.
     if ret = Null then retp Null
     else
       bindp (raw_socket ifname) (\<lambda>fd.
       bindp (upd_sock ret (\<lambda>s. s\<lparr>raw_sockfd := fd\<rparr>)) (\<lambda>_.
       bindp (upd_sock ret (\<lambda>s. s\<lparr>iface := ifname\<rparr>)) (\<lambda>_.
       bindp (upd_sock ret (\<lambda>s. s\<lparr>family := fam\<rparr>)) (\<lambda>_.
       bindp (upd_sock ret (\<lambda>s. s\<lparr>protocol := prot\<rparr>)) (\<lambda>_.
       bindp (alloc (Ip_options zero_ipv4_socket_options)) (\<lambda>io.
       bindp (upd_sock ret (\<lambda>s. s\<lparr>ip_options := io\<rparr>)) (\<lambda>_.
       if io = Null then bindp (free ret) (\<lambda>_. retp Null)
       else
         bindp (upd_iopts io (\<lambda>i. i\<lparr>sopt_ttl := 64\<rparr>)) (\<lambda>_.
         bindp (upd_iopts io (\<lambda>i. i\<lparr>high_throughput := 1\<rparr>)) (\<lambda>_.
         bindp (alloc (Link_options zero_link_options)) (\<lambda>lo.
         bindp (upd_sock ret (\<lambda>s. s\<lparr>link_options := lo\<rparr>)) (\<lambda>_.
         if lo = Null then
           bindp (load_sock ret) (\<lambda>s.
           bindp (free (ip_options s)) (\<lambda>_.
           bindp (free ret) (\<lambda>_. retp Null)))
         else
           bindp (upd_link lo (\<lambda>l. l\<lparr>link_type := LINK_TYPE_of_int ty\<rparr>)) (\<lambda>_.
           bindp (if ty = 0 then
               bindp (create_eth_hdr smac dmac 0x0800) (\<lambda>h. upd_link lo (\<lambda>l. l\<lparr>proto := eth_header h\<rparr>))
             else if ty = 1 then upd_link lo (\<lambda>l. l\<lparr>proto := slip_port 0x02f8\<rparr>)
             else retp ()) (\<lambda>_.
           retp ret))))))))))))))"

section \<open>Running it\<close>

text \<open>The states it goes through: some system calls were made, the heap is \<open>h\<close>.\<close>

definition stage :: "world \<Rightarrow> event list \<Rightarrow> (nat \<rightharpoonup> obj) \<Rightarrow> nat \<Rightarrow> world" where
  "stage w evs h k = after_calls evs (w\<lparr>heap := h, brk := k\<rparr>)"

lemma stage_simps [simp]:
  "heap (stage w evs h k) = h" "brk (stage w evs h k) = k" "alloc_ok (stage w evs h k) = alloc_ok w"
  "trace (stage w evs h k) = trace w @ evs" "returns_of (stage w [] h k) = returns_of w"
  "uart (stage w evs h k) = uart w" "rand_of (stage w evs h k) = rand_of w"
  "last_block (stage w evs h k) = last_block w" "moves (stage w evs h k) = moves w"
  "used_ip_id_values (stage w evs h k) = used_ip_id_values w" "inb_count (stage w evs h k) = inb_count w"
  by (simp_all add: stage_def after_calls_def returns_of_def fun_eq_iff)

lemma stage_heap: "(stage w evs h k)\<lparr>heap := g\<rparr> = stage w evs g k"
  by (simp add: stage_def after_calls_def)

lemma stage_heap_brk: "(stage w evs h k)\<lparr>heap := g, brk := j\<rparr> = stage w evs g j"
  by (simp add: stage_def after_calls_def)

lemma stage_brk: "(stage w evs h k)\<lparr>brk := j\<rparr> = stage w evs h j"
  by (simp add: stage_def after_calls_def)

lemma stage_calls: "after_calls evs (stage w [] h k) = stage w evs h k"
  by (simp add: stage_def after_calls_def)

lemma stage_start: "w = stage w [] (heap w) (brk w)"
  by (simp add: stage_def after_calls_def)

lemma store_obj_run [exec]:
  "heap w b = Some y \<Longrightarrow> store_obj (Ptr b 0) x w = Returns () (w\<lparr>heap := (heap w)(b \<mapsto> x)\<rparr>)"
  by (simp add: exec)

lemma upd_run [exec]:
  "h b = Some (Net_socket s) \<Longrightarrow>
     upd_sock (Ptr b 0) f (stage w evs h k) = Returns () (stage w evs (h(b \<mapsto> Net_socket (f s))) k)"
  "h b = Some (Ip_options i) \<Longrightarrow>
     upd_iopts (Ptr b 0) g (stage w evs h k) = Returns () (stage w evs (h(b \<mapsto> Ip_options (g i))) k)"
  "h b = Some (Link_options l) \<Longrightarrow>
     upd_link (Ptr b 0) j (stage w evs h k) = Returns () (stage w evs (h(b \<mapsto> Link_options (j l))) k)"
  by (simp_all add: upd_sock_def upd_iopts_def upd_link_def load_sock_run load_iopts_run load_link_run
      store_obj_run stage_heap)

lemma alloc_stage [exec]:
  "alloc x (stage w evs h k) = (if alloc_ok w k then Returns (Ptr k 0) (stage w evs (h(k \<mapsto> x)) (Suc k))
     else Returns Null (stage w evs h (Suc k)))"
  by (simp add: alloc_run stage_heap_brk stage_brk)

text \<open>The socket and the options that are made.\<close>

definition made_iopts :: ipv4_socket_options where
  "made_iopts = zero_ipv4_socket_options\<lparr>sopt_ttl := 64, high_throughput := 1\<rparr>"

definition made_sock :: "nat \<Rightarrow> int \<Rightarrow> int \<Rightarrow> int \<Rightarrow> ptr \<Rightarrow> net_socket" where
  "made_sock a fd fam prot ifname = \<lparr>raw_sockfd = fd, family = fam, protocol = prot,
     link_options = Ptr (a + 2) 0, ip_options = Ptr (a + 1) 0, proto_options = Null, iface = ifname\<rparr>"

lemma made_eq:
  "zero_net_socket\<lparr>raw_sockfd := fd, iface := ifname, family := fam, protocol := prot,
     ip_options := Ptr (Suc a) 0, link_options := Ptr (Suc (Suc a)) 0\<rparr> = made_sock a fd fam prot ifname"
  "zero_ipv4_socket_options\<lparr>sopt_ttl := 64, high_throughput := 1\<rparr> = made_iopts"
  "zero_link_options\<lparr>link_type := lt, proto := q\<rparr> = \<lparr>link_type = lt, proto = q\<rparr>"
  by (simp_all add: zero_net_socket_def made_sock_def made_iopts_def zero_link_options_def)

lemma eth_hdr_stage [exec]:
  assumes "bytes_at (heap w) src smac" and "bytes_at (heap w) dst dmac" and "mem_inv w"
    and "length smac = 6" and "length dmac = 6"
    and "alloc_ok w (brk w + 3)" and "h = (heap w)(Suc (brk w) \<mapsto> y, brk w \<mapsto> x, Suc (Suc (brk w)) \<mapsto> z)"
  shows "create_eth_hdr src dst pt (stage w evs h (Suc (Suc (Suc (brk w)))))
    = Returns (Ptr (brk w + 3) 0) (stage w evs (h(brk w + 3 \<mapsto> Bytes (dmac @ smac @ be16 pt))) (brk w + 4))"
proof -
  let ?w = "stage w evs h (Suc (Suc (Suc (brk w))))"
  have n: "heap w (brk w) = None" "heap w (Suc (brk w)) = None" "heap w (Suc (Suc (brk w))) = None"
    using assms(3) by (simp_all add: mem_inv_def)
  then have b: "bytes_at (heap ?w) src smac" "bytes_at (heap ?w) dst dmac"
    using assms(1,2) by (simp_all add: assms(7))
  have "mem_inv ?w" using assms(3) by (simp add: mem_inv_def assms(7))
  from create_eth_hdr_run [OF b this assms(4,5), of pt] assms(6) show ?thesis
    by (simp add: stage_heap_brk eval_nat_numeral)
qed

context os begin

text \<open>The first steps: the socket is allocated and the descriptor opened.\<close>

lemma opened:
  assumes "mem_inv w" and "bytes_at (heap w) ifname (name @ [0])" and "0 \<notin> set name"
  shows "raw_socket ifname (stage w [] ((heap w)(brk w \<mapsto> Net_socket zero_net_socket)) (Suc (brk w)))
    = Returns (snd (opens name (returns_of w)))
        (stage w (fst (opens name (returns_of w))) ((heap w)(brk w \<mapsto> Net_socket zero_net_socket)) (Suc (brk w)))"
proof -
  have "heap w (brk w) = None" using assms(1) by simp
  then have "bytes_at (heap (stage w [] ((heap w)(brk w \<mapsto> Net_socket zero_net_socket)) (Suc (brk w)))) ifname (name @ [0])"
    using assms(2) by simp
  from opens [OF this assms(3)] show ?thesis by (simp add: stage_calls)
qed

lemma new_socket_slip_run:
  assumes "mem_inv w" and "alloc_ok w (brk w) \<and> alloc_ok w (Suc (brk w)) \<and> alloc_ok w (Suc (Suc (brk w)))"
    and "bytes_at (heap w) ifname (name @ [0])" and "0 \<notin> set name"
  shows "new_socket raw_socket fam prot 1 smac dmac ifname w = Returns (Ptr (brk w) 0)
    (stage w (fst (opens name (returns_of w))) ((heap w)(Suc (brk w) \<mapsto> Ip_options made_iopts,
      brk w \<mapsto> Net_socket (made_sock (brk w) (snd (opens name (returns_of w))) fam prot ifname),
      Suc (Suc (brk w)) \<mapsto> Link_options \<lparr>link_type = SLIP, proto = slip_port 0x2f8\<rparr>)) (brk w + 3))"
proof -
  have "new_socket raw_socket fam prot 1 smac dmac ifname (stage w [] (heap w) (brk w)) = Returns (Ptr (brk w) 0)
    (stage w (fst (opens name (returns_of w))) ((heap w)(Suc (brk w) \<mapsto> Ip_options made_iopts,
      brk w \<mapsto> Net_socket (made_sock (brk w) (snd (opens name (returns_of w))) fam prot ifname),
      Suc (Suc (brk w)) \<mapsto> Link_options \<lparr>link_type = SLIP, proto = slip_port 0x2f8\<rparr>)) (brk w + 3))"
    using assms(2) opened [OF assms(1,3,4)]
    by (simp add: new_socket_def alloc_stage upd_run made_eq LINK_TYPE_of_int_def eval_nat_numeral)
  then show ?thesis by (simp only: stage_start [symmetric])
qed

lemma new_socket_eth_run:
  assumes "mem_inv w" and "memory_ok w" and "bytes_at (heap w) ifname (name @ [0])" and "0 \<notin> set name"
    and "bytes_at (heap w) smac sm" and "bytes_at (heap w) dmac dm" and "length sm = 6" and "length dm = 6"
  shows "new_socket raw_socket fam prot 0 smac dmac ifname w = Returns (Ptr (brk w) 0)
    (stage w (fst (opens name (returns_of w))) ((heap w)(Suc (brk w) \<mapsto> Ip_options made_iopts,
      brk w \<mapsto> Net_socket (made_sock (brk w) (snd (opens name (returns_of w))) fam prot ifname),
      brk w + 3 \<mapsto> Bytes (dm @ sm @ be16 0x0800),
      Suc (Suc (brk w)) \<mapsto> Link_options \<lparr>link_type = ETH, proto = eth_header (Ptr (brk w + 3) 0)\<rparr>)) (brk w + 4))"
proof -
  have ok: "alloc_ok w k" for k using assms(2) by (simp add: memory_ok_def)
  note e = eth_hdr_stage [OF assms(5,6,1,7,8) ok refl, simplified eval_nat_numeral, simplified]
  have "new_socket raw_socket fam prot 0 smac dmac ifname (stage w [] (heap w) (brk w)) = Returns (Ptr (brk w) 0)
    (stage w (fst (opens name (returns_of w))) ((heap w)(Suc (brk w) \<mapsto> Ip_options made_iopts,
      brk w \<mapsto> Net_socket (made_sock (brk w) (snd (opens name (returns_of w))) fam prot ifname),
      brk w + 3 \<mapsto> Bytes (dm @ sm @ be16 0x0800),
      Suc (Suc (brk w)) \<mapsto> Link_options \<lparr>link_type = ETH, proto = eth_header (Ptr (brk w + 3) 0)\<rparr>)) (brk w + 4))"
    using ok opened [OF assms(1,3,4)]
    by (simp add: new_socket_def alloc_stage upd_run made_eq LINK_TYPE_of_int_def e eval_nat_numeral)
  then show ?thesis by (simp only: stage_start [symmetric])
qed

text \<open>Without memory for the Ethernet header, the socket is returned with a null header.\<close>

lemma new_socket_null_run:
  assumes "mem_inv w" and "alloc_ok w (brk w) \<and> alloc_ok w (Suc (brk w)) \<and> alloc_ok w (Suc (Suc (brk w)))"
    and "\<not> alloc_ok w (brk w + 3)" and "bytes_at (heap w) ifname (name @ [0])" and "0 \<notin> set name"
  shows "new_socket raw_socket fam prot 0 smac dmac ifname w = Returns (Ptr (brk w) 0)
    (stage w (fst (opens name (returns_of w))) ((heap w)(Suc (brk w) \<mapsto> Ip_options made_iopts,
      brk w \<mapsto> Net_socket (made_sock (brk w) (snd (opens name (returns_of w))) fam prot ifname),
      Suc (Suc (brk w)) \<mapsto> Link_options \<lparr>link_type = ETH, proto = eth_header Null\<rparr>)) (brk w + 4))"
proof -
  have "new_socket raw_socket fam prot 0 smac dmac ifname (stage w [] (heap w) (brk w)) = Returns (Ptr (brk w) 0)
    (stage w (fst (opens name (returns_of w))) ((heap w)(Suc (brk w) \<mapsto> Ip_options made_iopts,
      brk w \<mapsto> Net_socket (made_sock (brk w) (snd (opens name (returns_of w))) fam prot ifname),
      Suc (Suc (brk w)) \<mapsto> Link_options \<lparr>link_type = ETH, proto = eth_header Null\<rparr>)) (brk w + 4))"
    using assms(2,3) opened [OF assms(1,4,5)]
    by (simp add: new_socket_def create_eth_hdr_def calloc_def alloc_stage upd_run made_eq LINK_TYPE_of_int_def
        eval_nat_numeral)
  then show ?thesis by (simp only: stage_start [symmetric])
qed

text \<open>Running out of memory: everything is freed, the descriptor stays open.\<close>

lemma new_socket_no_memory:
  assumes "mem_inv w" and "bytes_at (heap w) ifname (name @ [0])" and "0 \<notin> set name"
    and "\<not> (alloc_ok w (brk w) \<and> alloc_ok w (Suc (brk w)) \<and> alloc_ok w (Suc (Suc (brk w))))"
  shows "new_socket raw_socket fam prot ty smac dmac ifname w = Returns Null
    (if \<not> alloc_ok w (brk w) then stage w [] (heap w) (Suc (brk w))
     else stage w (fst (opens name (returns_of w))) (heap w)
       (if alloc_ok w (Suc (brk w)) then Suc (Suc (Suc (brk w))) else Suc (Suc (brk w))))"
proof -
  have n: "heap w (brk w) = None" "heap w (Suc (brk w)) = None"
    using assms(1) by (simp_all add: mem_inv_def)
  have f: "free (Ptr b 0) (stage w evs h k) = Returns () (stage w evs (h(b := None)) k)"
    if "h b = Some x" for b x h k evs
    using that by (simp add: free_block stage_heap)
  have u: "(heap w)(brk w := None) = heap w" "(heap w)(Suc (brk w) := None, brk w := None) = heap w"
    "(heap w)(brk w := None, Suc (brk w) := None) = heap w"
    using n by (auto simp: fun_eq_iff)
  have "new_socket raw_socket fam prot ty smac dmac ifname (stage w [] (heap w) (brk w)) = Returns Null
    (if \<not> alloc_ok w (brk w) then stage w [] (heap w) (Suc (brk w))
     else stage w (fst (opens name (returns_of w))) (heap w)
       (if alloc_ok w (Suc (brk w)) then Suc (Suc (Suc (brk w))) else Suc (Suc (brk w))))"
    using opened [OF assms(1-3)]
  proof (cases "alloc_ok w (brk w)")
    case True
    with assms(4) opened [OF assms(1-3)] show ?thesis
      by (cases "alloc_ok w (Suc (brk w))")
        (simp_all add: new_socket_def alloc_stage upd_run f load_sock_run u fun_upd_twist)
  qed (simp add: new_socket_def alloc_stage)
  then show ?thesis by (simp only: stage_start [symmetric])
qed

end

section \<open>The sockets made\<close>

lemma made_iopts_at:
  "h (Suc a) = Some (Ip_options made_iopts) \<Longrightarrow> iopts_at h (made_sock a fd fam prot ifname) made_iopts"
  by (simp add: iopts_at_def made_sock_def)

lemma made_slip:
  assumes "h a = Some (Net_socket (made_sock a fd fam prot ifname))"
    and "h (Suc (Suc a)) = Some (Link_options \<lparr>link_type = SLIP, proto = slip_port x\<rparr>)"
  shows "slip_sock () h (Ptr a 0) (made_sock a fd fam prot ifname)"
  using assms by (simp add: slip_sock_def made_sock_def)

lemma made_eth:
  assumes "h a = Some (Net_socket (made_sock a fd fam prot ifname))"
    and "h (Suc (Suc a)) = Some (Link_options \<lparr>link_type = ETH, proto = eth_header q\<rparr>)"
    and "bytes_at h q (eth_hdr_bytes (fst c))" and "eth_hdr_wf (fst c)"
    and "bytes_at h ifname (snd c @ [0])" and "0 \<notin> set (snd c)"
  shows "eth_sock c h (Ptr a 0) (made_sock a fd fam prot ifname)"
  using assms by (simp add: eth_sock_def made_sock_def)

text \<open>The state after opening a socket over Ethernet on Linux: only new blocks and calls.\<close>

lemma new_socket_eth_opened:
  assumes "mem_inv w" and "memory_ok w" and "bytes_at (heap w) ifname (name @ [0])" and "0 \<notin> set name"
    and "bytes_at (heap w) smac sm" and "bytes_at (heap w) dmac dm" and "length sm = 6" and "length dm = 6"
  shows "\<exists>s w'. new_socket linux_raw_socket fam prot 0 smac dmac ifname w = Returns (Ptr (brk w) 0) w'
    \<and> eth_sock (\<lparr>mac_dst = dm, mac_src = sm, eth_ptcl = htons 0x0800\<rparr>, name) (heap w') (Ptr (brk w) 0) s
    \<and> iopts_at (heap w') s made_iopts \<and> mem_inv w' \<and> protocol s = prot
    \<and> raw_sockfd s = (if returns_of w 0 = -1 \<or> returns_of w 1 = -1 then -1 else returns_of w 0)
    \<and> trace w' = trace w @ fst (linux_opens name (returns_of w)) \<and> (\<forall>k < brk w. heap w' k = heap w k)
    \<and> alloc_ok w' = alloc_ok w \<and> moves w' = moves w \<and> rand_of w' = rand_of w"
proof -
  let ?a = "brk w" and ?e = "\<lparr>mac_dst = dm, mac_src = sm, eth_ptcl = htons 0x0800\<rparr>"
  define fd where "fd = snd (linux_opens name (returns_of w))"
  define w' where "w' = stage w (fst (linux_opens name (returns_of w))) ((heap w)(Suc ?a \<mapsto> Ip_options made_iopts,
      ?a \<mapsto> Net_socket (made_sock ?a fd fam prot ifname), ?a + 3 \<mapsto> Bytes (dm @ sm @ be16 0x0800),
      Suc (Suc ?a) \<mapsto> Link_options \<lparr>link_type = ETH, proto = eth_header (Ptr (?a + 3) 0)\<rparr>)) (?a + 4)"
  have "new_socket linux_raw_socket fam prot 0 smac dmac ifname w = Returns (Ptr ?a 0) w'"
    unfolding w'_def fd_def by (rule linux_os.new_socket_eth_run [OF assms])
  moreover have "heap w k = None" if "brk w \<le> k" for k using assms(1) that by (simp add: mem_inv_def)
  then have "bytes_at (heap w') ifname (name @ [0])" using assms(3) by (simp add: w'_def)
  moreover have "bytes_at (heap w') (Ptr (?a + 3) 0) (eth_hdr_bytes ?e)"
    by (simp add: w'_def eth_hdr_bytes_def)
  ultimately have "eth_sock (?e, name) (heap w') (Ptr ?a 0) (made_sock ?a fd fam prot ifname)"
    using assms(4,7,8) by (intro made_eth [where q = "Ptr (?a + 3) 0"]) (simp_all add: w'_def eth_hdr_wf_def)
  moreover have "iopts_at (heap w') (made_sock ?a fd fam prot ifname) made_iopts"
    by (rule made_iopts_at) (simp add: w'_def)
  moreover have "mem_inv w'" using assms(1) by (simp add: mem_inv_def w'_def)
  moreover have "protocol (made_sock ?a fd fam prot ifname) = prot"
    "raw_sockfd (made_sock ?a fd fam prot ifname)
      = (if returns_of w 0 = -1 \<or> returns_of w 1 = -1 then -1 else returns_of w 0)"
    by (simp_all add: made_sock_def fd_def linux_opens_def Let_def)
  moreover have "trace w' = trace w @ fst (linux_opens name (returns_of w))" "\<forall>k < ?a. heap w' k = heap w k"
    "alloc_ok w' = alloc_ok w" "moves w' = moves w" "rand_of w' = rand_of w"
    by (simp_all add: w'_def)
  ultimately show ?thesis
    using \<open>new_socket linux_raw_socket fam prot 0 smac dmac ifname w = Returns (Ptr ?a 0) w'\<close> by blast
qed

section \<open>Properties\<close>

text \<open>C26: for an Ethernet link on Linux, \<open>new_socket\<close> makes a socket the other layers can send with:
  its header has the given addresses and the IPv4 type, its options a time to live of 64 and high
  throughput. The result of opening the descriptor is not checked: a failure leaves -1 in the
  socket that is returned as usable.\<close>

theorem new_socket_eth:
  assumes "mem_inv w" and "memory_ok w" and "bytes_at (heap w) ifname (name @ [0])" and "0 \<notin> set name"
    and "bytes_at (heap w) smac sm" and "bytes_at (heap w) dmac dm" and "length sm = 6" and "length dm = 6"
  shows "\<exists>s w'. new_socket linux_raw_socket fam prot 0 smac dmac ifname w = Returns (Ptr (brk w) 0) w'
    \<and> eth_sock (\<lparr>mac_dst = dm, mac_src = sm, eth_ptcl = htons 0x0800\<rparr>, name) (heap w') (Ptr (brk w) 0) s
    \<and> iopts_at (heap w') s made_iopts \<and> mem_inv w' \<and> protocol s = prot
    \<and> raw_sockfd s = (if returns_of w 0 = -1 \<or> returns_of w 1 = -1 then -1 else returns_of w 0)"
  using new_socket_eth_opened [OF assms, of fam prot] by (elim exE conjE) (intro exI conjI)

text \<open>Strings and addresses in memory for the concrete instances.\<close>

definition demo_lits :: world where
  "demo_lits = demo_with [Bytes [7, 8, 9, 10, 11, 12, 0], Bytes [1, 2, 3, 4, 5, 6, 0], Bytes [101, 0]]"

lemma demo_lits_simps [simp]:
  "mem_inv demo_lits" "memory_ok demo_lits" "brk demo_lits = 3" "returns_of demo_lits k = int k"
  "bytes_at (heap demo_lits) (Ptr 0 0) [7, 8, 9, 10, 11, 12]"
  "bytes_at (heap demo_lits) (Ptr (Suc 0) 0) [1, 2, 3, 4, 5, 6]"
  "bytes_at (heap demo_lits) (Ptr 2 0) [101, 0]"
  by (simp_all add: demo_lits_def memory_ok_def returns_of_def)

theorem new_socket_eth_witness:
  "\<exists>s w'. new_socket linux_raw_socket 2 17 0 (Ptr 0 0) (Ptr 1 0) (Ptr 2 0) demo_lits = Returns (Ptr 3 0) w'
    \<and> iopts_at (heap w') s made_iopts \<and> raw_sockfd s = 0"
  using new_socket_eth [of demo_lits "Ptr 2 0" "[101]" "Ptr 0 0" "[7, 8, 9, 10, 11, 12]" "Ptr 1 0"
      "[1, 2, 3, 4, 5, 6]" 2 17] by auto

text \<open>C27: for a SLIP link on LF OS, \<open>new_socket\<close> makes a socket that sends over SLIP, with the same
  options, after asking for access to the ports.\<close>

theorem new_socket_slip:
  assumes "mem_inv w" and "memory_ok w" and "bytes_at (heap w) ifname (name @ [0])" and "0 \<notin> set name"
  shows "\<exists>s w'. new_socket lf_os_raw_socket fam prot 1 smac dmac ifname w = Returns (Ptr (brk w) 0) w'
    \<and> slip_sock () (heap w') (Ptr (brk w) 0) s \<and> iopts_at (heap w') s made_iopts
    \<and> mem_inv w' \<and> protocol s = prot \<and> trace w' = trace w @ [Ioperm 0x2f8 7]"
proof -
  let ?a = "brk w" and ?fd = "snd (lf_os_opens name (returns_of w))"
  define h where "h = (heap w)(Suc ?a \<mapsto> Ip_options made_iopts,
      ?a \<mapsto> Net_socket (made_sock ?a ?fd fam prot ifname),
      Suc (Suc ?a) \<mapsto> Link_options \<lparr>link_type = SLIP, proto = slip_port 0x2f8\<rparr>)"
  let ?w = "stage w (fst (lf_os_opens name (returns_of w))) h (?a + 3)"
  have "new_socket lf_os_raw_socket fam prot 1 smac dmac ifname w = Returns (Ptr ?a 0) ?w"
    unfolding h_def using assms(2) by (intro lf_os_os.new_socket_slip_run [OF assms(1) _ assms(3,4)])
      (simp add: memory_ok_def)
  moreover have "slip_sock () (heap ?w) (Ptr ?a 0) (made_sock ?a ?fd fam prot ifname)"
    by (simp add: h_def) (rule made_slip, simp_all)
  moreover have "iopts_at (heap ?w) (made_sock ?a ?fd fam prot ifname) made_iopts"
    by (rule made_iopts_at) (simp add: h_def)
  moreover have "mem_inv ?w" using assms(1) by (simp add: mem_inv_def h_def)
  moreover have "protocol (made_sock ?a ?fd fam prot ifname) = prot" by (simp add: made_sock_def)
  moreover have "trace ?w = trace w @ [Ioperm 0x2f8 7]" by (simp add: lf_os_opens_def)
  ultimately show ?thesis by blast
qed

theorem new_socket_slip_witness:
  "\<exists>s w'. new_socket lf_os_raw_socket 2 17 1 (Ptr 0 0) (Ptr 1 0) (Ptr 2 0) demo_lits = Returns (Ptr 3 0) w'
    \<and> slip_sock () (heap w') (Ptr 3 0) s"
  using new_socket_slip [of demo_lits "Ptr 2 0" "[101]" 2 17 "Ptr 0 0" "Ptr 1 0"] by auto

text \<open>C28: when one of the three structures cannot be allocated, \<open>new_socket\<close> returns null and leaves
  the heap as it was; but a descriptor that was opened and bound before stays open.\<close>

theorem new_socket_leaks_descriptor:
  assumes "mem_inv w" and "bytes_at (heap w) ifname (name @ [0])" and "0 \<notin> set name"
    and "alloc_ok w (brk w)" and "\<not> (alloc_ok w (Suc (brk w)) \<and> alloc_ok w (Suc (Suc (brk w))))"
    and "returns_of w 0 \<noteq> -1" and "returns_of w 1 \<noteq> -1"
  shows "\<exists>w'. new_socket linux_raw_socket fam prot ty smac dmac ifname w = Returns Null w' \<and> heap w' = heap w
    \<and> trace w' = trace w @ [Socket 17 3 (htons 3), Setsockopt_bind (returns_of w 0) name]"
  using linux_os.new_socket_no_memory [OF assms(1-3), of fam prot ty smac dmac] assms(4-7)
  by (auto simp: linux_opens_def Let_def)

theorem new_socket_leaks_descriptor_witness:
  "\<exists>w'. new_socket linux_raw_socket 2 17 1 (Ptr 0 0) (Ptr 1 0) (Ptr 2 0) (demo_lits\<lparr>alloc_ok := \<lambda>b. b < 5\<rparr>)
      = Returns Null w' \<and> trace w' = [Socket 17 3 (htons 3), Setsockopt_bind 0 [101]]"
proof -
  let ?w = "demo_lits\<lparr>alloc_ok := \<lambda>b. b < 5\<rparr>"
  have "mem_inv ?w" using demo_lits_simps(1) by (simp add: mem_inv_def)
  moreover have "returns_of ?w = returns_of demo_lits" by (simp add: returns_of_def fun_eq_iff)
  moreover have "trace demo_lits = []" by (simp add: demo_lits_def)
  ultimately show ?thesis
    using new_socket_leaks_descriptor [of ?w "Ptr 2 0" "[101]" 2 17 1 "Ptr 0 0" "Ptr 1 0"] by auto
qed

text \<open>C32: when the Ethernet header of a new socket cannot be allocated, \<open>new_socket\<close> returns the socket
  all the same, and sending over it, of any data and on any platform, reads through the null
  header: the check for null that it makes for its other structures is missing.\<close>

theorem new_socket_null_header:
  assumes "mem_inv w" and "alloc_ok w (brk w) \<and> alloc_ok w (Suc (brk w)) \<and> alloc_ok w (Suc (Suc (brk w)))"
    and "\<not> alloc_ok w (brk w + 3)" and "alloc_ok w (brk w + 4)"
    and "bytes_at (heap w) ifname (name @ [0])" and "0 \<notin> set name"
  shows "\<exists>w'. new_socket linux_raw_socket fam prot 0 smac dmac ifname w = Returns (Ptr (brk w) 0) w'
    \<and> link_tx transmit (Ptr (brk w) 0) d n w' = Faults NullDeref"
proof -
  let ?a = "brk w"
  define h where "h = (heap w)(Suc ?a \<mapsto> Ip_options made_iopts,
    ?a \<mapsto> Net_socket (made_sock ?a (snd (linux_opens name (returns_of w))) fam prot ifname),
    Suc (Suc ?a) \<mapsto> Link_options \<lparr>link_type = ETH, proto = eth_header Null\<rparr>)"
  let ?w = "stage w (fst (linux_opens name (returns_of w))) h (?a + 4)"
  have "new_socket linux_raw_socket fam prot 0 smac dmac ifname w = Returns (Ptr ?a 0) ?w"
    unfolding h_def by (rule linux_os.new_socket_null_run [OF assms(1-3,5,6)])
  moreover have "link_tx transmit (Ptr ?a 0) d n ?w = Faults NullDeref"
    using assms(4) by (simp add: link_tx_def eth_transmit_def load_sock_run load_link_run h_def made_sock_def
        calloc_def alloc_stage memcpy_def)
  ultimately show ?thesis by blast
qed

theorem new_socket_null_header_witness:
  "\<exists>w'. new_socket linux_raw_socket 2 17 0 (Ptr 0 0) (Ptr 1 0) (Ptr 2 0) (demo_lits\<lparr>alloc_ok := \<lambda>b. b \<noteq> 6\<rparr>)
      = Returns (Ptr 3 0) w' \<and> link_tx linux_transmit (Ptr 3 0) (Ptr 0 0) 1 w' = Faults NullDeref"
proof -
  have "mem_inv (demo_lits\<lparr>alloc_ok := \<lambda>b. b \<noteq> 6\<rparr>)" using demo_lits_simps(1) by (simp add: mem_inv_def)
  from new_socket_null_header [OF this, of "Ptr 2 0" "[101]" 2 17 "Ptr 0 0" "Ptr 1 0" linux_transmit "Ptr 0 0" 1]
  show ?thesis by simp
qed

end
