(* ===== verification/Main_Prog.thy ===== *)
theory Main_Prog
  imports Udp Socket
begin

text \<open>
  The program, \<open>main.c\<close>: open a socket over SLIP, set up the identifiers, parse two addresses, send
  one message, and loop forever. Its string literals are blocks of memory that are there from the
  start. The whole run is shown, through every layer, up to the bytes on the serial port.
\<close>

section \<open>The program\<close>

text \<open>The addresses of the string literals.\<close>

record literals =
  TEST_SMAC :: ptr
  TEST_DMAC :: ptr
  lit_iface :: ptr
  lit_src :: ptr
  lit_dst :: ptr
  lit_data :: ptr

text \<open>
  Up to the last loop: \<open>None\<close> for the error exit, otherwise what was sent. The value -1 that
  \<open>sent\<close> is compared with is converted to \<open>size_t\<close>.
\<close>

definition main_send ::
  "(ptr \<Rightarrow> int cprog) \<Rightarrow> (ptr \<Rightarrow> ptr \<Rightarrow> nat \<Rightarrow> nat cprog) \<Rightarrow> literals \<Rightarrow> nat option cprog" where
  "main_send raw_socket transmit lit =
     bindp (new_socket raw_socket 2 17 1 (TEST_SMAC lit) (TEST_DMAC lit) (lit_iface lit)) (\<lambda>sock.
     if sock = Null then bindp (print_errno Stderr) (\<lambda>_. retp None)
     else
       bindp ip_initialise (\<lambda>_.
       bindp (inet_addr (lit_src lit)) (\<lambda>src_addr.
       bindp (inet_addr (lit_dst lit)) (\<lambda>dst_addr.
       bindp (udp_send (link_tx transmit) sock src_addr dst_addr 1234 1337 (lit_data lit) 9) (\<lambda>sent.
       bindp (if sent = SIZE_MAX then print_errno Stdout else retp ()) (\<lambda>_.
       retp (Some sent)))))))"

partial_function (option) main_loop :: "int cprog" where
  "main_loop w = main_loop w"

definition main_prog ::
  "(ptr \<Rightarrow> int cprog) \<Rightarrow> (ptr \<Rightarrow> ptr \<Rightarrow> nat \<Rightarrow> nat cprog) \<Rightarrow> literals \<Rightarrow> int cprog" where
  "main_prog raw_socket transmit lit =
     bindp (main_send raw_socket transmit lit) (\<lambda>r.
     case r of None \<Rightarrow> retp (-1) | Some sent \<Rightarrow> main_loop)"

lemma main_loop_never: "main_loop w = Diverges"
proof (cases "main_loop w")
  case (Some r)
  have "False" by (rule main_loop.raw_induct [where P = "\<lambda>_ _. False", OF _ Some])
  then show ?thesis ..
qed

lemma main_returns:
  "main_prog rs tx lit w = Returns v w' \<Longrightarrow> v = -1 \<and> main_send rs tx lit w = Returns None w'"
  by (auto simp: main_prog_def bindp_eq_Returns main_loop_never split: option.splits)

section \<open>A run\<close>

text \<open>The message, "Hellorld" and a line feed, and the name of the interface, "wlp2s0".\<close>

definition hello :: "u8 list" where
  "hello = [72, 101, 108, 108, 111, 114, 108, 100, 10]"

lemma length_hello [simp]: "length hello = 9"
  by (simp add: hello_def)

definition literals_at :: "(nat \<rightharpoonup> obj) \<Rightarrow> literals \<Rightarrow> bool" where
  "literals_at h lit \<longleftrightarrow>
     bytes_at h (lit_iface lit) ([119, 108, 112, 50, 115, 48] @ [0])
     \<and> bytes_at h (lit_src lit) (dotted [10, 0, 0, 2] @ [0])
     \<and> bytes_at h (lit_dst lit) (dotted [152, 53, 133, 5] @ [0])
     \<and> bytes_at h (lit_data lit) hello"

lemma literals_at_fresh: "literals_at h lit \<Longrightarrow> h b = None \<Longrightarrow> literals_at (h(b := x)) lit"
  by (simp add: literals_at_def del: dotted.simps)

lemma initialised_ids_ok:
  assumes "used_ip_id_values w = Ptr b 0" and "heap w b = Some (Bytes (replicate 8192 0))" and "rand_small w"
  shows "ids_ok w b (replicate 8192 0)"
proof -
  have "block_sum w < 2 ^ 31" by (rule rand_small_block_sum [OF assms(3)])
  moreover have "selectable w (replicate 8192 0)" by (rule selectable_small [of _ 0]) simp
  ultimately show ?thesis using assms(1,2) by (simp add: ids_ok_def id_map_def)
qed

lemma dotted_c_string:
  "bytes_at (heap w) p (dotted (a # bs) @ [0]) \<Longrightarrow> 0 \<notin> set (dotted (a # bs)) \<Longrightarrow>
     c_string p w = Returns (dotted (a # bs)) w"
  by (rule c_string_at)

text \<open>
  The state after \<open>new_socket\<close> and \<open>ip_initialise\<close>, when \<open>k\<close> is the next block: four new blocks
  from \<open>brk w\<close> on, for the socket, its two structures of options, and the bitmap.
\<close>

definition main_state :: "world \<Rightarrow> event list \<Rightarrow> net_socket \<Rightarrow> u16 \<Rightarrow> nat \<Rightarrow> world" where
  "main_state w evs s lb k = (stage w evs ((heap w)(Suc (brk w) \<mapsto> Ip_options made_iopts, brk w \<mapsto> Net_socket s,
      Suc (Suc (brk w)) \<mapsto> Link_options \<lparr>link_type = SLIP, proto = slip_port 0x2f8\<rparr>,
      brk w + 3 \<mapsto> Bytes (replicate 8192 0))) k)
    \<lparr>last_block := lb, used_ip_id_values := Ptr (brk w + 3) 0\<rparr>"

lemma main_state_simps [simp]:
  "brk (main_state w evs s lb k) = k" "alloc_ok (main_state w evs s lb k) = alloc_ok w"
  "uart (main_state w evs s lb k) = uart w" "rand_of (main_state w evs s lb k) = rand_of w"
  "moves (main_state w evs s lb k) = moves w" "errno_of (main_state w evs s lb k) = errno_of w"
  "trace (main_state w evs s lb k) = trace w @ evs"
  "used_ip_id_values (main_state w evs s lb k) = Ptr (brk w + 3) 0"
  "(main_state w evs s lb k)\<lparr>brk := j\<rparr> = main_state w evs s lb j"
  "heap (main_state w evs s lb k) = (heap w)(Suc (brk w) \<mapsto> Ip_options made_iopts, brk w \<mapsto> Net_socket s,
      Suc (Suc (brk w)) \<mapsto> Link_options \<lparr>link_type = SLIP, proto = slip_port 0x2f8\<rparr>,
      brk w + 3 \<mapsto> Bytes (replicate 8192 0))"
  by (simp_all add: main_state_def stage_def after_calls_def)

lemma above_brk: "mem_inv w \<Longrightarrow> brk w \<le> k \<Longrightarrow> heap w k = None"
  by (simp add: mem_inv_def)

text \<open>Everything that sending needs of that state.\<close>

lemma main_state_ok:
  assumes "literals_at (heap w) lit" and "mem_inv w" and "rand_small w" and "brk w + 4 \<le> k"
    and s_def: "s = made_sock (brk w) fd 2 17 (lit_iface lit)"
  shows "mem_inv (main_state w evs s lb k)"
    and "literals_at (heap (main_state w evs s lb k)) lit"
    and "slip_sock () (heap (main_state w evs s lb k)) (Ptr (brk w) 0) s"
    and "iopts_at (heap (main_state w evs s lb k)) s made_iopts"
    and "ids_ok (main_state w evs s lb k) (brk w + 3) (replicate 8192 0)"
    and "brk w + 3 \<notin> link_foot (heap (main_state w evs s lb k)) (Ptr (brk w) 0)"
    and "protocol s = 17"
proof -
  note none = above_brk [OF assms(2)]
  show "mem_inv (main_state w evs s lb k)" using none assms(4) by (simp add: mem_inv_def)
  show "literals_at (heap (main_state w evs s lb k)) lit"
    using assms(1) none by (simp add: literals_at_fresh)
  show "slip_sock () (heap (main_state w evs s lb k)) (Ptr (brk w) 0) s"
    unfolding s_def by (rule made_slip) simp_all
  show "iopts_at (heap (main_state w evs s lb k)) s made_iopts"
    unfolding s_def by (rule made_iopts_at) simp
  show "ids_ok (main_state w evs s lb k) (brk w + 3) (replicate 8192 0)"
    using assms(3) by (intro initialised_ids_ok) (simp_all add: rand_small_def)
  have "bytes_at (heap w) (lit_iface lit) ([119, 108, 112, 50, 115, 48] @ [0])"
    using assms(1) by (simp add: literals_at_def)
  then have "brk w + 3 \<notin> ptr_block (lit_iface lit)"
    using bytes_at_dom none [of "brk w + 3"] by fastforce
  then show "brk w + 3 \<notin> link_foot (heap (main_state w evs s lb k)) (Ptr (brk w) 0)"
    by (simp add: link_foot_def) (simp add: s_def made_sock_def)
qed (simp add: s_def made_sock_def)

lemma inet_addr_no_memory: "\<not> alloc_ok w (brk w) \<Longrightarrow> c_string p w = Returns s w \<Longrightarrow> inet_addr p w = Faults StaleStrtok"
  by (simp add: inet_addr_def strdup_def malloc_def alloc_run)

text \<open>The two addresses.\<close>

lemma main_addresses:
  assumes "literals_at (heap w) lit" and "mem_inv w" and "rand_small w" and "brk w + 4 \<le> k"
    and s_def: "s = made_sock (brk w) fd 2 17 (lit_iface lit)"
  shows "inet_addr (lit_src lit) (main_state w evs s lb k) = (if alloc_ok w k
      then Returns (of_le32 [10, 0, 0, 2]) (main_state w evs s lb (Suc k)) else Faults StaleStrtok)"
    and "inet_addr (lit_dst lit) (main_state w evs s lb k) = (if alloc_ok w k
      then Returns (of_le32 [152, 53, 133, 5]) (main_state w evs s lb (Suc k)) else Faults StaleStrtok)"
proof -
  let ?W = "main_state w evs s lb k"
  note ok = main_state_ok(1,2) [OF assms, of evs lb]
  have c: "c_string (lit_src lit) ?W = Returns (dotted [10, 0, 0, 2]) ?W"
      "c_string (lit_dst lit) ?W = Returns (dotted [152, 53, 133, 5]) ?W"
    using ok(2) by (intro dotted_c_string; simp add: literals_at_def del: dotted.simps main_state_simps; simp add: dot_def)+
  show "inet_addr (lit_src lit) ?W = (if alloc_ok w k
      then Returns (of_le32 [10, 0, 0, 2]) (main_state w evs s lb (Suc k)) else Faults StaleStrtok)"
    using inet_addr_dotted_run [OF c(1) _ ok(1)] inet_addr_no_memory [OF _ c(1)] by simp
  show "inet_addr (lit_dst lit) ?W = (if alloc_ok w k
      then Returns (of_le32 [152, 53, 133, 5]) (main_state w evs s lb (Suc k)) else Faults StaleStrtok)"
    using inet_addr_dotted_run [OF c(2) _ ok(1)] inet_addr_no_memory [OF _ c(2)] by simp
qed

text \<open>What is left of \<open>main_send\<close> then: the message, and the report.\<close>

definition main_message :: "(ptr \<Rightarrow> ptr \<Rightarrow> nat \<Rightarrow> nat cprog) \<Rightarrow> ptr \<Rightarrow> ptr \<Rightarrow> nat option cprog" where
  "main_message transmit sock data =
     bindp (udp_send (link_tx transmit) sock (of_le32 [10, 0, 0, 2]) (of_le32 [152, 53, 133, 5]) 1234 1337 data 9) (\<lambda>sent.
     bindp (if sent = SIZE_MAX then print_errno Stdout else retp ()) (\<lambda>_.
     retp (Some sent)))"

context os begin

text \<open>Up to the message: \<open>k\<close> is the first allocation that fails, if any does.\<close>

lemma main_begins:
  assumes "literals_at (heap w) lit" and "mem_inv w" and "rand_small w"
    and "alloc_ok w (brk w) \<and> alloc_ok w (Suc (brk w)) \<and> alloc_ok w (Suc (Suc (brk w)))"
  defines "evs \<equiv> fst (opens [119, 108, 112, 50, 115, 48] (returns_of w))"
    and "s \<equiv> made_sock (brk w) (snd (opens [119, 108, 112, 50, 115, 48] (returns_of w))) 2 17 (lit_iface lit)"
  shows "\<exists>lb. main_send raw_socket transmit lit w =
    (if alloc_ok w (brk w + 3) \<and> alloc_ok w (brk w + 4) \<and> alloc_ok w (brk w + 5)
     then main_message transmit (Ptr (brk w) 0) (lit_data lit) (main_state w evs s lb (brk w + 6))
     else Faults (if alloc_ok w (brk w + 3) then StaleStrtok else NullDeref))"
proof -
  let ?h = "(heap w)(Suc (brk w) \<mapsto> Ip_options made_iopts, brk w \<mapsto> Net_socket s,
      Suc (Suc (brk w)) \<mapsto> Link_options \<lparr>link_type = SLIP, proto = slip_port 0x2f8\<rparr>)"
  let ?w = "stage w evs ?h (brk w + 3)"
  have "bytes_at (heap w) (lit_iface lit) ([119, 108, 112, 50, 115, 48] @ [0])"
    using assms(1) by (simp add: literals_at_def)
  from new_socket_slip_run [OF assms(2,4) this, of 2 17]
  have e1: "new_socket raw_socket 2 17 1 (TEST_SMAC lit) (TEST_DMAC lit) (lit_iface lit) w = Returns (Ptr (brk w) 0) ?w"
    by (simp add: evs_def s_def)
  show ?thesis
  proof (cases "alloc_ok w (brk w + 3)")
    case True
    then obtain lb where "ip_initialise ?w = Returns () (?w\<lparr>last_block := lb, used_ip_id_values := Ptr (brk w + 3) 0,
       heap := ?h(brk w + 3 \<mapsto> Bytes (replicate 8192 0)), brk := Suc (brk w + 3)\<rparr>)"
      using ip_initialise_run [of ?w] by auto
    then have e2: "ip_initialise ?w = Returns () (main_state w evs s lb (brk w + 4))"
      by (simp add: main_state_def stage_def after_calls_def)
    note addr = main_addresses [OF assms(1-3) _ s_def [unfolded atomize_eq], of _ evs lb]
    have e3: "inet_addr (lit_src lit) (main_state w evs s lb (brk w + 4)) = (if alloc_ok w (brk w + 4)
      then Returns (of_le32 [10, 0, 0, 2]) (main_state w evs s lb (brk w + 5)) else Faults StaleStrtok)"
      using addr(1) [of "brk w + 4"] by (simp add: eval_nat_numeral)
    have e4: "inet_addr (lit_dst lit) (main_state w evs s lb (brk w + 5)) = (if alloc_ok w (brk w + 5)
      then Returns (of_le32 [152, 53, 133, 5]) (main_state w evs s lb (brk w + 6)) else Faults StaleStrtok)"
      using addr(2) [of "brk w + 5"] by (simp add: eval_nat_numeral)
    show ?thesis
      using True e3 e4
      by (intro exI [of _ lb], cases "alloc_ok w (brk w + 4)"; cases "alloc_ok w (brk w + 5)")
        (simp_all add: main_send_def main_message_def e1 e2)
  next
    case False
    then have "ip_initialise ?w = Faults NullDeref" by (intro ip_initialise_no_memory) simp
    with e1 False show ?thesis by (simp add: main_send_def)
  qed
qed

lemma main_send_run:
  assumes "literals_at (heap w) lit" and "mem_inv w" and "memory_ok w" and "uart_ok w"
    and "rand_small w" and "\<not> moves w (brk w + 7)"
  shows "\<exists>s i w' tr. main_send raw_socket transmit lit w = Returns (Some 37) w'
    \<and> protocol s = 17
    \<and> trace w' = trace w @ fst (opens [119, 108, 112, 50, 115, 48] (returns_of w)) @ tr
    \<and> polite 0x2f8 False (slip_frame (ipv4_hdr_bytes (sock_hdr s made_iopts
        (of_le32 [10, 0, 0, 2]) (of_le32 [152, 53, 133, 5]) 17 i)
        @ message_hdr 1234 1337 9 @ hello)) tr"
proof -
  let ?o = "opens [119, 108, 112, 50, 115, 48] (returns_of w)"
  define s where "s = made_sock (brk w) (snd ?o) 2 17 (lit_iface lit)"
  have all: "alloc_ok w k" for k using assms(3) by (simp add: memory_ok_def)
  obtain lb where m: "main_send raw_socket transmit lit w
      = main_message transmit (Ptr (brk w) 0) (lit_data lit) (main_state w (fst ?o) s lb (brk w + 6))"
    using main_begins [OF assms(1,2,5)] all unfolding s_def by auto
  let ?W = "main_state w (fst ?o) s lb (brk w + 6)"
  have "brk w + 4 \<le> brk w + 6" by simp
  note ok = main_state_ok [OF assms(1,2,5) this s_def]
  have data: "src_at (heap ?W) (lit_data lit) hello"
    using ok(2) [of "fst ?o" lb] by (simp add: literals_at_def del: dotted.simps main_state_simps)
  have w: "uart_ok ?W" "memory_ok ?W" "\<not> moves ?W (Suc (brk ?W))"
    using assms(4,6) all by (simp_all add: uart_ok_def memory_ok_def add.commute)
  have fits: "udp_fits (length hello)" "length hello \<le> 65507" by (simp_all add: udp_fits_def)
  from udp_send_slip [OF ok(3,4) w(1) ok(5,6,1) w(2,3) data fits,
      of transmit "of_le32 [10, 0, 0, 2]" "of_le32 [152, 53, 133, 5]" 1234 1337] obtain i w' tr where
    u: "udp_send (link_tx transmit) (Ptr (brk w) 0) (of_le32 [10, 0, 0, 2]) (of_le32 [152, 53, 133, 5]) 1234 1337
        (lit_data lit) 9 ?W = Returns 37 w'"
      "trace w' = trace w @ fst ?o @ tr"
      "polite 0x2f8 False (slip_frame (ipv4_hdr_bytes (sock_hdr s made_iopts
        (of_le32 [10, 0, 0, 2]) (of_le32 [152, 53, 133, 5]) 17 i)
        @ message_hdr 1234 1337 9 @ hello)) tr"
    by (auto simp: message_hdr_def)
  have "main_send raw_socket transmit lit w = Returns (Some 37) w'"
    using m u(1) by (simp add: main_message_def)
  with u(2,3) ok(7) show ?thesis by blast
qed

end

section \<open>Out of memory\<close>

text \<open>Allocation \<open>k\<close> of the program, counted from 0, is the first to fail.\<close>

definition fails_at :: "world \<Rightarrow> nat \<Rightarrow> bool" where
  "fails_at w k \<longleftrightarrow> (\<forall>j<k. alloc_ok w (brk w + j)) \<and> \<not> alloc_ok w (brk w + k)"

lemma fails_at_less: "fails_at w k \<Longrightarrow> j < k \<Longrightarrow> alloc_ok w (brk w + j)"
  by (simp add: fails_at_def)

lemma fails_at_here: "fails_at w k \<Longrightarrow> \<not> alloc_ok w (brk w + k)"
  by (simp add: fails_at_def)

text \<open>The message, when one of its allocations fails.\<close>

lemma main_message_fails:
  assumes "literals_at (heap w) lit" and "mem_inv w" and "rand_small w" and "\<not> moves w (brk w + 7)"
    and "fails_at w k" and "6 \<le> k" and "k \<le> 9"
    and s_def: "s = made_sock (brk w) fd 2 17 (lit_iface lit)"
  shows "\<exists>w'. main_message transmit (Ptr (brk w) 0) (lit_data lit) (main_state w evs s lb (brk w + 6))
      = (if k = 6 then Faults AssertFailed else Returns (Some (if k = 7 then 0 else SIZE_MAX)) w')
    \<and> trace w' = trace w @ evs
        @ (if 8 \<le> k then [Printed_errno Stdout (errno_of w (brk w') (sys_count w'))] else [])"
proof -
  let ?W = "main_state w evs s lb (brk w + 6)"
  have "brk w + 4 \<le> brk w + 6" by simp
  note ok = main_state_ok [OF assms(1-3) this s_def]
  have data: "src_at (heap ?W) (lit_data lit) hello"
    using ok(2) [of evs lb] by (simp add: literals_at_def del: dotted.simps main_state_simps)
  show ?thesis
  proof (cases "k \<le> 7")
    case True
    from True assms(6) have "k = 6 \<or> k = 7" by arith
    then have "\<not> (alloc_ok ?W (brk ?W) \<and> alloc_ok ?W (Suc (brk ?W)))"
      using fails_at_here [OF assms(5)] by (auto simp: add.commute)
    then have u: "udp_send (link_tx transmit) (Ptr (brk w) 0) (of_le32 [10, 0, 0, 2]) (of_le32 [152, 53, 133, 5])
        1234 1337 (lit_data lit) 9 ?W =
      (if alloc_ok w (brk w + 6) then Returns 0 (main_state w evs s lb (Suc (Suc (brk w + 6)))) else Faults AssertFailed)"
      by (subst udp_send_no_memory_run [OF ok(1)]) simp_all
    have "alloc_ok w (brk w + 6) \<longleftrightarrow> k \<noteq> 6"
      using fails_at_here [OF assms(5)] fails_at_less [OF assms(5), of 6] assms(6) by auto
    with u True assms(6) show ?thesis
      by (intro exI [of _ "main_state w evs s lb (Suc (Suc (brk w + 6)))"]) (simp add: main_message_def)
  next
    case False
    obtain a where a: "Ptr (brk w) 0 = Ptr a 0" "heap ?W a = Some (Net_socket s)"
      using ok(3) slip_sock_sock by blast
    have "\<exists>w'. udp_send (link_tx transmit) (Ptr a 0) (of_le32 [10, 0, 0, 2]) (of_le32 [152, 53, 133, 5])
        1234 1337 (lit_data lit) (length hello) ?W = Returns SIZE_MAX w' \<and> trace w' = trace ?W \<and> errno_of w' = errno_of ?W"
    proof (rule udp_send_ip_fails [OF ok(1) _ _ _ data _ a(2) ok(4,5)])
      show "alloc_ok ?W (brk ?W)" "alloc_ok ?W (Suc (brk ?W))"
        using False fails_at_less [OF assms(5), of 6] fails_at_less [OF assms(5), of 7] by (simp_all add: add.commute)
      show "\<not> moves ?W (Suc (brk ?W))" using assms(4) by (simp add: add.commute)
      show "udp_fits (length hello)" by (simp add: udp_fits_def)
      have "k = 8 \<or> k = 9" using False assms(7) by auto
      then show "\<not> (alloc_ok ?W (brk ?W + 2) \<and> alloc_ok ?W (brk ?W + 3))"
        using fails_at_here [OF assms(5)] by (auto simp: add.commute)
    qed
    then obtain w' where "udp_send (link_tx transmit) (Ptr (brk w) 0) (of_le32 [10, 0, 0, 2]) (of_le32 [152, 53, 133, 5])
        1234 1337 (lit_data lit) 9 ?W = Returns SIZE_MAX w'" "trace w' = trace ?W" "errno_of w' = errno_of w"
      using a(1) by auto
    with False show ?thesis
      by (intro exI [of _ "w'\<lparr>trace := trace w' @ [Printed_errno Stdout (errno_of w (brk w') (sys_count w'))]\<rparr>"])
        (simp add: main_message_def print_errno_def)
  qed
qed

text \<open>The exit of \<open>main\<close> when the socket or its options cannot be allocated.\<close>

lemma main_socket_fails:
  assumes "literals_at (heap w) lit" and "mem_inv w" and "fails_at w k" and "k \<le> 2"
  shows "\<exists>w'. main_send lf_os_raw_socket lf_os_transmit lit w = Returns None w'
    \<and> trace w' = trace w @ (if k = 0 then [] else [Ioperm 0x2f8 7])
      @ [Printed_errno Stderr (errno_of w (brk w') (sys_count w'))]"
proof -
  note less = fails_at_less [OF assms(3)] and here = fails_at_here [OF assms(3)]
  have lit: "bytes_at (heap w) (lit_iface lit) ([119, 108, 112, 50, 115, 48] @ [0])" using assms(1) by (simp add: literals_at_def)
  from assms(4) have k: "k = 0 \<or> k = 1 \<or> k = 2" by arith
  then have ok: "alloc_ok w (brk w) \<longleftrightarrow> k \<noteq> 0" "alloc_ok w (Suc (brk w)) \<longrightarrow> k \<noteq> 1"
    "\<not> (alloc_ok w (brk w) \<and> alloc_ok w (Suc (brk w)) \<and> alloc_ok w (Suc (Suc (brk w))))"
    using here less [of 0] by auto
  define v where "v = (if k = 0 then stage w [] (heap w) (Suc (brk w))
    else stage w [Ioperm 0x2f8 7] (heap w) (if alloc_ok w (Suc (brk w)) then Suc (Suc (Suc (brk w))) else Suc (Suc (brk w))))"
  have "new_socket lf_os_raw_socket 2 17 1 (TEST_SMAC lit) (TEST_DMAC lit) (lit_iface lit) w = Returns Null v"
    using lf_os_os.new_socket_no_memory [OF assms(2) lit _ ok(3), of 2 17 1] ok(1) by (simp add: v_def lf_os_opens_def)
  moreover have "errno_of v = errno_of w" by (simp add: v_def stage_def after_calls_def)
  moreover have "trace v = trace w @ (if k = 0 then [] else [Ioperm 0x2f8 7])" by (simp add: v_def)
  ultimately show ?thesis 
    by (intro exI [of _ "v\<lparr>trace := trace v @ [Printed_errno Stderr (errno_of w (brk v) (sys_count v))]\<rparr>"])
      (simp add: main_send_def print_errno_def)
qed

lemma lf_os_main_fails:
  assumes "literals_at (heap w) lit" and "mem_inv w" and "rand_small w" and "\<not> moves w (brk w + 7)"
    and "fails_at w k" and "k \<le> 9"
  shows "\<exists>w'. main_send lf_os_raw_socket lf_os_transmit lit w =
      (if k \<le> 2 then Returns None w' else if k \<le> 5 then Faults (if k = 3 then NullDeref else StaleStrtok) else if k = 6 then Faults AssertFailed
       else Returns (Some (if k = 7 then 0 else SIZE_MAX)) w')
    \<and> trace w' = trace w @ (if k = 0 then [] else [Ioperm 0x2f8 7])
      @ (if k \<le> 2 then [Printed_errno Stderr (errno_of w (brk w') (sys_count w'))]
         else if 8 \<le> k then [Printed_errno Stdout (errno_of w (brk w') (sys_count w'))] else [])"
proof -
  let ?name = "[119, 108, 112, 50, 115, 48] :: u8 list"
  have evs: "fst (lf_os_opens n ret) = [Ioperm 0x2f8 7]" for n ret by (simp add: lf_os_opens_def)
  note less = fails_at_less [OF assms(5)] and here = fails_at_here [OF assms(5)]
  show ?thesis
  proof (cases "k \<le> 2")
    case True
    with main_socket_fails [OF assms(1,2,5)] show ?thesis by auto
  next
    case False
    define s where "s = made_sock (brk w) (snd (lf_os_opens ?name (returns_of w))) 2 17 (lit_iface lit)"
    have "alloc_ok w (brk w) \<and> alloc_ok w (Suc (brk w)) \<and> alloc_ok w (Suc (Suc (brk w)))"
      using False less [of 0] less [of 1] less [of 2] by simp
    from lf_os_os.main_begins [OF assms(1-3) this, folded s_def, unfolded evs] obtain lb where
      b: "main_send lf_os_raw_socket lf_os_transmit lit w =
        (if alloc_ok w (brk w + 3) \<and> alloc_ok w (brk w + 4) \<and> alloc_ok w (brk w + 5)
         then main_message lf_os_transmit (Ptr (brk w) 0) (lit_data lit) (main_state w [Ioperm 0x2f8 7] s lb (brk w + 6))
         else Faults (if alloc_ok w (brk w + 3) then StaleStrtok else NullDeref))"
      by blast
    show ?thesis
    proof (cases "k \<le> 5")
      case True
      with False have "k = 3 \<or> k = 4 \<or> k = 5" by arith
      then have "main_send lf_os_raw_socket lf_os_transmit lit w = Faults (if k = 3 then NullDeref else StaleStrtok)"
        using b here less [of 3] by auto
      with True False show ?thesis
        by (intro exI [of _ "w\<lparr>trace := trace w @ [Ioperm 0x2f8 7]\<rparr>"]) simp
    next
      case six: False
      then have "main_send lf_os_raw_socket lf_os_transmit lit w
        = main_message lf_os_transmit (Ptr (brk w) 0) (lit_data lit) (main_state w [Ioperm 0x2f8 7] s lb (brk w + 6))"
        using b less [of 3] less [of 4] less [of 5] by simp
      with main_message_fails [OF assms(1-5) _ assms(6) s_def, of lf_os_transmit "[Ioperm 0x2f8 7]" lb] six False
      show ?thesis by simp
    qed
  qed
qed

section \<open>Properties\<close>

text \<open>C6: on LF OS the program puts exactly one frame on the serial port: a datagram from 10.0.0.2 to
  152.53.133.5 with protocol UDP, which a receiver takes apart into a message from port 1234 to
  port 1337 with the text. Then it loops forever.\<close>

theorem main_sends_message:
  assumes "literals_at (heap w) lit" and "mem_inv w" and "memory_ok w" and "uart_ok w"
    and "rand_small w" and "\<not> moves w (brk w + 7)"
  shows "\<exists>w' tr dg h pl. main_send lf_os_raw_socket lf_os_transmit lit w = Returns (Some 37) w'
    \<and> trace w' = trace w @ [Ioperm 0x2f8 7] @ tr \<and> polite 0x2f8 False (slip_frame dg) tr
    \<and> rfc791_receive dg = Some (h, pl) \<and> le32 (hsrc h) = [10, 0, 0, 2] \<and> le32 (hdst h) = [152, 53, 133, 5]
    \<and> ptcl h = 17 \<and> ttl h = 64 \<and> rfc768_receive pl = Some (1234, 1337, hello)
    \<and> main_prog lf_os_raw_socket lf_os_transmit lit w = Diverges"
proof -
  from lf_os_os.main_send_run [OF assms] obtain s i w' tr where
    r: "main_send lf_os_raw_socket lf_os_transmit lit w = Returns (Some 37) w'" "protocol s = 17"
      "trace w' = trace w @ fst (lf_os_opens [119, 108, 112, 50, 115, 48] (returns_of w)) @ tr"
      "polite 0x2f8 False (slip_frame (ipv4_hdr_bytes (sock_hdr s made_iopts
        (of_le32 [10, 0, 0, 2]) (of_le32 [152, 53, 133, 5]) 17 i) @ message_hdr 1234 1337 9 @ hello)) tr"
    by (elim exE conjE) (rule that)
  define h where "h = sock_hdr s made_iopts (of_le32 [10, 0, 0, 2]) (of_le32 [152, 53, 133, 5]) 17 i"
  let ?pl = "message_hdr 1234 1337 9 @ hello"
  have "rfc791_receive (ipv4_hdr_bytes h @ ?pl) = Some (h, ?pl)"
    using sock_hdr_received [of ?pl s made_iopts "of_le32 [10, 0, 0, 2]" "of_le32 [152, 53, 133, 5]" i]
    by (simp add: h_def made_iopts_def zero_ipv4_socket_options_def)
  moreover have "rfc768_receive ?pl = Some (1234, 1337, hello)"
    using message_received [of hello 1234 1337] by simp
  moreover have "le32 (hsrc h) = [10, 0, 0, 2]" "le32 (hdst h) = [152, 53, 133, 5]" "ptcl h = 17" "ttl h = 64"
    using r(2) by (simp_all add: h_def sock_hdr_def plain_hdr_def with_csum_def made_iopts_def)
  moreover have "trace w' = trace w @ [Ioperm 0x2f8 7] @ tr" using r(3) by (simp add: lf_os_opens_def)
  moreover have "main_prog lf_os_raw_socket lf_os_transmit lit w = Diverges"
    using r(1) by (simp add: main_prog_def main_loop_never)
  ultimately show ?thesis using r(1,4) unfolding h_def by blast
qed

definition demo_lit :: literals where
  "demo_lit = \<lparr>TEST_SMAC = Ptr 0 0, TEST_DMAC = Ptr 1 0, lit_iface = Ptr 2 0, lit_src = Ptr 3 0,
     lit_dst = Ptr 4 0, lit_data = Ptr 5 0\<rparr>"

definition demo_main :: world where
  "demo_main = demo_with [Bytes [0xE0, 0x9D, 0x31, 0x29, 0x22, 0xE0, 0], Bytes [0xFA, 0x22, 0x23, 0x87, 0xA9, 0x9D, 0],
     Bytes [119, 108, 112, 50, 115, 48, 0], Bytes (dotted [10, 0, 0, 2] @ [0]),
     Bytes (dotted [152, 53, 133, 5] @ [0]), Bytes (hello @ [0])]"

lemma demo_main_heap [simp]:
  "heap demo_main 2 = Some (Bytes [119, 108, 112, 50, 115, 48, 0])"
  "heap demo_main 3 = Some (Bytes (dotted [10, 0, 0, 2] @ [0]))"
  "heap demo_main 4 = Some (Bytes (dotted [152, 53, 133, 5] @ [0]))"
  "heap demo_main 5 = Some (Bytes (hello @ [0]))"
  by (simp_all add: demo_main_def del: dotted.simps)

lemma demo_main_literals: "literals_at (heap demo_main) demo_lit"
  unfolding literals_at_def demo_lit_def by (simp del: dotted.simps)

theorem main_sends_message_witness:
  "\<exists>w'. main_send lf_os_raw_socket lf_os_transmit demo_lit demo_main = Returns (Some 37) w'"
proof -
  note demo_main_literals
  moreover have "mem_inv demo_main" "memory_ok demo_main" "rand_small demo_main"
      "\<not> moves demo_main (brk demo_main + 7)"
    by (simp_all add: demo_main_def memory_ok_def rand_small_def)
  moreover have "uart_ok demo_main"
    unfolding uart_ok_def
  proof
    fix k
    have "ready (uart demo_main (k + 2))" by (simp add: demo_main_def ready_def)
    then show "\<exists>j\<ge>k. ready (uart demo_main j)" by (intro exI [of _ "k + 2"] conjI le_add1)
  qed
  ultimately show ?thesis using main_sends_message by blast
qed

text \<open>C31: how the program ends when memory runs out, for each of its ten allocations that can be the
  first to fail. Without memory for the socket and its options it reports and returns -1; without
  memory for the bitmap it writes through a null pointer; for a copy of an address it makes
  \<open>strtok\<close> go on with no string; for the UDP header it aborts; for resizing that block it loops and reports nothing; for the IP header and the packet
  it reports and loops.\<close>

theorem main_out_of_memory:
  assumes "literals_at (heap w) lit" and "mem_inv w" and "rand_small w" and "\<not> moves w (brk w + 7)"
    and "fails_at w k" and "k \<le> 9"
  shows "\<exists>w'. main_send lf_os_raw_socket lf_os_transmit lit w =
      (if k \<le> 2 then Returns None w' else if k \<le> 5 then Faults (if k = 3 then NullDeref else StaleStrtok) else if k = 6 then Faults AssertFailed
       else Returns (Some (if k = 7 then 0 else SIZE_MAX)) w')
    \<and> main_prog lf_os_raw_socket lf_os_transmit lit w =
      (if k \<le> 2 then Returns (-1) w' else if k \<le> 5 then Faults (if k = 3 then NullDeref else StaleStrtok) else if k = 6 then Faults AssertFailed
       else Diverges)
    \<and> trace w' = trace w @ (if k = 0 then [] else [Ioperm 0x2f8 7])
      @ (if k \<le> 2 then [Printed_errno Stderr (errno_of w (brk w') (sys_count w'))]
         else if 8 \<le> k then [Printed_errno Stdout (errno_of w (brk w') (sys_count w'))] else [])"
proof -
  have "\<exists>w'. main_send lf_os_raw_socket lf_os_transmit lit w =
      (if k \<le> 2 then Returns None w' else if k \<le> 5 then Faults (if k = 3 then NullDeref else StaleStrtok) else if k = 6 then Faults AssertFailed
       else Returns (Some (if k = 7 then 0 else SIZE_MAX)) w')
    \<and> trace w' = trace w @ (if k = 0 then [] else [Ioperm 0x2f8 7])
      @ (if k \<le> 2 then [Printed_errno Stderr (errno_of w (brk w') (sys_count w'))]
         else if 8 \<le> k then [Printed_errno Stdout (errno_of w (brk w') (sys_count w'))] else [])"
    by (rule lf_os_main_fails [OF assms])
  then show ?thesis by (elim exE) (auto simp: main_prog_def main_loop_never split: if_splits)
qed

theorem main_out_of_memory_witness:
  "\<exists>w'. main_prog lf_os_raw_socket lf_os_transmit demo_lit (demo_main\<lparr>alloc_ok := \<lambda>b. b \<noteq> 8\<rparr>) = Returns (-1) w'
    \<and> trace w' = [Ioperm 0x2f8 7, Printed_errno Stderr 12]"
proof -
  let ?w = "demo_main\<lparr>alloc_ok := \<lambda>b. b \<noteq> 8\<rparr>"
  have "literals_at (heap ?w) demo_lit" using demo_main_literals by simp
  moreover have "mem_inv ?w" "rand_small ?w" "\<not> moves ?w (brk ?w + 7)"
    by (simp_all add: demo_main_def mem_inv_def rand_small_def)
  moreover have "fails_at ?w 2" by (simp add: fails_at_def demo_main_def)
  ultimately show ?thesis
    using main_out_of_memory [of ?w demo_lit 2] by (auto simp: demo_main_def demo_with_def demo_world_def)
qed

end
