(* ===== verification/Id_Sequence.thy ===== *)
theory Id_Sequence
  imports Ip_Id
begin

text \<open>
  The identifiers of consecutive datagrams: each is taken, and freed when its datagram was sent, so
  that every search starts from a bitmap with no value in use. What it ends with is computed, and
  runs through at most 1024 values, whatever the random numbers are.
\<close>

section \<open>The search in an idle bitmap\<close>

text \<open>The block after block \<open>lb\<close>, and the identifier that a search from a block finds at once.\<close>

definition next_block :: "(u32 \<Rightarrow> int) \<Rightarrow> u16 \<Rightarrow> u16" where
  "next_block rand lb = word_of_int ((uint lb + rand (ucast lb) mod 2 ^ 31) mod max_blocks)"

definition idle_id :: "u16 \<Rightarrow> u16" where
  "idle_id blk = (if blk = 0 then 3 else word_of_int (uint blk * 8))"

lemma start_block_next: "start_block w = next_block (rand_of w) (last_block w)"
  by (simp add: start_block_def next_block_def block_sum_def)

lemma idle_id_start: "idle_id (start_block w) = (if start_entry w = 0 then 3 else start_entry w)"
proof -
  have "start_entry w = 0 \<longleftrightarrow> uint (start_entry w) = 0" by (simp add: unsigned_eq_0_iff)
  also have "\<dots> \<longleftrightarrow> start_block w = 0"
    by (simp only: uint_start_entry uint_start_block [symmetric]) (simp add: unsigned_eq_0_iff)
  finally show ?thesis by (simp add: idle_id_def start_entry_def)
qed

lemma unat_idle_id: "unat (idle_id (next_block rand lb)) \<in> insert 3 ((\<lambda>k. 8 * k) ` {1..<1024})"
proof (cases "next_block rand lb = 0")
  case False
  let ?x = "(uint lb + rand (ucast lb) mod 2 ^ 31) mod 1024"
  have "0 \<le> uint lb + rand (ucast lb) mod 2 ^ 31" by simp
  then have x: "0 \<le> ?x" "?x < 1024" by simp_all
  then have b: "uint (next_block rand lb) = ?x"
    by (simp add: next_block_def max_blocks_def uint_word_of_int_eq take_bit_int_eq_self_iff)
  have "uint (word_of_int (?x * 8) :: u16) = ?x * 8"
    unfolding uint_word_of_int_eq take_bit_int_eq_self_iff using x by simp
  then have "unat (idle_id (next_block rand lb)) = 8 * nat ?x"
    using False x b by (simp add: idle_id_def unat_eq_nat_uint nat_mult_distrib mult.commute)
  moreover have "nat ?x \<in> {1..<1024}"
  proof -
    have "?x \<noteq> 0" using False b by (metis uint_0_iff)
    with x show ?thesis by auto
  qed
  ultimately show ?thesis by blast
qed (simp add: idle_id_def)

lemma chosen_idle:
  assumes "chosen (start_entry w) bs i" and "bits_elems bs \<subseteq> {0}"
  shows "i = idle_id (start_block w)"
proof -
  let ?e = "start_entry w"
  obtain k where k: "unat i = probe (unat ?e) k" "free_at bs (unat i)"
    "\<forall>j<k. \<not> free_at bs (probe (unat ?e) j)"
    using assms(1) by (auto simp: chosen_def)
  have free: "free_at bs x \<longleftrightarrow> x \<noteq> 0" for x using assms(2) by (auto simp: free_at_def)
  have p0: "probe (unat ?e) 0 = unat ?e" by (rule probe_0 [OF start_entry_less])
  have "unat i = unat (idle_id (start_block w))"
  proof (cases "?e = 0")
    case True
    then have "k \<noteq> 0" using k(1,2) p0 by (auto simp: free intro: ccontr)
    moreover have "free_at bs (probe (unat ?e) 1)" using True by (simp add: free probe_def)
    then have "\<not> 1 < k" using k(3) by blast
    ultimately have "k = 1" by simp
    then show ?thesis using k(1) True by (simp add: idle_id_start probe_def)
  next
    case False
    then have "free_at bs (probe (unat ?e) 0)" by (simp add: free p0 unat_eq_zero)
    then have "k = 0" using k(3) by blast
    then show ?thesis using k(1) False by (simp add: idle_id_start p0)
  qed
  then show ?thesis by (simp add: word_unat_eq_iff)
qed

section \<open>The sequence\<close>

text \<open>The identifiers of \<open>n\<close> datagrams that are sent one after the other from block \<open>lb\<close> on.\<close>

primrec idle_ids :: "(u32 \<Rightarrow> int) \<Rightarrow> u16 \<Rightarrow> nat \<Rightarrow> u16 list" where
  "idle_ids rand lb 0 = []"
| "idle_ids rand lb (Suc n) = idle_id (next_block rand lb) # idle_ids rand (next_block rand lb) n"

lemma length_idle_ids [simp]: "length (idle_ids rand lb n) = n"
  by (induction n arbitrary: lb) simp_all

lemma idle_ids_nth: "k < n \<Longrightarrow> idle_ids rand lb n ! k = idle_id ((next_block rand ^^ Suc k) lb)"
  by (induction n arbitrary: k lb) (auto simp: nth_Cons funpow_swap1 split: nat.splits)

lemma idle_ids_range: "unat ` set (idle_ids rand lb n) \<subseteq> insert 3 ((\<lambda>k. 8 * k) ` {1..<1024})"
proof (induction n arbitrary: lb)
  case (Suc n)
  with unat_idle_id [of rand lb] show ?case by (simp del: insert_iff)
qed simp

text \<open>Among 1025 of them two are equal.\<close>

lemma idle_ids_distinct:
  assumes "distinct (idle_ids rand lb n)"
  shows "n \<le> 1024"
proof -
  let ?V = "insert 3 ((\<lambda>k. 8 * k) ` {1..<1024}) :: nat set"
  let ?ids = "idle_ids rand lb n"
  have "n = card (set ?ids)" using distinct_card [OF assms] by simp
  also have "\<dots> = card (unat ` set ?ids)" by (rule card_image [symmetric]) (simp add: inj_on_def word_unat_eq_iff)
  also have "\<dots> \<le> card ?V" by (intro card_mono idle_ids_range) simp
  also have "\<dots> \<le> Suc (card ((\<lambda>k. 8 * k) ` {1..<1024 :: nat}))" by (rule card_insert_le_m1) simp_all
  also have "\<dots> \<le> 1024" using card_image_le [of "{1..<1024 :: nat}" "\<lambda>k. 8 * k"] by simp
  finally show ?thesis .
qed

end
