(* ===== verification/Session.thy ===== *)
theory Session
  imports Main_Prog Id_Sequence
begin

text \<open>
  Messages one after the other: what a client that calls \<open>udp_send\<close> again and again on one socket
  gets. Every call leaves a state in which the next one works, so that a whole sequence of
  messages goes over the link in order. Proved once for every link.
\<close>

section \<open>A client\<close>

record message =
  msg_dst :: u32
  msg_sport :: u16
  msg_dport :: u16
  msg_ptr :: ptr
  msg_data :: "u8 list"

primrec send_all :: "(ptr \<Rightarrow> ptr \<Rightarrow> nat \<Rightarrow> nat cprog) \<Rightarrow> ptr \<Rightarrow> u32 \<Rightarrow> message list \<Rightarrow> nat list cprog" where
  "send_all link p src [] = retp []"
| "send_all link p src (m # ms) =
     bindp (udp_send link p src (msg_dst m) (msg_sport m) (msg_dport m) (msg_ptr m) (length (msg_data m))) (\<lambda>n.
     bindp (send_all link p src ms) (\<lambda>ns.
     retp (n # ns)))"

text \<open>A message that can be sent: its data is in memory, apart from the bitmap \<open>b\<close>, and fits.\<close>

definition message_ok :: "(nat \<rightharpoonup> obj) \<Rightarrow> nat \<Rightarrow> message \<Rightarrow> bool" where
  "message_ok h b m \<longleftrightarrow> src_at h (msg_ptr m) (msg_data m) \<and> b \<notin> ptr_block (msg_ptr m)
     \<and> udp_fits (length (msg_data m)) \<and> length (msg_data m) \<le> 65507"

text \<open>
  The state between two messages: no identifier is in use, memory is available and blocks stay
  where they are when they grow.
\<close>

definition idle :: "world \<Rightarrow> ptr \<Rightarrow> net_socket \<Rightarrow> ipv4_socket_options \<Rightarrow> nat \<Rightarrow> bool" where
  "idle w p s io b \<longleftrightarrow> iopts_at (heap w) s io \<and> b \<notin> link_foot (heap w) p
     \<and> mem_inv w \<and> memory_ok w \<and> rand_small w \<and> (\<forall>k. \<not> moves w k)
     \<and> (\<exists>bs. id_map w b bs \<and> bits_elems bs \<subseteq> {0})"

definition datagram :: "net_socket \<Rightarrow> ipv4_socket_options \<Rightarrow> u32 \<Rightarrow> message \<Rightarrow> u16 \<Rightarrow> u8 list" where
  "datagram s io src m i = ipv4_hdr_bytes (sock_hdr s io src (msg_dst m) (length (msg_data m) + 8) i)
     @ message_hdr (msg_sport m) (msg_dport m) (length (msg_data m)) @ msg_data m"

text \<open>What arrives is the message, for receivers of RFC 791 and RFC 768.\<close>

definition arrives :: "net_socket \<Rightarrow> ipv4_socket_options \<Rightarrow> u32 \<Rightarrow> message \<Rightarrow> u8 list \<Rightarrow> bool" where
  "arrives s io src m dg \<longleftrightarrow> (\<exists>h pl. rfc791_receive dg = Some (h, pl) \<and> hsrc h = src \<and> hdst h = msg_dst m
     \<and> ptcl h = word_of_int (protocol s) \<and> ttl h = sopt_ttl io
     \<and> rfc768_receive pl = Some (msg_sport m, msg_dport m, msg_data m))"

lemma idle_ids_ok:
  assumes "id_map w b bs" and "bits_elems bs \<subseteq> {0}" and "rand_small w"
  shows "ids_ok w b bs"
  using assms rand_small_block_sum selectable_small [of bs 0] by (simp add: ids_ok_def)

lemma idle_id_map: "idle w p s io b \<Longrightarrow> \<exists>bs. id_map w b bs \<and> bits_elems bs \<subseteq> {0}"
  by (simp add: idle_def)

text \<open>
  Every datagram that \<open>udp_send\<close> hands to a link is taken apart again by the receivers of RFC 791
  and RFC 768: the two round trips composed.
\<close>

lemma sent_datagram_received:
  assumes "length xs \<le> 65507" and "no_fragment io = 0" and m_def: "m = message_hdr sp dp (length xs) @ xs"
  shows "rfc791_receive (ipv4_hdr_bytes (sock_hdr s io src dst (length xs + 8) i) @ m)
      = Some (sock_hdr s io src dst (length xs + 8) i, m)"
    and "rfc768_receive m = Some (sp, dp, xs)"
    and "length (ipv4_hdr_bytes (sock_hdr s io src dst (length xs + 8) i) @ m) = length xs + 28"
proof -
  show "rfc791_receive (ipv4_hdr_bytes (sock_hdr s io src dst (length xs + 8) i) @ m)
      = Some (sock_hdr s io src dst (length xs + 8) i, m)"
    using sock_hdr_received [of m s io src dst i] assms(1,2) by (simp add: m_def add.commute)
  show "rfc768_receive m = Some (sp, dp, xs)"
    unfolding m_def using assms(1) by (intro message_received) simp
qed (simp add: m_def)

lemma sock_hdr_addresses:
  "hsrc (sock_hdr s io src dst n i) = src" "hdst (sock_hdr s io src dst n i) = dst"
  "ptcl (sock_hdr s io src dst n i) = word_of_int (protocol s)" "ttl (sock_hdr s io src dst n i) = sopt_ttl io"
  by (simp_all add: sock_hdr_def plain_hdr_def with_csum_def)

lemma datagram_arrives:
  assumes "length (msg_data m) \<le> 65507" and "no_fragment io = 0"
  shows "arrives s io src m (datagram s io src m i)"
    and "length (datagram s io src m i) = length (msg_data m) + 28"
proof -
  note r = sent_datagram_received [OF assms refl]
  show "arrives s io src m (datagram s io src m i)"
    unfolding arrives_def datagram_def by (intro exI conjI) (rule r(1) sock_hdr_addresses r(2))+
  show "length (datagram s io src m i) = length (msg_data m) + 28"
    unfolding datagram_def by (rule r(3))
qed

lemma all_arrive:
  assumes "\<forall>m \<in> set ms. message_ok h b m"
    and "list_all2 (\<lambda>m dg. \<exists>i. dg = datagram s io src m i) ms dgs" and "no_fragment io = 0"
  shows "list_all2 (arrives s io src) ms dgs" and "\<forall>dg \<in> set dgs. dg \<noteq> [] \<and> length dg < 65536"
proof -
  have "list_all2 (\<lambda>m dg. arrives s io src m dg \<and> dg \<noteq> [] \<and> length dg < 65536) ms dgs"
  proof (rule list.rel_mono_strong [OF assms(2)])
    fix m dg
    assume "m \<in> set ms" "\<exists>i. dg = datagram s io src m i"
    moreover from this have "length (msg_data m) \<le> 65507" using assms(1) by (simp add: message_ok_def)
    ultimately have "arrives s io src m dg" "length dg = length (msg_data m) + 28" "length (msg_data m) \<le> 65507"
      using datagram_arrives [OF _ assms(3), of m s src] by blast+
    then show "arrives s io src m dg \<and> dg \<noteq> [] \<and> length dg < 65536" by auto
  qed
  then show "list_all2 (arrives s io src) ms dgs" and "\<forall>dg \<in> set dgs. dg \<noteq> [] \<and> length dg < 65536"
    by (auto simp: list_all2_conv_all_nth in_set_conv_nth)
qed

text \<open>Writing the bitmap does not change what the socket uses.\<close>

lemma link_foot_apart:
  assumes "b \<notin> link_foot h p"
  shows "link_foot (h(b := x)) p = link_foot h p"
proof (cases p)
  case (Ptr k off)
  then have k: "b \<noteq> k" using assms by (auto simp: link_foot_def)
  show ?thesis
  proof (cases "h k")
    case (Some y)
    with assms Ptr k show ?thesis
      by (cases y) (auto simp: link_foot_def split: ptr.splits)
  qed (use Ptr k in \<open>simp add: link_foot_def\<close>)
qed (simp add: link_foot_def)

lemma iopts_at_bitmap:
  assumes "iopts_at h s io" and "h b = Some (Bytes bs)"
  shows "iopts_at (h(b \<mapsto> y)) s io"
  using assms by (auto simp: iopts_at_def)

lemma message_ok_apart: "message_ok h b m \<Longrightarrow> message_ok (h(b := x)) b m"
  by (simp add: message_ok_def src_at_apart)

section \<open>One message after the other\<close>

context link_layer begin

lemma send_step:
  assumes "sock_ok c (heap w) p s" and "dev_ok w" and "idle w p s io b" and "message_ok (heap w) b m"
  shows "\<exists>i cs r w' tr. udp_send tx p src (msg_dst m) (msg_sport m) (msg_dport m) (msg_ptr m)
        (length (msg_data m)) w = Returns (r mod 65536) w'
    \<and> sock_ok c (heap w') p s \<and> dev_ok w' \<and> idle w' p s io b
    \<and> heap w' = (heap w)(b \<mapsto> Bytes cs) \<and> trace w' = trace w @ tr
    \<and> i = idle_id (next_block (rand_of w) (last_block w)) \<and> rand_of w' = rand_of w
    \<and> last_block w' = next_block (rand_of w) (last_block w)
    \<and> carries c s (returns_of w) (datagram s io src m i) r tr"
proof -
  obtain bs where bs: "id_map w b bs" "bits_elems bs \<subseteq> {0}" using idle_id_map [OF assms(3)] by blast
  have hb: "heap w b = Some (Bytes bs)" "used_ip_id_values w = Ptr b 0" using bs(1) by (simp_all add: id_map_def)
  have i: "iopts_at (heap w) s io" "b \<notin> link_foot (heap w) p" "mem_inv w" "memory_ok w" "rand_small w"
    "\<And>k. \<not> moves w k" using assms(3) by (simp_all add: idle_def)
  have m: "src_at (heap w) (msg_ptr m) (msg_data m)" "udp_fits (length (msg_data m))"
    "length (msg_data m) \<le> 65507" using assms(4) by (simp_all add: message_ok_def)
  from udp_send_kept [OF assms(1) i(1) assms(2) idle_ids_ok [OF bs i(5)] i(2,3,4,6) m,
      of src "msg_dst m" "msg_sport m" "msg_dport m", folded datagram_def]
  obtain j cs r w' tr where r: "udp_send tx p src (msg_dst m) (msg_sport m) (msg_dport m) (msg_ptr m)
        (length (msg_data m)) w = Returns (r mod 65536) w'" "kept w w'" "length cs = 8192"
    "chosen (start_entry w) bs j" "last_block w' = start_block w"
    "heap w' = (heap w)(b \<mapsto> Bytes cs)" "insert 0 (bits_elems cs) = insert 0 (bits_elems bs)"
    "trace w' = trace w @ tr" "carries c s (returns_of w) (datagram s io src m j) r tr"
    by (elim exE conjE) (rule that)
  have "bits_elems cs \<subseteq> {0}" using r(7) bs(2) by blast
  moreover have "id_map w' b cs" using r(3,4) kept_env(5) [OF r(2)] hb r(6) by (simp add: id_map_def)
  moreover have "mem_inv w'" by (rule kept_mem_inv [OF r(2) i(3) r(6)]) (simp add: hb)
  moreover have "iopts_at (heap w') s io" unfolding r(6) by (rule iopts_at_bitmap [OF i(1) hb(1)])
  moreover have "b \<notin> link_foot (heap w') p" unfolding r(6) link_foot_apart [OF i(2)] by (rule i(2))
  ultimately have "idle w' p s io b"
    using i(4-6) kept_env [OF r(2)] by (auto simp: idle_def memory_ok_def rand_small_def)
  moreover have "sock_ok c (heap w') p s" unfolding r(6) by (rule apart [OF assms(1) i(2)])
  moreover have "dev_ok w'" using device [OF assms(2)] kept_env [OF r(2)] by simp
  moreover note kept_env(3) [OF r(2)] chosen_idle [OF r(4) bs(2), unfolded start_block_next]
    r(5) [unfolded start_block_next]
  ultimately show ?thesis using r(1,6,8,9) by blast
qed

lemma send_all_run:
  assumes "sock_ok c (heap w) p s" and "dev_ok w" and "idle w p s io b"
    and "\<forall>m \<in> set ms. message_ok (heap w) b m"
  shows "\<exists>dgs rs trs w' cs. send_all tx p src ms w = Returns (map (\<lambda>r. r mod 65536) rs) w'
    \<and> list_all2 (\<lambda>m dg. \<exists>i. dg = datagram s io src m i) ms dgs
    \<and> dgs = map2 (datagram s io src) ms (idle_ids (rand_of w) (last_block w) (length ms))
    \<and> list_all2 (\<lambda>dg (r, tr). \<exists>ret. carries c s ret dg r tr) dgs (zip rs trs)
    \<and> length rs = length ms \<and> length trs = length ms
    \<and> idle w' p s io b \<and> heap w' = (heap w)(b \<mapsto> Bytes cs) \<and> trace w' = trace w @ concat trs"
  using assms
proof (induction ms arbitrary: w)
  case Nil
  then obtain bs where "id_map w b bs" using idle_id_map by blast
  then have "heap w = (heap w)(b \<mapsto> Bytes bs)" by (simp add: id_map_def fun_upd_idem)
  with Nil(3) show ?case by (intro exI [of _ "[]"] exI [of _ w] exI [of _ bs]) simp
next
  case (Cons m ms)
  from send_step [OF Cons.prems(1,2,3), of m src] Cons.prems(4) obtain i cs1 r w1 tr where
    1: "udp_send tx p src (msg_dst m) (msg_sport m) (msg_dport m) (msg_ptr m) (length (msg_data m)) w
        = Returns (r mod 65536) w1"
      "sock_ok c (heap w1) p s" "dev_ok w1" "idle w1 p s io b"
      "heap w1 = (heap w)(b \<mapsto> Bytes cs1)" "trace w1 = trace w @ tr"
      "i = idle_id (next_block (rand_of w) (last_block w))" "rand_of w1 = rand_of w"
      "last_block w1 = next_block (rand_of w) (last_block w)"
      "carries c s (returns_of w) (datagram s io src m i) r tr"
    by auto
  have "\<forall>m \<in> set ms. message_ok (heap w1) b m"
    using Cons.prems(4) by (simp add: 1(5) message_ok_apart)
  from Cons.IH [OF 1(2-4) this] obtain dgs rs trs w' cs where
    2: "send_all tx p src ms w1 = Returns (map (\<lambda>r. r mod 65536) rs) w'"
      "list_all2 (\<lambda>m dg. \<exists>i. dg = datagram s io src m i) ms dgs"
      "dgs = map2 (datagram s io src) ms (idle_ids (rand_of w1) (last_block w1) (length ms))"
      "list_all2 (\<lambda>dg (r, tr). \<exists>ret. carries c s ret dg r tr) dgs (zip rs trs)"
      "length rs = length ms" "length trs = length ms"
      "idle w' p s io b" "heap w' = (heap w1)(b \<mapsto> Bytes cs)" "trace w' = trace w1 @ concat trs"
    by (elim exE conjE) (rule that)
  show ?case
    using 1 2 by (intro exI [of _ "datagram s io src m i # dgs"] exI [of _ "r # rs"] exI [of _ "tr # trs"]
        exI [of _ w'] exI [of _ cs]) auto
qed

end
text \<open>A whole client: open a socket, set up the identifiers, send the messages.\<close>

definition client :: "(ptr \<Rightarrow> int cprog) \<Rightarrow> (ptr \<Rightarrow> ptr \<Rightarrow> nat \<Rightarrow> nat cprog) \<Rightarrow> int \<Rightarrow> int \<Rightarrow> int \<Rightarrow> ptr \<Rightarrow> ptr \<Rightarrow> ptr \<Rightarrow>
    u32 \<Rightarrow> message list \<Rightarrow> nat list option cprog" where
  "client raw_socket transmit fam prot ty smac dmac ifname src ms =
     bindp (new_socket raw_socket fam prot ty smac dmac ifname) (\<lambda>sock.
     if sock = Null then retp None
     else
       bindp ip_initialise (\<lambda>_.
       bindp (send_all (link_tx transmit) sock src ms) (\<lambda>ns.
       retp (Some ns))))"

lemma initialised_idle:
  assumes "iopts_at (heap w) s io" and "link_foot (heap w) p \<subseteq> dom (heap w)"
    and "link_foot ((heap w)(brk w \<mapsto> Bytes (replicate 8192 0))) p = link_foot (heap w) p"
    and "mem_inv w" and "memory_ok w" and "rand_small w" and "\<forall>k. \<not> moves w k"
  shows "\<exists>w'. ip_initialise w = Returns () w' \<and> idle w' p s io (brk w)
    \<and> heap w' = (heap w)(brk w \<mapsto> Bytes (replicate 8192 0)) \<and> uart w' = uart w \<and> trace w' = trace w"
proof -
  have "alloc_ok w (brk w)" using assms(5) by (simp add: memory_ok_def)
  then obtain lb where i: "ip_initialise w = Returns () (w\<lparr>last_block := lb, used_ip_id_values := Ptr (brk w) 0,
     heap := (heap w)(brk w \<mapsto> Bytes (replicate 8192 0)), brk := Suc (brk w)\<rparr>)" (is "_ = Returns () ?w")
    using ip_initialise_run by blast
  have f: "heap w (brk w) = None" using assms(4) by simp
  have "iopts_at (heap ?w) s io" using iopts_at_fresh [OF assms(1) f] by simp
  moreover have "brk w \<notin> link_foot (heap ?w) p" using assms(2,3) f by auto
  moreover have "mem_inv ?w" using assms(4) by (simp add: mem_inv_def)
  moreover have "memory_ok ?w" "rand_small ?w" "\<forall>k. \<not> moves ?w k"
    using assms(5-7) by (simp_all add: memory_ok_def rand_small_def)
  moreover have "id_map ?w (brk w) (replicate 8192 0) \<and> bits_elems (replicate 8192 0) \<subseteq> {0}"
    by (simp add: id_map_def)
  ultimately have "idle ?w p s io (brk w)" unfolding idle_def by blast
  with i show ?thesis by simp
qed

lemma bytes_at_below:
  assumes "bytes_at (heap w) q xs" and "mem_inv w" and "\<forall>k < brk w. h k = heap w k"
  shows "bytes_at h q xs"
proof (cases q)
  case (Ptr b off)
  then obtain bs where "heap w b = Some (Bytes bs)" "off + length xs \<le> length bs" "take (length xs) (drop off bs) = xs"
    using assms(1) by (auto simp: bytes_at.simps split: option.splits obj.splits)
  moreover from this assms(2) have "b < brk w" unfolding mem_inv_def by (metis leI option.distinct(1))
  ultimately show ?thesis using assms(3) Ptr by simp
qed (use assms(1) in simp)

lemma message_ok_new:
  assumes "bytes_at h (msg_ptr m) (msg_data m)" and "udp_fits (length (msg_data m))"
    and "length (msg_data m) \<le> 65507" and "h b = None"
  shows "message_ok (h(b := x)) b m"
  using assms bytes_at_dom [OF assms(1)] by (auto simp: message_ok_def)

section \<open>Over SLIP and over Ethernet\<close>

lemma slip_all:
  "list_all2 (\<lambda>dg (r, tr). \<exists>ret. slip_carries c s ret dg r tr) dgs (zip rs trs) \<Longrightarrow>
     length rs = length dgs \<Longrightarrow> length trs = length dgs \<Longrightarrow>
     rs = map length dgs \<and> polite 0x2f8 False (concat (map slip_frame dgs)) (concat trs)"
proof (induction dgs arbitrary: rs trs)
  case (Cons dg dgs)
  then obtain r rs' tr trs' where "rs = r # rs'" "trs = tr # trs'" by (metis length_Suc_conv)
  with Cons show ?case by (auto simp: slip_carries_def intro: polite_append)
qed simp

text \<open>The system calls of one message on Linux, when \<open>if_nametoindex\<close> returns \<open>ix\<close>.\<close>

definition linux_calls_of :: "net_socket \<Rightarrow> eth_hdr \<Rightarrow> u8 list \<Rightarrow> u8 list \<Rightarrow> int \<Rightarrow> event list" where
  "linux_calls_of s e name frame ix =
     [If_nametoindex name, Sendto (raw_sockfd s) frame (linux_sockaddr (mac_src e) ix)]"

lemma eth_all:
  "list_all2 (\<lambda>dg (r, tr). \<exists>ret. eth_carries linux_calls (e, name) s ret dg r tr) dgs (zip rs trs) \<Longrightarrow>
     length rs = length dgs \<Longrightarrow> length trs = length dgs \<Longrightarrow>
     \<exists>ixs. length ixs = length dgs
       \<and> trs = map2 (linux_calls_of s e name) (map (\<lambda>dg. eth_hdr_bytes e @ dg) dgs) ixs"
proof (induction dgs arbitrary: rs trs)
  case (Cons dg dgs)
  then obtain r rs' tr trs' where eq: "rs = r # rs'" "trs = tr # trs'" by (metis length_Suc_conv)
  with Cons obtain ixs where "length ixs = length dgs"
      "trs' = map2 (linux_calls_of s e name) (map (\<lambda>dg. eth_hdr_bytes e @ dg) dgs) ixs"
    by auto
  moreover obtain ret where "eth_carries linux_calls (e, name) s ret dg r tr" using Cons.prems(1) eq by auto
  then have "tr = linux_calls_of s e name (eth_hdr_bytes e @ dg) (ret 0)"
    by (simp add: eth_carries_def linux_calls_def linux_calls_of_def Let_def)
  ultimately show ?case by (intro exI [of _ "ret 0 # ixs"]) (simp add: eq)
qed simp

text \<open>The identifier in the header of a datagram, which begins a frame of its link at byte \<open>n\<close>.\<close>

definition id_of_frame :: "nat \<Rightarrow> u8 list \<Rightarrow> u16" where
  "id_of_frame n frame = hid (ipv4_hdr_of (take 20 (drop n frame)))"

lemma id_of_datagram: "id_of_frame 14 (eth_hdr_bytes e @ datagram s io src m i) = i" if "eth_hdr_wf e"
  using that by (simp add: id_of_frame_def datagram_def eth.enc_length sock_hdr_def)

lemma ids_of_datagrams:
  assumes "eth_hdr_wf e"
  shows "length ms = length is \<Longrightarrow>
    map (id_of_frame 14) (map (\<lambda>dg. eth_hdr_bytes e @ dg) (map2 (datagram s io src) ms is)) = is"
  by (induction ms "is" rule: list_induct2) (simp_all add: id_of_datagram [OF assms])

lemma linux_session:
  assumes "eth_sock (e, name) (heap w) p s" and "idle w p s io b"
    and "\<forall>m \<in> set ms. message_ok (heap w) b m" and "no_fragment io = 0"
  shows "\<exists>frames ixs ns w' cs. send_all (link_tx linux_transmit) p src ms w = Returns ns w'
    \<and> list_all2 (\<lambda>m frame. eth_hdr_of (take 14 frame) = e \<and> arrives s io src m (drop 14 frame)) ms frames
    \<and> length ns = length ms \<and> length ixs = length ms
    \<and> trace w' = trace w @ concat (map2 (linux_calls_of s e name) frames ixs)
    \<and> idle w' p s io b \<and> heap w' = (heap w)(b \<mapsto> Bytes cs)"
proof -
  have "memory_ok w" using assms(2) by (simp add: idle_def)
  from eth_linux.send_all_run [OF assms(1) this assms(2,3), of src] obtain dgs rs trs w' cs where
    r: "send_all (link_tx linux_transmit) p src ms w = Returns (map (\<lambda>r. r mod 65536) rs) w'"
      "list_all2 (\<lambda>m dg. \<exists>i. dg = datagram s io src m i) ms dgs"
      "list_all2 (\<lambda>dg (r, tr). \<exists>ret. eth_carries linux_calls (e, name) s ret dg r tr) dgs (zip rs trs)"
      "length rs = length ms" "length trs = length ms"
      "idle w' p s io b" "heap w' = (heap w)(b \<mapsto> Bytes cs)" "trace w' = trace w @ concat trs"
    by (elim exE conjE) (rule that)
  define frames where "frames = map (\<lambda>dg. eth_hdr_bytes e @ dg) dgs"
  have l: "length dgs = length ms" using r(2) by (simp add: list_all2_lengthD)
  with eth_all [OF r(3)] r(4,5) obtain ixs where
    ixs: "length ixs = length ms" "trs = map2 (linux_calls_of s e name) frames ixs"
    by (auto simp: frames_def)
  have "eth_hdr_wf e" using assms(1) by (auto simp: eth_sock_def)
  then have "eth_hdr_of (take 14 (eth_hdr_bytes e @ dg)) = e" "drop 14 (eth_hdr_bytes e @ dg) = dg" for dg
    by (simp_all only: eth.dec_prefix) (simp add: eth.enc_length)
  then have "list_all2 (\<lambda>m frame. eth_hdr_of (take 14 frame) = e \<and> arrives s io src m (drop 14 frame)) ms frames"
    using all_arrive(1) [OF assms(3) r(2) assms(4)] by (simp add: frames_def list_all2_conv_all_nth)
  with r(1,4,6-8) ixs show ?thesis
    by (intro exI [of _ frames] exI [of _ ixs] exI [of _ "map (\<lambda>r. r mod 65536) rs"] exI [of _ w'] exI [of _ cs])
      simp
qed

lemma made_iopts_fragment: "no_fragment made_iopts = 0"
  by (simp add: made_iopts_def zero_ipv4_socket_options_def)

text \<open>Opening and setting up on Linux: the state the messages are sent in.\<close>

lemma linux_started:
  assumes "mem_inv w" and "memory_ok w" and "rand_small w" and "\<forall>k. \<not> moves w k"
    and "bytes_at (heap w) ifname (name @ [0])" and "0 \<notin> set name"
    and "bytes_at (heap w) smac sm" and "bytes_at (heap w) dmac dm" and "length sm = 6" and "length dm = 6"
    and "\<forall>m \<in> set ms. bytes_at (heap w) (msg_ptr m) (msg_data m) \<and> udp_fits (length (msg_data m))
      \<and> length (msg_data m) \<le> 65507"
    and "e = \<lparr>mac_dst = dm, mac_src = sm, eth_ptcl = htons 0x0800\<rparr>"
  shows "\<exists>s b w'. client linux_raw_socket linux_transmit fam prot 0 smac dmac ifname src ms w
      = bindp (send_all (link_tx linux_transmit) (Ptr (brk w) 0) src ms) (\<lambda>ns. retp (Some ns)) w'
    \<and> eth_sock (e, name) (heap w') (Ptr (brk w) 0) s \<and> idle w' (Ptr (brk w) 0) s made_iopts b
    \<and> (\<forall>m \<in> set ms. message_ok (heap w') b m) \<and> protocol s = prot
    \<and> raw_sockfd s = (if returns_of w 0 = -1 \<or> returns_of w 1 = -1 then -1 else returns_of w 0)
    \<and> trace w' = trace w @ fst (linux_opens name (returns_of w))"
proof -
  from new_socket_eth_opened [OF assms(1,2,5-10), of fam prot, folded assms(12)] obtain s w1 where
    1: "new_socket linux_raw_socket fam prot 0 smac dmac ifname w = Returns (Ptr (brk w) 0) w1"
      "eth_sock (e, name) (heap w1) (Ptr (brk w) 0) s" "iopts_at (heap w1) s made_iopts" "mem_inv w1"
      "protocol s = prot" "raw_sockfd s = (if returns_of w 0 = -1 \<or> returns_of w 1 = -1 then -1 else returns_of w 0)"
      "trace w1 = trace w @ fst (linux_opens name (returns_of w))" "\<forall>k < brk w. heap w1 k = heap w k"
      "alloc_ok w1 = alloc_ok w" "moves w1 = moves w" "rand_of w1 = rand_of w"
    by (elim exE conjE) (rule that)
  have f: "heap w1 (brk w1) = None" using 1(4) by simp
  have "memory_ok w1" "rand_small w1" "\<forall>k. \<not> moves w1 k"
    using assms(2-4) 1(9-11) by (simp_all add: memory_ok_def rand_small_def)
  with initialised_idle [OF 1(3) eth_sock_dom [OF 1(2)] eth_sock_foot [OF 1(2) f] 1(4)] obtain w2 where
    2: "ip_initialise w1 = Returns () w2" "idle w2 (Ptr (brk w) 0) s made_iopts (brk w1)"
      "heap w2 = (heap w1)(brk w1 \<mapsto> Bytes (replicate 8192 0))" "trace w2 = trace w1"
    by blast
  have "eth_sock (e, name) (heap w2) (Ptr (brk w) 0) s" unfolding 2(3) by (rule eth_sock_fresh [OF 1(2) f])
  moreover have "\<forall>m \<in> set ms. message_ok (heap w2) (brk w1) m"
  proof
    fix m
    assume "m \<in> set ms"
    with assms(11) have m: "bytes_at (heap w) (msg_ptr m) (msg_data m)" "udp_fits (length (msg_data m))"
      "length (msg_data m) \<le> 65507" by blast+
    have "bytes_at (heap w1) (msg_ptr m) (msg_data m)" by (rule bytes_at_below [OF m(1) assms(1) 1(8)])
    then show "message_ok (heap w2) (brk w1) m" unfolding 2(3) using m(2,3) f by (rule message_ok_new)
  qed
  moreover have "client linux_raw_socket linux_transmit fam prot 0 smac dmac ifname src ms w
      = bindp (send_all (link_tx linux_transmit) (Ptr (brk w) 0) src ms) (\<lambda>ns. retp (Some ns)) w2"
    using 1(1) 2(1) by (simp add: client_def)
  ultimately show ?thesis using 1(5-7) 2(2,4) by metis
qed

section \<open>Properties\<close>

text \<open>C3: a sequence of messages sent one after the other over SLIP: the serial port carries the frames of
  one datagram for each message, in order and nothing else, each datagram arrives as its message,
  and each call returns its datagram's length. The receiver of RFC 1055 gets exactly these
  datagrams if and only if none has an END or ESC byte. Afterwards no identifier is in use and the
  memory is as before, but for entry 0 of the bitmap.\<close>

theorem udp_slip_session:
  assumes "slip_sock () (heap w) p s" and "uart_ok w" and "idle w p s io b"
    and "\<forall>m \<in> set ms. message_ok (heap w) b m" and "no_fragment io = 0"
  shows "\<exists>dgs w' tr cs. send_all (link_tx transmit) p src ms w = Returns (map length dgs) w'
    \<and> list_all2 (arrives s io src) ms dgs
    \<and> trace w' = trace w @ tr \<and> polite 0x2f8 False (concat (map slip_frame dgs)) tr
    \<and> (rfc1055_receive [] (concat (map slip_frame dgs)) = dgs \<longleftrightarrow> (\<forall>dg \<in> set dgs. slip_clean dg))
    \<and> idle w' p s io b \<and> heap w' = (heap w)(b \<mapsto> Bytes cs)"
proof -
  from slip.send_all_run [OF assms(1-4), of transmit src] obtain dgs rs trs w' cs where
    r: "send_all (link_tx transmit) p src ms w = Returns (map (\<lambda>r. r mod 65536) rs) w'"
      "list_all2 (\<lambda>m dg. \<exists>i. dg = datagram s io src m i) ms dgs"
      "list_all2 (\<lambda>dg (r, tr). \<exists>ret. slip_carries () s ret dg r tr) dgs (zip rs trs)"
      "length rs = length ms" "length trs = length ms"
      "idle w' p s io b" "heap w' = (heap w)(b \<mapsto> Bytes cs)" "trace w' = trace w @ concat trs"
    by (elim exE conjE) (rule that)
  have "length dgs = length ms" using r(2) by (simp add: list_all2_lengthD)
  with slip_all [OF r(3)] r(4,5) have "rs = map length dgs"
    "polite 0x2f8 False (concat (map slip_frame dgs)) (concat trs)" by simp_all
  moreover note a = all_arrive [OF assms(4) r(2) assms(5)]
  then have "map (\<lambda>r. r mod 65536) (map length dgs) = map length dgs" "[] \<notin> set dgs" by auto
  ultimately show ?thesis
    using r(1,6-8) a(1) receive_stream [of dgs "[]"]
    by (intro exI [of _ dgs] exI [of _ w'] exI [of _ "concat trs"] exI [of _ cs]) simp
qed

definition demo_messages :: "message list" where
  "demo_messages = [\<lparr>msg_dst = 2, msg_sport = 1234, msg_dport = 1337, msg_ptr = Ptr 6 0, msg_data = [72, 105]\<rparr>,
     \<lparr>msg_dst = 3, msg_sport = 7, msg_dport = 9, msg_ptr = Ptr 6 1, msg_data = [105]\<rparr>]"

lemma demo_iopts_fragment: "no_fragment demo_iopts = 0"
  by (simp add: demo_iopts_def zero_ipv4_socket_options_def)

lemma demo_messages_ok: "\<forall>m \<in> set demo_messages. message_ok (heap (demo_net lt [72, 105])) 5 m"
  by (simp add: demo_messages_def message_ok_def udp_fits_def)

lemma demo_net_idle: "idle (demo_net lt xs) (Ptr 0 0) demo_sock demo_iopts 5"
proof -
  have "id_map (demo_net lt xs) 5 (replicate 8192 0)" using demo_net_ids by (simp add: ids_ok_def)
  moreover have "rand_small (demo_net lt xs)" by (simp add: rand_small_def demo_net_def)
  moreover have "bits_elems (replicate 8192 0) \<subseteq> {0}" by simp
  ultimately show ?thesis using demo_net_iopts demo_net_foot unfolding idle_def by (intro conjI) auto
qed

theorem udp_slip_session_witness:
  "\<exists>dgs w'. send_all (link_tx lf_os_transmit) (Ptr 0 0) 1 demo_messages (demo_net SLIP [72, 105])
      = Returns (map length dgs) w' \<and> list_all2 (arrives demo_sock demo_iopts 1) demo_messages dgs"
  using udp_slip_session [OF demo_net_slip demo_net_uart demo_net_idle demo_messages_ok demo_iopts_fragment, of lf_os_transmit 1]
  by blast

text \<open>C4: a sequence of messages sent one after the other over Ethernet on Linux: one \<open>sendto\<close> for each
  message, in order, on the socket's interface and descriptor, of a frame with the socket's
  Ethernet header whose rest arrives as the message; whatever the system calls return, every
  message is tried, nothing stays allocated and no identifier stays in use.\<close>

theorem udp_linux_session:
  assumes "eth_sock (e, name) (heap w) p s" and "idle w p s io b"
    and "\<forall>m \<in> set ms. message_ok (heap w) b m" and "no_fragment io = 0"
  shows "\<exists>frames ixs ns w' cs. send_all (link_tx linux_transmit) p src ms w = Returns ns w'
    \<and> list_all2 (\<lambda>m frame. eth_hdr_of (take 14 frame) = e \<and> arrives s io src m (drop 14 frame)) ms frames
    \<and> length ns = length ms \<and> length ixs = length ms
    \<and> trace w' = trace w @ concat (map2 (linux_calls_of s e name) frames ixs)
    \<and> idle w' p s io b \<and> heap w' = (heap w)(b \<mapsto> Bytes cs)"
  using assms by (rule linux_session)

theorem udp_linux_session_witness:
  "\<exists>frames ns w'. send_all (link_tx linux_transmit) (Ptr 0 0) 1 demo_messages (demo_net ETH [72, 105]) = Returns ns w'
    \<and> list_all2 (\<lambda>m frame. eth_hdr_of (take 14 frame) = demo_eth \<and> arrives demo_sock demo_iopts 1 m (drop 14 frame))
        demo_messages frames"
  using udp_linux_session [OF demo_net_eth demo_net_idle demo_messages_ok demo_iopts_fragment, of 1] by blast

text \<open>C5: a whole client on Linux, from opening the socket to the last message: for every outcome of
  the system calls the socket is opened once, and every message goes out in order as one frame
  between the two Ethernet addresses, which arrives as the message with the socket's protocol and
  a time to live of 64. The descriptor of the frames is the one that was opened, or -1 when
  opening or binding failed, which the client is not told.\<close>

theorem linux_client_delivers:
  assumes "mem_inv w" and "memory_ok w" and "rand_small w" and "\<forall>k. \<not> moves w k"
    and "bytes_at (heap w) ifname (name @ [0])" and "0 \<notin> set name"
    and "bytes_at (heap w) smac sm" and "bytes_at (heap w) dmac dm" and "length sm = 6" and "length dm = 6"
    and "\<forall>m \<in> set ms. bytes_at (heap w) (msg_ptr m) (msg_data m) \<and> udp_fits (length (msg_data m))
      \<and> length (msg_data m) \<le> 65507"
    and "e = \<lparr>mac_dst = dm, mac_src = sm, eth_ptcl = htons 0x0800\<rparr>"
  shows "\<exists>s frames ixs ns w'. client linux_raw_socket linux_transmit fam prot 0 smac dmac ifname src ms w
      = Returns (Some ns) w'
    \<and> list_all2 (\<lambda>m frame. eth_hdr_of (take 14 frame) = e \<and> arrives s made_iopts src m (drop 14 frame)) ms frames
    \<and> length ns = length ms \<and> length ixs = length ms
    \<and> trace w' = trace w @ fst (linux_opens name (returns_of w)) @ concat (map2 (linux_calls_of s e name) frames ixs)
    \<and> protocol s = prot
    \<and> raw_sockfd s = (if returns_of w 0 = -1 \<or> returns_of w 1 = -1 then -1 else returns_of w 0)"
proof -
  from linux_started [OF assms, of fam prot src] obtain s b w1 where
    1: "client linux_raw_socket linux_transmit fam prot 0 smac dmac ifname src ms w
      = bindp (send_all (link_tx linux_transmit) (Ptr (brk w) 0) src ms) (\<lambda>ns. retp (Some ns)) w1"
      "eth_sock (e, name) (heap w1) (Ptr (brk w) 0) s" "idle w1 (Ptr (brk w) 0) s made_iopts b"
      "\<forall>m \<in> set ms. message_ok (heap w1) b m" "protocol s = prot"
      "raw_sockfd s = (if returns_of w 0 = -1 \<or> returns_of w 1 = -1 then -1 else returns_of w 0)"
      "trace w1 = trace w @ fst (linux_opens name (returns_of w))"
    by (elim exE conjE) (rule that)
  from linux_session [OF 1(2-4) made_iopts_fragment, of src] obtain frames ixs ns w' where
    2: "send_all (link_tx linux_transmit) (Ptr (brk w) 0) src ms w1 = Returns ns w'"
      "list_all2 (\<lambda>m frame. eth_hdr_of (take 14 frame) = e \<and> arrives s made_iopts src m (drop 14 frame)) ms frames"
      "length ns = length ms" "length ixs = length ms"
      "trace w' = trace w1 @ concat (map2 (linux_calls_of s e name) frames ixs)"
    by (elim exE conjE) (rule that)
  show ?thesis
    using 1(1,5-7) 2
    by (intro exI [of _ s] exI [of _ frames] exI [of _ ixs] exI [of _ ns] exI [of _ w'] conjI) simp_all
qed

text \<open>A client with two messages in its memory.\<close>

definition demo_client :: world where
  "demo_client = demo_with [Bytes [7, 8, 9, 10, 11, 12, 0], Bytes [1, 2, 3, 4, 5, 6, 0], Bytes [101, 0],
     Bytes [], Bytes [], Bytes [], Bytes [72, 105]]"

lemma demo_client_simps [simp]:
  "mem_inv demo_client" "memory_ok demo_client" "\<not> moves demo_client k" "rand_small demo_client"
  "bytes_at (heap demo_client) (Ptr 0 0) [7, 8, 9, 10, 11, 12]"
  "bytes_at (heap demo_client) (Ptr (Suc 0) 0) [1, 2, 3, 4, 5, 6]"
  "bytes_at (heap demo_client) (Ptr 2 0) [101, 0]"
  "bytes_at (heap demo_client) (Ptr 6 0) [72, 105]" "bytes_at (heap demo_client) (Ptr 6 (Suc 0)) [105]"
  by (simp_all add: demo_client_def memory_ok_def rand_small_def)

theorem linux_client_delivers_witness:
  "\<exists>ns w'. client linux_raw_socket linux_transmit 2 17 0 (Ptr 0 0) (Ptr 1 0) (Ptr 2 0) 1 demo_messages demo_client
     = Returns (Some ns) w' \<and> length ns = 2"
  using linux_client_delivers [of demo_client "Ptr 2 0" "[101]" "Ptr 0 0" "[7, 8, 9, 10, 11, 12]" "Ptr 1 0"
      "[1, 2, 3, 4, 5, 6]" demo_messages, OF _ _ _ _ _ _ _ _ _ _ _ refl, of 2 17 1]
  by (auto simp: demo_messages_def udp_fits_def)

text \<open>C33: the identifiers of datagrams that are sent one after the other over Ethernet on Linux, read off
  the headers in the frames that are handed to \<open>sendto\<close>, are determined by the last block and the
  random numbers: each start block is a function of the one before. They come from 1024 values
  only, so that among 1025 datagrams two have the same identifier, though the bitmap has room for
  65534.\<close>

theorem identifiers_repeat:
  assumes "eth_sock (e, name) (heap w) p s" and "idle w p s io b"
    and "\<forall>m \<in> set ms. message_ok (heap w) b m"
  shows "\<exists>frames ixs ns w' ids. send_all (link_tx linux_transmit) p src ms w = Returns ns w'
    \<and> length frames = length ms \<and> length ixs = length ms
    \<and> trace w' = trace w @ concat (map2 (linux_calls_of s e name) frames ixs)
    \<and> ids = map (id_of_frame 14) frames
    \<and> (\<forall>k < length ms. ids ! k = idle_id ((next_block (rand_of w) ^^ Suc k) (last_block w)))
    \<and> unat ` set ids \<subseteq> insert 3 ((\<lambda>k. 8 * k) ` {1..<1024})
    \<and> (distinct ids \<longrightarrow> length ms \<le> 1024)"
proof -
  have "memory_ok w" using assms(2) by (simp add: idle_def)
  from eth_linux.send_all_run [OF assms(1) this assms(2,3), of src] obtain dgs rs trs w' cs where
    r: "send_all (link_tx linux_transmit) p src ms w = Returns (map (\<lambda>r. r mod 65536) rs) w'"
      "dgs = map2 (datagram s io src) ms (idle_ids (rand_of w) (last_block w) (length ms))"
      "list_all2 (\<lambda>dg (r, tr). \<exists>ret. eth_carries linux_calls (e, name) s ret dg r tr) dgs (zip rs trs)"
      "length rs = length ms" "length trs = length ms" "trace w' = trace w @ concat trs"
    by (elim exE conjE) (rule that)
  let ?ids = "idle_ids (rand_of w) (last_block w) (length ms)"
  define frames where "frames = map (\<lambda>dg. eth_hdr_bytes e @ dg) dgs"
  have l: "length dgs = length ms" by (simp add: r(2))
  with eth_all [OF r(3)] r(4,5) obtain ixs where
    ixs: "length ixs = length ms" "trs = map2 (linux_calls_of s e name) frames ixs"
    by (auto simp: frames_def)
  have "eth_hdr_wf e" using assms(1) by (auto simp: eth_sock_def)
  then have ids: "map (id_of_frame 14) frames = ?ids"
    unfolding frames_def r(2) by (rule ids_of_datagrams) simp
  have "length frames = length ms" by (simp add: frames_def l)
  then show ?thesis
    using r(1,6) ixs ids idle_ids_nth [of _ "length ms" "rand_of w" "last_block w"] idle_ids_range
      idle_ids_distinct [of "rand_of w" "last_block w" "length ms"]
    by (intro exI [of _ frames] exI [of _ ixs] exI [of _ "map (\<lambda>r. r mod 65536) rs"] exI [of _ w']
        exI [of _ ?ids] conjI allI impI) (simp_all only: ids)
qed

theorem identifiers_repeat_witness:
  "\<exists>frames ns w'. send_all (link_tx linux_transmit) (Ptr 0 0) 1 (replicate 1025 (hd demo_messages))
      (demo_net ETH [72, 105]) = Returns ns w' \<and> length frames = 1025 \<and> \<not> distinct (map (id_of_frame 14) frames)"
proof -
  have "\<forall>m \<in> set (replicate 1025 (hd demo_messages)). message_ok (heap (demo_net ETH [72, 105])) 5 m"
    using demo_messages_ok [of ETH] by (simp add: demo_messages_def)
  from identifiers_repeat [OF demo_net_eth demo_net_idle this, of 1] show ?thesis
    by (simp only: length_replicate) (elim exE conjE, intro exI conjI, assumption+, auto)
qed

end
