(* ===== verification/Id_Runs.thy ===== *)
theory Id_Runs
  imports Ip_Id
begin

text \<open>
  The allocator of identifiers over time: any order of initialising, taking and freeing, with its
  invariant, and the abstract pool of identifiers that sequences of calls refine.
\<close>

section \<open>Runs of the allocator\<close>

text \<open>
  A run of the program as the allocator sees it: the values taken and not freed yet, most recent
  first. Between its calls the rest of the program may do anything but touch the bitmap. Initialising
  starts a new run, with a new bitmap and no value in use: what was taken before it is forgotten, and
  its bitmap is never freed.
\<close>

inductive id_run :: "world \<Rightarrow> u16 list \<Rightarrow> bool" where
  initialise: "mem_inv w \<Longrightarrow> ip_initialise w = Returns () w' \<Longrightarrow> id_run w' []"
| take: "id_run w ids \<Longrightarrow> select_ipv4_id w = Returns i w' \<Longrightarrow> id_run w' (i # ids)"
| release: "id_run w ids \<Longrightarrow> i \<in> set ids \<Longrightarrow> free_ipv4_id i w = Returns () w' \<Longrightarrow>
    id_run w' (remove1 i ids)"
| other: "id_run w ids \<Longrightarrow> used_ip_id_values w = Ptr b 0 \<Longrightarrow>
    used_ip_id_values w' = used_ip_id_values w \<Longrightarrow> heap w' b = heap w b \<Longrightarrow> id_run w' ids"

inductive_cases id_run_ConsE: "id_run w (i # ids)"

text \<open>The invariant: but for entry 0, the bitmap is the set of the values in use.\<close>

definition id_inv :: "world \<Rightarrow> u16 list \<Rightarrow> bool" where
  "id_inv w ids \<longleftrightarrow> (\<exists>b bs. id_map w b bs \<and> distinct ids \<and>
     (\<forall>i \<in> set ids. i \<noteq> 0 \<and> unat i < 65535) \<and>
     insert 0 (bits_elems bs) = insert 0 (unat ` set ids))"

lemma id_invI:
  "id_map w b bs \<Longrightarrow> distinct ids \<Longrightarrow> \<forall>i \<in> set ids. i \<noteq> 0 \<and> unat i < 65535 \<Longrightarrow>
    insert 0 (bits_elems bs) = insert 0 (unat ` set ids) \<Longrightarrow> id_inv w ids"
  unfolding id_inv_def by blast

lemma unat_image_Diff: "unat ` (A - {i}) = unat ` A - {unat (i :: u16)}"
  by (auto simp: word_unat_eq_iff)

lemma id_inv_take:
  assumes "id_inv w ids" and "select_ipv4_id w = Returns i w'"
  shows "id_inv w' (i # ids)"
proof -
  obtain b bs where m: "id_map w b bs" "distinct ids" "\<forall>i \<in> set ids. i \<noteq> 0 \<and> unat i < 65535"
    "insert 0 (bits_elems bs) = insert 0 (unat ` set ids)"
    using assms(1) by (auto simp: id_inv_def)
  have "block_sum w < 2 ^ 31" "selectable w bs"
    using select_returned [OF m(1) assms(2)] by simp_all
  from select_result [OF m(1) this] assms(2) obtain cs where r:
    "w' = w\<lparr>last_block := start_block w, heap := (heap w)(b \<mapsto> Bytes cs)\<rparr>"
    "length cs = 8192" "free_at bs (unat i)" "unat i < 65535"
    "insert 0 (bits_elems cs) = insert 0 (insert (unat i) (bits_elems bs))" by auto
  have "id_map w' b cs"
    using m(1) r(1,2) by (simp add: id_map_def)
  moreover have "i \<noteq> 0" "unat i \<notin> insert 0 (bits_elems bs)"
    using r(3) by (auto simp: free_at_def unat_0_iff)
  then have "i \<notin> set ids" using m(4) by auto
  moreover have "insert 0 (bits_elems cs) = insert 0 (unat ` set (i # ids))"
    by (simp only: r(5) insert_commute [of 0 "unat i"] m(4) list.set image_insert)
  ultimately show ?thesis
    using m(2,3) r(4) \<open>i \<noteq> 0\<close> by (intro id_invI) simp_all
qed

lemma id_inv_release:
  assumes "id_inv w ids" and "i \<in> set ids" and "free_ipv4_id i w = Returns () w'"
  shows "id_inv w' (remove1 i ids)"
proof -
  obtain b bs where m: "id_map w b bs" "distinct ids" "\<forall>i \<in> set ids. i \<noteq> 0 \<and> unat i < 65535"
    "insert 0 (bits_elems bs) = insert 0 (unat ` set ids)"
    using assms(1) by (auto simp: id_inv_def)
  have w': "w' = w\<lparr>heap := (heap w)(b \<mapsto> Bytes (bits_clear bs (unat i)))\<rparr>"
    using free_run [OF m(1)] assms(3) by simp
  have "unat i < 8 * length bs" using m(1) unat_u16_less [of i] by (simp add: id_map_def)
  then have del: "bits_elems (bits_clear bs (unat i)) = bits_elems bs - {unat i}"
    by (rule bm.del)
  have "unat i \<noteq> 0" using m(3) assms(2) by (simp add: unat_0_iff)
  then have out: "insert 0 (A - {unat i}) = insert 0 A - {unat i}" for A by auto
  show ?thesis
  proof (rule id_invI)
    show "id_map w' b (bits_clear bs (unat i))"
      using m(1) by (simp add: w' id_map_def)
    show "insert 0 (bits_elems (bits_clear bs (unat i))) = insert 0 (unat ` set (remove1 i ids))"
      using m(2,4) by (simp only: del set_remove1_eq unat_image_Diff out)
  qed (use m(2,3) in \<open>simp_all add: distinct_remove1\<close>)
qed

lemma id_run_inv: "id_run w ids \<Longrightarrow> id_inv w ids"
proof (induction rule: id_run.induct)
  case (initialise w w')
  have "alloc_ok w (brk w)"
    using initialise(2) ip_initialise_no_memory [of w] by (cases "alloc_ok w (brk w)") simp_all
  from ip_initialise_run [OF this] initialise(2) obtain lb where
    "w' = w\<lparr>last_block := lb, used_ip_id_values := Ptr (brk w) 0,
       heap := (heap w)(brk w \<mapsto> Bytes (replicate 8192 0)), brk := Suc (brk w)\<rparr>" by auto
  then have "id_map w' (brk w) (replicate 8192 0)"
    by (simp add: id_map_def)
  then show ?case unfolding id_inv_def by fastforce
next
  case (other w ids b w')
  then show ?case by (auto simp: id_inv_def id_map_def)
qed (auto intro: id_inv_take id_inv_release)

text \<open>A run that initialises and then takes two identifiers.\<close>

lemma demo_id_run: "\<exists>w i j. id_run w [i, j]"
proof -
  from ip_initialise_run [of demo_world] obtain w0 lb where
    i0: "ip_initialise demo_world = Returns () w0"
    "w0 = demo_world\<lparr>last_block := lb, used_ip_id_values := Ptr (brk demo_world) 0,
       heap := (heap demo_world)(brk demo_world \<mapsto> Bytes (replicate 8192 0)), brk := Suc (brk demo_world)\<rparr>"
    by (auto simp: demo_world_def)
  have r0: "id_run w0 []" by (rule id_run.initialise [OF _ i0(1)]) simp
  have m0: "id_map w0 (brk demo_world) (replicate 8192 0)" by (simp add: i0(2) id_map_def)
  have s0: "rand_of w0 = (\<lambda>_. 7)" by (simp add: i0(2) demo_world_def)
  have "selectable w0 (replicate 8192 0)" by (rule selectable_small [of _ 0]) simp
  from select_result [OF m0 block_sum_7 [OF s0] this] obtain j cs where
    j: "select_ipv4_id w0 = Returns j
      (w0\<lparr>last_block := start_block w0, heap := (heap w0)(brk demo_world \<mapsto> Bytes cs)\<rparr>)"
    "length cs = 8192" "insert 0 (bits_elems cs) = insert 0 (insert (unat j) (bits_elems (replicate 8192 0)))"
    by blast
  let ?w = "w0\<lparr>last_block := start_block w0, heap := (heap w0)(brk demo_world \<mapsto> Bytes cs)\<rparr>"
  have r1: "id_run ?w [j]" by (rule id_run.take [OF r0 j(1)])
  have m1: "id_map ?w (brk demo_world) cs" using m0 j(2) by (simp add: id_map_def)
  have s1: "rand_of ?w = (\<lambda>_. 7)" using s0 by simp
  have "bits_elems cs \<subseteq> insert 0 (bits_elems cs)" by (rule subset_insertI)
  also have "\<dots> = {0, unat j}" using j(3) by simp
  finally have "selectable ?w cs" by (rule selectable_small)
  from select_result [OF m1 block_sum_7 [OF s1] this] obtain i w2 where
    "select_ipv4_id ?w = Returns i w2" by blast
  then have "id_run w2 [i, j]" by (rule id_run.take [OF r1])
  then show ?thesis by blast
qed

section \<open>A pool of identifiers\<close>

text \<open>
  The calls a user of the allocator makes: taking an identifier, which is read out of the header it
  was stored in, and freeing one. The user decides on each call from what happened so far; what was
  taken need not be freed, and what is freed need not have been taken.
\<close>

datatype id_call = Take | Release u16

datatype id_event = Taken u16 | Released u16

type_synonym id_user = "id_event list \<Rightarrow> id_call"

primrec call_of :: "id_event \<Rightarrow> id_call" where
  "call_of (Taken i) = Take"
| "call_of (Released i) = Release i"

lemma call_of_eq:
  "call_of e = Take \<longleftrightarrow> (\<exists>i. e = Taken i)" "call_of e = Release i \<longleftrightarrow> e = Released i"
  by (cases e; simp)+

definition take_id :: "ptr \<Rightarrow> u16 cprog" where
  "take_id iph =
     bindp (allocate_ipv4_id iph) (\<lambda>_.
     bindp (load_bytes (POINTER_ADD iph 4) 2) (\<lambda>bs. retp (of_le16 bs)))"

text \<open>\<open>n\<close> calls after the events \<open>h\<close>, the oldest first; the result is all that happened.\<close>

primrec calls_with :: "('s, u16) prog \<Rightarrow> (u16 \<Rightarrow> ('s, unit) prog) \<Rightarrow> id_user \<Rightarrow> nat \<Rightarrow> id_event list
    \<Rightarrow> ('s, id_event list) prog" where
  "calls_with tk rel user 0 h = retp h"
| "calls_with tk rel user (Suc n) h =
     bindp (case user h of
         Take \<Rightarrow> bindp tk (\<lambda>i. retp (Taken i))
       | Release i \<Rightarrow> bindp (rel i) (\<lambda>_. retp (Released i))) (\<lambda>e.
     calls_with tk rel user n (h @ [e]))"

abbreviation id_calls :: "ptr \<Rightarrow> id_user \<Rightarrow> nat \<Rightarrow> id_event list cprog" where
  "id_calls iph user n \<equiv> calls_with (take_id iph) free_ipv4_id user n []"

text \<open>The events are those of calls the user makes.\<close>

definition follows :: "id_user \<Rightarrow> id_event list \<Rightarrow> bool" where
  "follows user es \<longleftrightarrow> (\<forall>k < length es. call_of (es ! k) = user (take k es))"

lemma follows_Nil [simp]: "follows user []"
  by (simp add: follows_def)

lemma follows_snoc [simp]: "follows user (es @ [e]) \<longleftrightarrow> follows user es \<and> call_of e = user es"
  by (auto simp: follows_def nth_append less_Suc_eq)

text \<open>
  The specification: a set of identifiers in use. Taking gives one that is not in it and is not 0,
  freeing removes one.
\<close>

fun pool_step :: "id_event \<Rightarrow> u16 set \<Rightarrow> u16 set option" where
  "pool_step (Taken i) S = (if i \<noteq> 0 \<and> i \<notin> S then Some (insert i S) else None)"
| "pool_step (Released i) S = Some (S - {i})"

fun pool_run :: "id_event list \<Rightarrow> u16 set \<Rightarrow> u16 set option" where
  "pool_run [] S = Some S"
| "pool_run (e # es) S = (case pool_step e S of None \<Rightarrow> None | Some T \<Rightarrow> pool_run es T)"

lemma pool_run_snoc [simp]:
  "pool_run (es @ [e]) S = Option.bind (pool_run es S) (pool_step e)"
  by (induction es S rule: pool_run.induct) (simp_all split: option.splits)

text \<open>The user takes an identifier only when fewer than \<open>room\<close> are in use, of all pools that start with \<open>S\<close>.\<close>

definition keeps_room :: "nat \<Rightarrow> id_user \<Rightarrow> u16 set \<Rightarrow> bool" where
  "keeps_room room user S \<longleftrightarrow>
     (\<forall>es T. follows user es \<and> pool_run es S = Some T \<and> user es = Take \<longrightarrow> card T < room)"

text \<open>
  The interface of an allocator of identifiers with room for \<open>room\<close> of them: its states, the
  identifiers in use in each, and the two operations, which always return while there is room.
\<close>

locale id_pool =
  fixes inv :: "'s \<Rightarrow> bool"
    and used :: "'s \<Rightarrow> u16 set"
    and tk :: "('s, u16) prog"
    and rel :: "u16 \<Rightarrow> ('s, unit) prog"
    and room :: nat
  assumes tk: "inv s \<Longrightarrow> card (used s) < room \<Longrightarrow>
      \<exists>i t. tk s = Returns i t \<and> inv t \<and> i \<noteq> 0 \<and> i \<notin> used s \<and> used t = insert i (used s)"
    and rel: "inv s \<Longrightarrow> \<exists>t. rel i s = Returns () t \<and> inv t \<and> used t = used s - {i}"
begin

lemma call_refine:
  assumes "inv s" and "user h = Take \<Longrightarrow> card (used s) < room"
  shows "\<exists>e t. (case user h of Take \<Rightarrow> bindp tk (\<lambda>i. retp (Taken i))
      | Release i \<Rightarrow> bindp (rel i) (\<lambda>_. retp (Released i))) s = Returns e t
    \<and> inv t \<and> call_of e = user h \<and> pool_step e (used s) = Some (used t)"
proof (cases "user h")
  case Take
  with tk [OF assms(1)] assms(2) obtain i t where "tk s = Returns i t" "inv t" "i \<noteq> 0" "i \<notin> used s"
    "used t = insert i (used s)" by blast
  with Take show ?thesis by (intro exI [of _ "Taken i"] exI [of _ t]) simp
next
  case (Release i)
  from rel [OF assms(1)] obtain t where "rel i s = Returns () t" "inv t" "used t = used s - {i}" by blast
  with Release show ?thesis by (intro exI [of _ "Released i"] exI [of _ t]) simp
qed

lemma calls_refine:
  assumes "keeps_room room user S"
  shows "inv s \<Longrightarrow> follows user h \<Longrightarrow> pool_run h S = Some (used s) \<Longrightarrow>
    \<exists>es t. calls_with tk rel user n h s = Returns es t \<and> inv t \<and> follows user es
      \<and> length es = length h + n \<and> pool_run es S = Some (used t)"
proof (induction n arbitrary: s h)
  case (Suc n)
  have "user h = Take \<Longrightarrow> card (used s) < room"
    using assms Suc.prems(2,3) unfolding keeps_room_def by blast
  from call_refine [where user = user and h = h, OF Suc.prems(1) this] obtain e t where
    e: "(case user h of Take \<Rightarrow> bindp tk (\<lambda>i. retp (Taken i))
      | Release i \<Rightarrow> bindp (rel i) (\<lambda>_. retp (Released i))) s = Returns e t" "inv t" "call_of e = user h"
    "pool_step e (used s) = Some (used t)" by blast
  have "follows user (h @ [e])" "pool_run (h @ [e]) S = Some (used t)"
    using Suc.prems(2,3) e(3,4) by simp_all
  from Suc.IH [OF e(2) this] e(1) show ?case by simp
qed simp

end

section \<open>The allocator is a pool\<close>

definition in_use :: "u8 list \<Rightarrow> u16 set" where
  "in_use bs = {i. i \<noteq> 0 \<and> unat i \<in> bits_elems bs}"

lemma unat_inject: "unat (i :: u16) = unat j \<longleftrightarrow> i = j"
  by (simp add: word_unat_eq_iff)

lemma in_use_clear:
  assumes "length bs = 8192"
  shows "in_use (bits_clear bs (unat i)) = in_use bs - {i}"
proof -
  have "bits_elems (bits_clear bs (unat i)) = bits_elems bs - {unat i}"
    using assms unat_u16_less [of i] by (intro bm.del) simp
  then show ?thesis by (auto simp: in_use_def unat_inject)
qed

text \<open>
  The states that calls reach from \<open>w0\<close>: only the last block, the bitmap (block \<open>b\<close>) and the header
  (block \<open>k\<close>) change.
\<close>

definition pool_inv :: "world \<Rightarrow> nat \<Rightarrow> nat \<Rightarrow> world \<Rightarrow> bool" where
  "pool_inv w0 b k w \<longleftrightarrow> b \<noteq> k \<and> rand_small w0 \<and> used_ip_id_values w0 = Ptr b 0
    \<and> (\<exists>lb bs hs. length bs = 8192 \<and> length hs = 20
        \<and> w = w0\<lparr>last_block := lb, heap := (heap w0)(b \<mapsto> Bytes bs, k \<mapsto> Bytes hs)\<rparr>)"

definition pool_used :: "nat \<Rightarrow> world \<Rightarrow> u16 set" where
  "pool_used b w = (case heap w b of Some (Bytes bs) \<Rightarrow> in_use bs | _ \<Rightarrow> {})"

text \<open>
  There are 21844 values from 1 to 65534 in the smallest residue class modulo 3: with fewer in use,
  every search finds one.
\<close>

lemma class_size:
  assumes "r < 3"
  shows "\<exists>A. card A = 21844 \<and> (\<forall>i \<in> A. i \<noteq> 0 \<and> i < 65535 \<and> i mod 3 = (r::nat))"
proof (intro exI conjI)
  let ?f = "\<lambda>k::nat. 3 * k + r"
  let ?A = "?f ` (if r = 0 then {1..<21845} else {0..<21844})"
  have "inj_on ?f X" for X by (rule inj_onI) simp
  then show "card ?A = 21844" by (simp add: card_image)
  show "\<forall>i \<in> ?A. i \<noteq> 0 \<and> i < 65535 \<and> i mod 3 = r" using assms by auto
qed

lemma room_selectable:
  assumes "length bs = 8192" and "card (in_use bs) < 21844"
  shows "selectable w bs"
proof (rule ccontr)
  assume no: "\<not> selectable w bs"
  obtain A where A: "card A = 21844"
    "\<forall>i \<in> A. i \<noteq> 0 \<and> i < 65535 \<and> i mod 3 = unat (start_entry w) mod 3"
    using class_size [of "unat (start_entry w) mod 3"] by auto
  have "A \<subseteq> unat ` in_use bs"
  proof
    fix i assume "i \<in> A"
    with A(2) have i: "i \<noteq> 0" "i < 65535" "i mod 3 = unat (start_entry w) mod 3" by auto
    with no have "i \<in> bits_elems bs" by (auto simp: selectable_def free_at_def)
    moreover have "unat (word_of_nat i :: u16) = i" using i(2) by (simp add: unat_of_nat)
    ultimately show "i \<in> unat ` in_use bs"
      using i(1) by (intro image_eqI [of _ _ "word_of_nat i"]) (auto simp: in_use_def)
  qed
  then have "card A \<le> card (unat ` in_use bs)" by (rule card_mono [rotated]) simp
  also have "\<dots> \<le> card (in_use bs)" by (rule card_image_le) simp
  finally show False using A(1) assms(2) by simp
qed

lemma take_id_run:
  assumes "pool_inv w0 b k w" and "card (pool_used b w) < 21844"
  shows "\<exists>i w'. take_id (Ptr k 0) w = Returns i w' \<and> pool_inv w0 b k w' \<and> i \<noteq> 0
    \<and> i \<notin> pool_used b w \<and> pool_used b w' = insert i (pool_used b w)"
proof -
  obtain lb bs hs where w: "b \<noteq> k" "rand_small w0" "used_ip_id_values w0 = Ptr b 0"
    "length bs = 8192" "length hs = 20"
    "w = w0\<lparr>last_block := lb, heap := (heap w0)(b \<mapsto> Bytes bs, k \<mapsto> Bytes hs)\<rparr>"
    using assms(1) unfolding pool_inv_def by blast
  have m: "id_map w b bs" and u: "pool_used b w = in_use bs"
    using w by (simp_all add: id_map_def pool_used_def)
  have "rand_small w" using w(2,6) by (simp add: rand_small_def)
  then have s: "block_sum w < 2 ^ 31" by (rule rand_small_block_sum)
  have "selectable w bs" using assms(2) w(4) by (simp add: u room_selectable)
  from select_result [OF m s this] obtain i cs where r:
    "select_ipv4_id w = Returns i (w\<lparr>last_block := start_block w, heap := (heap w)(b \<mapsto> Bytes cs)\<rparr>)"
    "length cs = 8192" "free_at bs (unat i)" "unat i < 65535"
    "insert 0 (bits_elems cs) = insert 0 (insert (unat i) (bits_elems bs))" by blast
  have x: "x \<in> bits_elems cs \<longleftrightarrow> x = unat i \<or> x \<in> bits_elems bs" if "x \<noteq> 0" for x
    using arg_cong [OF r(5), of "\<lambda>A. x \<in> A"] that by simp
  have i: "i \<noteq> 0" "i \<notin> in_use bs" using r(3) by (auto simp: free_at_def in_use_def)
  have "in_use cs = insert i (in_use bs)"
    using i(1) by (auto simp: in_use_def x unat_eq_zero unat_inject)
  define w' where "w' = w0\<lparr>last_block := start_block w,
    heap := (heap w0)(b \<mapsto> Bytes cs, k \<mapsto> Bytes (splice 4 (le16 i) hs))\<rparr>"
  have l: "length (splice 4 (le16 i) hs) = 20" using w(5) by (simp add: le16_def)
  have "allocate_ipv4_id (Ptr k 0) w = Returns True w'"
    using w(1,5,6) r(1) by (simp add: allocate_ipv4_id_def store_bytes_block le16_def w'_def fun_upd_twist)
  moreover have "take 2 (drop 4 (splice 4 (le16 i) hs)) = le16 i"
    using take_drop_splice [of 4 "le16 i" hs] w(5) by (simp add: c16.enc_length)
  then have "load_bytes (Ptr k 4) 2 w' = Returns (le16 i) w'"
    using l by (simp add: w'_def load_bytes_block)
  ultimately have "take_id (Ptr k 0) w = Returns i w'" by (simp add: take_id_def)
  moreover have "pool_inv w0 b k w'"
    using w(1-3) r(2) l unfolding pool_inv_def w'_def by blast
  moreover have "pool_used b w' = in_use cs" using w(1) by (simp add: w'_def pool_used_def)
  ultimately show ?thesis
    using i \<open>in_use cs = insert i (in_use bs)\<close> by (auto simp: u)
qed

lemma release_id_run:
  assumes "pool_inv w0 b k w"
  shows "\<exists>w'. free_ipv4_id i w = Returns () w' \<and> pool_inv w0 b k w'
    \<and> pool_used b w' = pool_used b w - {i}"
proof -
  obtain lb bs hs where w: "b \<noteq> k" "rand_small w0" "used_ip_id_values w0 = Ptr b 0"
    "length bs = 8192" "length hs = 20"
    "w = w0\<lparr>last_block := lb, heap := (heap w0)(b \<mapsto> Bytes bs, k \<mapsto> Bytes hs)\<rparr>"
    using assms(1) unfolding pool_inv_def by blast
  define w' where "w' = w0\<lparr>last_block := lb,
    heap := (heap w0)(b \<mapsto> Bytes (bits_clear bs (unat i)), k \<mapsto> Bytes hs)\<rparr>"
  have "id_map w b bs" using w by (simp add: id_map_def)
  from free_run [OF this, of i] have "free_ipv4_id i w = Returns () w'"
    using w(1,6) by (simp add: w'_def fun_upd_twist)
  moreover have "pool_inv w0 b k w'"
    unfolding pool_inv_def w'_def using w(1-5) by (metis length_bits(2))
  moreover have "pool_used b w' = pool_used b w - {i}"
    using w(1,4,6) by (simp add: w'_def pool_used_def in_use_clear)
  ultimately show ?thesis by blast
qed

interpretation pool: id_pool "pool_inv w0 b k" "pool_used b" "take_id (Ptr k 0)" free_ipv4_id 21844
  for w0 :: world and b k :: nat
  by unfold_locales (auto intro: take_id_run release_id_run)

text \<open>The room is exact: with 21844 identifiers in use a search can run forever.\<close>

lemma pool_room_exact:
  defines "bs \<equiv> bits_clear thirds 65535"
  shows "id_map (demo_ids 2 bs) 0 bs \<and> rand_small (demo_ids 2 bs) \<and> card (in_use bs) = 21844
    \<and> select_ipv4_id (demo_ids 2 bs) = Diverges"
proof (intro conjI)
  have l: "length thirds = 8192" by (simp add: thirds_def)
  then show m: "id_map (demo_ids 2 bs) 0 bs" by (simp add: bs_def id_map_demo)
  have "bits_elems bs = bits_elems thirds - {65535}"
    unfolding bs_def using l by (intro bm.del) simp
  then have e: "bits_elems bs = {i. i < 65536 \<and> i mod 3 = 0} - {65535}" by (simp only: bits_elems_thirds)
  show r: "rand_small (demo_ids 2 bs)" by (simp add: rand_small_def demo_ids_def)
  have b: "block_sum (demo_ids 2 bs) < 2 ^ 31" by (simp add: block_sum_demo)
  have "\<not> selectable (demo_ids 2 bs) bs"
    by (auto simp: selectable_def free_at_def start_entry_demo e)
  with select_returned [OF m] select_not_overflow [OF m b]
  show "select_ipv4_id (demo_ids 2 bs) = Diverges"
    by (cases "select_ipv4_id (demo_ids 2 bs)") auto
  have u: "unat (word_of_nat (3 * k) :: u16) = 3 * k" if "k < 21845" for k
    using that by (simp only: unat_of_nat) simp
  have "in_use bs = (\<lambda>k. word_of_nat (3 * k)) ` {1..<21845}"
  proof (intro equalityI subsetI)
    fix i assume "i \<in> in_use bs"
    then have i: "unat i \<noteq> 0" "unat i \<noteq> 65535" "unat i mod 3 = 0"
      by (auto simp: in_use_def e unat_eq_zero)
    then have "unat i < 65535" using unat_u16_less [of i] by linarith
    obtain k where k: "unat i = 3 * k" using i(3) by (meson mod_0_imp_dvd dvdE)
    with i(1) \<open>unat i < 65535\<close> have "k \<in> {1..<21845}" by simp
    moreover from this k have "i = word_of_nat (3 * k)"
      by (simp add: word_unat_eq_iff u del: of_nat_mult)
    ultimately show "i \<in> (\<lambda>k. word_of_nat (3 * k)) ` {1..<21845}" by blast
  next
    fix i :: u16 assume "i \<in> (\<lambda>k. word_of_nat (3 * k)) ` {1..<21845}"
    then obtain k where k: "i = word_of_nat (3 * k)" "k \<in> {1..<21845}" by (rule imageE)
    then have "unat i = 3 * k" by (simp add: u del: of_nat_mult)
    with k(2) show "i \<in> in_use bs" by (auto simp: in_use_def e unat_eq_zero [symmetric])
  qed
  moreover have "inj_on (\<lambda>k. word_of_nat (3 * k) :: u16) {1..<21845}"
    by (rule inj_on_inverseI [where g = "\<lambda>i. unat i div 3"]) (simp add: u del: of_nat_mult)
  ultimately show "card (in_use bs) = 21844" by (simp add: card_image)
qed

text \<open>A user that takes an identifier and frees it again, and so on: never more than one is in use.\<close>

definition one_at_a_time :: id_user where
  "one_at_a_time h = (if h = [] then Take else case last h of Taken i \<Rightarrow> Release i | Released i \<Rightarrow> Take)"

lemma one_at_a_time_used:
  "follows one_at_a_time es \<Longrightarrow> pool_run es {} = Some S \<Longrightarrow>
     S = (if es = [] then {} else case last es of Taken i \<Rightarrow> {i} | Released i \<Rightarrow> {})"
proof (induction es arbitrary: S rule: rev_induct)
  case (snoc e es)
  then obtain T where t: "pool_run es {} = Some T" "pool_step e T = Some S"
    by (auto simp: bind_eq_Some_conv)
  with snoc have "T = (if es = [] then {} else case last es of Taken i \<Rightarrow> {i} | Released i \<Rightarrow> {})"
    by simp
  with t(2) snoc.prems(1) show ?case
    by (cases e) (auto simp: one_at_a_time_def split: if_splits id_event.splits)
qed simp

lemma one_at_a_time_room: "keeps_room 21844 one_at_a_time {}"
  unfolding keeps_room_def
proof (intro allI impI, elim conjE)
  fix es T
  assume "follows one_at_a_time es" "pool_run es {} = Some T" "one_at_a_time es = Take"
  then have "card T \<le> 1" using one_at_a_time_used [of es T] by (auto split: if_splits id_event.splits)
  then show "card T < 21844" by simp
qed

section \<open>Properties\<close>

text \<open>C9: the allocator refines the pool. Whatever calls a user makes, each decided on from what happened
  so far, and however many: if the user takes an identifier only while fewer than 21844 are in use,
  every call returns, and what happens is what can happen with the pool: what is taken is not 0 and
  not in use, and the identifiers in use afterwards are those of the pool. Only the last block, the
  bitmap and the header change. The bound is exact (\<open>pool_room_exact\<close>).\<close>

theorem id_calls_refine_pool:
  assumes "id_map w b bs" and "rand_small w"
    and "heap w k = Some (Bytes hs)" and "length hs = 20" and "k \<noteq> b"
    and "keeps_room 21844 user (in_use bs)"
  shows "\<exists>es lb bs' hs'. id_calls (Ptr k 0) user n w
      = Returns es (w\<lparr>last_block := lb, heap := (heap w)(b \<mapsto> Bytes bs', k \<mapsto> Bytes hs')\<rparr>)
    \<and> length es = n \<and> follows user es \<and> pool_run es (in_use bs) = Some (in_use bs')
    \<and> length bs' = 8192 \<and> length hs' = 20"
proof -
  have w: "used_ip_id_values w = Ptr b 0" "heap w b = Some (Bytes bs)" "length bs = 8192"
    using assms(1) by (simp_all add: id_map_def)
  have "(heap w)(b \<mapsto> Bytes bs, k \<mapsto> Bytes hs) = heap w"
    using w(2) assms(3) by (simp add: fun_upd_idem)
  then have "w = w\<lparr>last_block := last_block w, heap := (heap w)(b \<mapsto> Bytes bs, k \<mapsto> Bytes hs)\<rparr>" by simp
  then have "pool_inv w b k w"
    using w(1,3) assms(2,4,5) unfolding pool_inv_def by metis
  moreover have "pool_run [] (in_use bs) = Some (pool_used b w)" using w(2) by (simp add: pool_used_def)
  ultimately obtain es w' where r: "id_calls (Ptr k 0) user n w = Returns es w'" "pool_inv w b k w'"
    "follows user es" "length es = n" "pool_run es (in_use bs) = Some (pool_used b w')"
    using pool.calls_refine [OF assms(6), of w b k w "[]" n] by auto
  from r(2) obtain lb bs' hs' where w': "length bs' = 8192" "length hs' = 20"
    "w' = w\<lparr>last_block := lb, heap := (heap w)(b \<mapsto> Bytes bs', k \<mapsto> Bytes hs')\<rparr>"
    unfolding pool_inv_def by blast
  with assms(5) have "pool_used b w' = in_use bs'" by (simp add: pool_used_def)
  with r w' show ?thesis by (intro exI [of _ es] exI [of _ lb] exI [of _ bs'] exI [of _ hs']) simp
qed

theorem id_calls_refine_pool_witness:
  "\<exists>es w'. id_calls (Ptr 1 0) one_at_a_time 100000
      ((demo_with [Bytes (replicate 8192 0), Bytes (replicate 20 0)])\<lparr>used_ip_id_values := Ptr 0 0\<rparr>)
    = Returns es w' \<and> length es = 100000 \<and> follows one_at_a_time es"
proof -
  let ?w = "(demo_with [Bytes (replicate 8192 0), Bytes (replicate 20 0)])\<lparr>used_ip_id_values := Ptr 0 0\<rparr>"
  have w: "id_map ?w 0 (replicate 8192 0)" "rand_small ?w" "heap ?w 1 = Some (Bytes (replicate 20 0))"
    by (simp_all add: id_map_def rand_small_def)
  have "in_use (replicate 8192 0) = {}" by (simp add: in_use_def)
  then have "keeps_room 21844 one_at_a_time (in_use (replicate 8192 0))"
    using one_at_a_time_room by simp
  from id_calls_refine_pool [OF w _ _ this, of 100000] show ?thesis by (simp only: length_replicate) auto
qed

text \<open>C10: the values in use at one time are distinct, and none of them is 0 or 65535, whatever the
  order of initialising, allocating and freeing and whatever the rest of the program does to other
  memory.\<close>

theorem ids_in_use_distinct:
  assumes "id_run w ids"
  shows "distinct ids \<and> 0 \<notin> set ids \<and> 65535 \<notin> set ids"
proof -
  have "\<forall>i \<in> set ids. i \<noteq> 0 \<and> unat i < 65535" "distinct ids"
    using id_run_inv [OF assms] by (auto simp: id_inv_def)
  moreover have "unat (65535 :: u16) = 65535" by simp
  ultimately show ?thesis by (metis less_irrefl)
qed

theorem ids_in_use_distinct_witness:
  "\<exists>w i j. id_run w [i, j] \<and> i \<noteq> j"
proof -
  obtain w i j where "id_run w [i, j]" using demo_id_run by blast
  with ids_in_use_distinct [OF this] show ?thesis by auto
qed

text \<open>C11: no identifier leaks: in every run the bitmap holds exactly the values in use and
  possibly 0.\<close>

theorem id_bitmap_exact:
  assumes "id_run w ids"
  shows "\<exists>b bs. id_map w b bs \<and> bits_elems bs - {0} = unat ` set ids"
proof -
  obtain b bs where m: "id_map w b bs" "\<forall>i \<in> set ids. i \<noteq> 0 \<and> unat i < 65535"
    "insert 0 (bits_elems bs) = insert 0 (unat ` set ids)"
    using id_run_inv [OF assms] by (auto simp: id_inv_def)
  have "0 \<notin> unat ` set ids"
  proof
    assume "0 \<in> unat ` set ids"
    then obtain i where "i \<in> set ids" "unat i = 0" by (elim imageE) simp
    with m(2) show False by (simp add: unat_0_iff)
  qed
  with m(3) have "bits_elems bs - {0} = unat ` set ids"
    by (rule insert_eq_Diff)
  with m(1) show ?thesis by blast
qed

theorem id_bitmap_exact_witness:
  "\<exists>w i j b bs. id_run w [i, j] \<and> id_map w b bs \<and> bits_elems bs - {0} = {unat i, unat j}"
proof -
  obtain w i j where r: "id_run w [i, j]" using demo_id_run by blast
  from id_bitmap_exact [OF r] obtain b bs where
    "id_map w b bs" "bits_elems bs - {0} = {unat i, unat j}"
    by (simp only: list.set image_insert image_empty) blast
  with r show ?thesis by blast
qed

end
