(* ===== verification/Options.thy ===== *)
theory Options
  imports Types
begin

text \<open>
  The declarations of \<open>ip.h\<close> and \<open>csum.h\<close> that no function uses yet: the classes and numbers of
  IPv4 options, the type octet of an option, the security option, and the IPv6 pseudo header
  with its image in memory. The type octet is compared with the one of RFC 791.
\<close>

section \<open>Option types\<close>

datatype IPV4_OPTION_CLASS = CONTROL | DEBUG

primrec IPV4_OPTION_CLASS_value :: "IPV4_OPTION_CLASS \<Rightarrow> 2 word" where
  "IPV4_OPTION_CLASS_value CONTROL = 0"
| "IPV4_OPTION_CLASS_value DEBUG = 2"

datatype IPV4_OPTION_NUMBER = END_OF_OPTION_LIST | NO_OPERATION | SECURITY | LOOSE_SOURCE_ROUTING
  | INTERNET_TIMESTAMP | RECORD_ROUTE | STREAM_ID | STRICT_SOURCE_ROUTING

primrec IPV4_OPTION_NUMBER_value :: "IPV4_OPTION_NUMBER \<Rightarrow> 5 word" where
  "IPV4_OPTION_NUMBER_value END_OF_OPTION_LIST = 0"
| "IPV4_OPTION_NUMBER_value NO_OPERATION = 1"
| "IPV4_OPTION_NUMBER_value SECURITY = 2"
| "IPV4_OPTION_NUMBER_value LOOSE_SOURCE_ROUTING = 3"
| "IPV4_OPTION_NUMBER_value INTERNET_TIMESTAMP = 4"
| "IPV4_OPTION_NUMBER_value RECORD_ROUTE = 7"
| "IPV4_OPTION_NUMBER_value STREAM_ID = 8"
| "IPV4_OPTION_NUMBER_value STRICT_SOURCE_ROUTING = 9"

lemma option_values_inject [simp]:
  "IPV4_OPTION_CLASS_value a = IPV4_OPTION_CLASS_value b \<longleftrightarrow> a = b"
  "IPV4_OPTION_NUMBER_value m = IPV4_OPTION_NUMBER_value n \<longleftrightarrow> m = n"
  by (cases a; cases b; simp) (cases m; cases n; simp)

text \<open>
  The first octet of the packed structure: bit-fields are laid out from the low bit on, in the
  order of their declaration. RFC 791 has the copied flag in the highest bit, the class below
  it, and the number in the low five bits.
\<close>

definition option_type_octet :: "ipv4_option_structure \<Rightarrow> u8" where
  "option_type_octet x = ucast (copied_flags x) OR push_bit 1 (ucast (opt_class x))
     OR push_bit 3 (ucast (opt_num x))"

definition rfc791_option_type :: "ipv4_option_structure \<Rightarrow> u8" where
  "rfc791_option_type x = push_bit 7 (ucast (copied_flags x)) OR push_bit 5 (ucast (opt_class x))
     OR ucast (opt_num x)"

section \<open>The security option\<close>

datatype IPV4_SECURITY_SFIELD = UNCLASSIFIED | CONFIDENTIAL | EFTO | MMMM | PROG | RESTRICTED
  | SECRET | TOP_SECRET

primrec IPV4_SECURITY_SFIELD_value :: "IPV4_SECURITY_SFIELD \<Rightarrow> u32" where
  "IPV4_SECURITY_SFIELD_value UNCLASSIFIED = 0x0000"
| "IPV4_SECURITY_SFIELD_value CONFIDENTIAL = 0xF135"
| "IPV4_SECURITY_SFIELD_value EFTO = 0x789A"
| "IPV4_SECURITY_SFIELD_value MMMM = 0xBC4D"
| "IPV4_SECURITY_SFIELD_value PROG = 0x5E26"
| "IPV4_SECURITY_SFIELD_value RESTRICTED = 0xAF13"
| "IPV4_SECURITY_SFIELD_value SECRET = 0xD788"
| "IPV4_SECURITY_SFIELD_value TOP_SECRET = 0x6BC5"

lemma security_value_inject [simp]:
  "IPV4_SECURITY_SFIELD_value a = IPV4_SECURITY_SFIELD_value b \<longleftrightarrow> a = b"
  by (cases a; cases b) simp_all

record ipv4_security_option_fields =
  sfield :: IPV4_SECURITY_SFIELD
  compartments :: u16
  handling_restrictions :: u16
  transmission_control_high :: u16
  transmission_control_low :: u8

section \<open>The IPv6 pseudo header\<close>

definition le64 :: "u64 \<Rightarrow> u8 list" where
  "le64 x = le32 (ucast x) @ le32 (ucast (drop_bit 32 x))"

definition of_le64 :: "u8 list \<Rightarrow> u64" where
  "of_le64 bs = ucast (of_le32 (take 4 bs)) OR push_bit 32 (ucast (of_le32 (drop 4 bs)))"

interpretation c64: codec le64 of_le64 8 "\<lambda>_. True"
proof
  fix x :: u64
  have "ucast (ucast x :: u32) OR push_bit 32 (ucast (ucast (drop_bit 32 x) :: u32)) = x"
    by (rule bit_eqI) (auto simp: bit_simps dest: bit_imp_le_length)
  then show "of_le64 (le64 x) = x" by (simp add: of_le64_def le64_def)
next
  fix bs :: "u8 list" assume "length bs = 8"
  then have t: "le32 (of_le32 (take 4 bs)) = take 4 bs" "le32 (of_le32 (drop 4 bs)) = drop 4 bs"
    by (simp_all add: le32_of_le32)
  have lo: "(ucast ((ucast (a :: u32) :: u64) OR push_bit 32 (ucast b)) :: u32) = a" for a b :: u32
    by (rule bit_eqI) (auto simp: bit_simps dest: bit_imp_le_length)
  have hi: "(ucast (drop_bit 32 ((ucast (a :: u32) :: u64) OR push_bit 32 (ucast b))) :: u32) = b" for a b :: u32
    by (rule bit_eqI) (auto simp: bit_simps dest: bit_imp_le_length)
  show "le64 (of_le64 bs) = bs" by (simp only: le64_def of_le64_def lo hi t append_take_drop_id)
qed (simp_all add: le64_def)

record ipv6_psd_hdr =
  src_low :: u64
  src_high :: u64
  dst_low :: u64
  dst_high :: u64
  len6 :: u32
  zero_low :: u16
  zero_high :: u8
  ptcl6 :: u8

definition ipv6_psd_hdr_bytes :: "ipv6_psd_hdr \<Rightarrow> u8 list" where
  "ipv6_psd_hdr_bytes h = le64 (src_low h) @ le64 (src_high h) @ le64 (dst_low h) @ le64 (dst_high h)
     @ le32 (len6 h) @ le16 (zero_low h) @ [zero_high h, ptcl6 h]"

definition ipv6_psd_hdr_of :: "u8 list \<Rightarrow> ipv6_psd_hdr" where
  "ipv6_psd_hdr_of bs = \<lparr>src_low = of_le64 (take 8 bs), src_high = of_le64 (take 8 (drop 8 bs)),
     dst_low = of_le64 (take 8 (drop 16 bs)), dst_high = of_le64 (take 8 (drop 24 bs)),
     len6 = of_le32 (take 4 (drop 32 bs)), zero_low = of_le16 (take 2 (drop 36 bs)),
     zero_high = bs ! 38, ptcl6 = bs ! 39\<rparr>"

lemma length_le64 [simp]: "length (le64 x) = 8"
  by (simp add: le64_def)

lemma of_le64_le64 [simp]: "of_le64 (le64 x) = x"
  by (rule c64.dec_enc [OF TrueI])

lemma take_drop_join: "take n (drop i bs) @ drop (i + n) bs = drop i bs"
  by (metis append_take_drop_id drop_drop add.commute)

interpretation psd6: codec ipv6_psd_hdr_bytes ipv6_psd_hdr_of 40 "\<lambda>_. True"
proof
  fix h :: ipv6_psd_hdr
  show "ipv6_psd_hdr_of (ipv6_psd_hdr_bytes h) = h"
    by (simp add: ipv6_psd_hdr_of_def ipv6_psd_hdr_bytes_def nth_append)
next
  fix bs :: "u8 list" assume len: "length bs = 40"
  have q: "le64 (of_le64 (take 8 (drop i bs))) = take 8 (drop i bs)" if "i \<le> 32" for i
    using that len by (intro c64.enc_dec) simp
  have a: "le32 (of_le32 (take 4 (drop 32 bs))) = take 4 (drop 32 bs)"
    "le16 (of_le16 (take 2 (drop 36 bs))) = take 2 (drop 36 bs)"
    using len by (simp_all add: le32_of_le32 le16_of_le16)
  have e: "[bs ! 38, bs ! 39] = drop 38 bs"
    using len by (intro nth_equalityI) (auto simp: less_Suc_eq nth_Cons' numeral_eq_Suc)
  show "ipv6_psd_hdr_bytes (ipv6_psd_hdr_of bs) = bs"
    using q [of 0] q [of 8] q [of 16] q [of 24] a e
      take_drop_join [of 8 0 bs] take_drop_join [of 8 8 bs] take_drop_join [of 8 16 bs]
      take_drop_join [of 8 24 bs] take_drop_join [of 4 32 bs] take_drop_join [of 2 36 bs]
    by (simp add: ipv6_psd_hdr_bytes_def ipv6_psd_hdr_of_def)
qed (simp_all add: ipv6_psd_hdr_bytes_def)

section \<open>Properties\<close>

text \<open>C39: the type octet of \<open>ipv4_option_structure\<close> has its fields in the reverse of the order of
  RFC 791, so that a standard option written through the structure comes out with another type:
  of the options the header declares, copied or not, none but "end of option list", not copied
  and of class control, has the octet of the standard.\<close>

theorem option_type_layout:
  "option_type_octet \<lparr>copied_flags = c, opt_class = IPV4_OPTION_CLASS_value k,
       opt_num = IPV4_OPTION_NUMBER_value n, option_len = l, option_octets = p\<rparr>
     = rfc791_option_type \<lparr>copied_flags = c, opt_class = IPV4_OPTION_CLASS_value k,
       opt_num = IPV4_OPTION_NUMBER_value n, option_len = l, option_octets = p\<rparr>
   \<longleftrightarrow> c = 0 \<and> k = CONTROL \<and> n = END_OF_OPTION_LIST"
proof -
  have "unat c = 0 \<or> unat c = 1"
    using unsigned_less [of c, where ?'a = nat] by auto
  then have "c = 0 \<or> c = 1" by (auto simp: word_unat_eq_iff)
  then show ?thesis
    by (elim disjE; cases k; cases n) (simp_all add: option_type_octet_def rfc791_option_type_def)
qed

end
