(* ===== verification/Spec2Isabelle.thy ===== *)
theory Spec2Isabelle
  imports Session Id_Runs Options
begin

text \<open>
  A verification of the userspace network stack under \<open>src/\<close>: a program that opens a socket,
  builds UDP messages in IPv4 datagrams, and sends them over Ethernet (Linux) or over SLIP on a
  serial port (LF OS).

  \<^bold>\<open>The program.\<close> \<open>main.c\<close> calls \<open>new_socket\<close> (\<open>socket.c\<close>), \<open>ip_initialise\<close> (\<open>ip.c\<close>), \<open>inet_addr\<close>
  (\<open>data_util.c\<close>) and \<open>udp_send\<close> (\<open>udp.c\<close>). \<open>udp_send\<close> makes a header and calls
  \<open>ipv4_transmit_datagram\<close> (\<open>ip.c\<close>), which takes an identification value from a bitmap
  (\<open>bitmap.h\<close>), makes a header with its checksum (\<open>csum.c\<close>), and calls \<open>link_tx\<close> (\<open>link.c\<close>); that
  sends through \<open>eth_transmit\<close> (\<open>eth.c\<close>) and the \<open>transmit\<close> of the platform
  (\<open>platform/*/socket.c\<close>), or through \<open>slip_transmit\<close> (\<open>slip.c\<close>).

  \<^bold>\<open>The model.\<close> A C function is a function from the state of the process to an outcome: it returns
  a value in a new state, faults, or diverges (\<open>Prelude\<close>). The state \<open>world\<close> (\<open>Memory\<close>) has the heap
  in blocks of bytes or structures, the globals of \<open>ip.c\<close>, and a trace of port accesses and
  system calls. Faults are the undefined behaviour that matters here: null, out of bounds, freed
  and wild pointers, wrong frees, \<open>realloc\<close> to size 0, overflow of \<open>int\<close>, \<open>strtok\<close> with no string, and
  failed assertions.
  What the outside decides is in fields of the state that nothing changes, so that a theorem
  about every state covers every behaviour of it: which allocations succeed, whether \<open>realloc\<close>
  moves a block, uninitialised bytes, \<open>rand\<close>, what the serial port answers to the \<open>k\<close>th poll and
  what the \<open>k\<close>th system call returns. The machine is little-endian with 64 bit pointers and the
  structure layout of gcc. Loops that may not end are partial functions, so that diverging is a
  value; every other loop is a total function with its termination proof. No fuel is used.

  \<^bold>\<open>The theories.\<close>
  \<^item> \<open>Prelude\<close>: machine integers, programs, byte images, the interface \<open>codec\<close> of structures that are
    stored as bytes. \<open>Types\<close>: the structures and enumerations of the headers, each packed header an
    interpretation of \<open>codec\<close>. \<open>Memory\<close>: the state and the C library.
  \<^item> \<open>Data_Util\<close> (\<open>data_util.h\<close>, \<open>data_util.c\<close>): byte order, \<open>inet_addr\<close> as the inverse of printing an
    address, \<open>build_packet\<close>. \<open>Csum\<close> (\<open>csum.h\<close>, \<open>csum.c\<close>): the checksum equals the one of RFC 1071,
    whatever the byte order of the host, and verifies.
  \<^item> \<open>Bitmap\<close> (\<open>bitmap.h\<close>): the interface \<open>id_set\<close>, the bitmap as its interpretation. \<open>Ip_Id\<close>
    (\<open>ip_initialise\<close> to \<open>free_ipv4_id\<close> of \<open>ip.c\<close>): when the search for an identifier ends and what
    it returns. \<open>Id_Runs\<close>: runs of the allocator as an inductive relation, and their invariant; the
    interface \<open>id_pool\<close>, with the allocator as its interpretation, by which any calls of any user
    return and refine an abstract pool while there is room, and how much room there is, exactly.
  \<^item> \<open>Platform\<close> (\<open>platform/linux/socket.c\<close>, \<open>platform/lf_os/socket.c\<close>): the interfaces \<open>platform\<close> and
    \<open>os\<close>, both platforms as interpretations. \<open>Eth\<close> (\<open>eth.h\<close>, \<open>eth.c\<close>), for every platform.
  \<^item> \<open>Slip\<close> (\<open>slip.h\<close>, \<open>slip.c\<close>): what goes over the port, when it ends, and what a receiver of RFC 1055
    makes of it. \<open>Link\<close> (\<open>link.h\<close>, \<open>link.c\<close>): the interface \<open>link_layer\<close> that the IP layer is verified
    against, with Ethernet on both platforms and SLIP as interpretations.
  \<^item> \<open>Ipv4\<close> (the rest of \<open>ip.c\<close>): headers are those of RFC 791; sending, once for every link. \<open>Ipv4_Fail\<close>:
    its error paths. \<open>Options\<close>: the declarations of \<open>ip.h\<close> and \<open>csum.h\<close> that no function uses.
  \<^item> \<open>Udp\<close> (\<open>udp.h\<close>, \<open>udp.c\<close>), \<open>Socket\<close> (\<open>socket.h\<close>, \<open>socket.c\<close>), \<open>Main_Prog\<close> (\<open>main.c\<close>): messages,
    opening sockets, and the whole run, with what it does when any of its allocations fails.
  \<^item> \<open>Session\<close>: any number of messages over one socket, once for every link: the state between two
    messages is an invariant, so that all of them go out in order; a whole client on Linux.
    \<open>Id_Sequence\<close>: the identifiers such a client's datagrams have, computed.
  \<^item> This theory: delivery, from \<open>udp_send\<close> to what receivers of the standards make of the bytes on
    the line.

  \<^bold>\<open>What is shown.\<close> Messages that fit go out in datagrams that receivers of the standards take apart
  into the same message, one or any number of them in order, with no memory and no identifier lost.
  Over Ethernet on Linux the datagrams are in the frames as they are; over SLIP a receiver of RFC
  1055 gets a datagram out of its frame exactly when it has no END or ESC byte, as the code escapes
  them wrongly. The allocator of identifiers is safe in every run, and refines a pool of
  identifiers as long as one is taken only while fewer than 21844 are in use; otherwise its search can starve. Each
  operation's error paths are stated as they are: the theorems name the inputs for which the code
  leaves its blocks, uses freed memory, loses an identifier or a descriptor, or reports a wrong
  value. Conditions such as \<open>udp_fits\<close> in the theorems of delivery are exact: \<open>udp_send_faults\<close>
  shows what happens outside of them, and \<open>main_out_of_memory\<close> how the program ends for each
  allocation that fails.

  \<^bold>\<open>Correspondence.\<close> Definitions have the names of the C functions. Parameters that would hide a field
  of a record are renamed (\<open>proto\<close> to \<open>pt\<close>, \<open>tos\<close> to \<open>tv\<close> or \<open>tos_v\<close>). Functions linked from a platform
  or a lower layer are arguments (\<open>transmit\<close>, \<open>link\<close>, \<open>raw_socket\<close>). A group of assignments to fields
  of a new header is one store of its bytes. \<open>allocate_ipv4_id\<close> and \<open>ipv4_transmit_datagram\<close> are in
  two parts each (\<open>select_ipv4_id\<close>, \<open>ipv4_send\<close>), \<open>main\<close> in three.

  \<^bold>\<open>Not modelled.\<close> Setting \<open>errno\<close> (what the C library leaves in it is a field of the state that nothing
  changes), and the text around it in the messages of \<open>main\<close>; \<open>tcp.h\<close> and \<open>icmp.h\<close>, which declare nothing;
  \<open>populate_sockaddr\<close> and \<open>ipv4_receive_datagram\<close>, which are declared but not defined; the mutexes,
  which are commented out. \<open>memcpy\<close> of length 0 is allowed with any pointers. What \<open>sendto\<close> does
  with a bad pointer (an error) is a fault here; the code never passes one.
\<close>

section \<open>Delivery\<close>

text \<open>C1: over SLIP, on every platform, for a message that fits (with the option \<open>no_fragment\<close> off, as
  \<open>new_socket\<close> leaves it), \<open>udp_send\<close> puts the frame of one datagram on the serial port and returns
  the datagram's length. Receivers of RFC 791 and RFC 768 take the datagram apart into its
  addresses, ports and data; a receiver of RFC 1055 gets the datagram out of the frame exactly when
  it has no END or ESC byte. Afterwards the heap is as before, but for entry 0 of
  the bitmap.\<close>

theorem udp_slip_delivery:
  assumes "slip_sock () (heap w) p s" and "iopts_at (heap w) s io" and "uart_ok w"
    and "ids_ok w b bs" and "b \<notin> link_foot (heap w) p" and "mem_inv w" and "memory_ok w"
    and "\<not> moves w (Suc (brk w))" and "src_at (heap w) d xs" and "udp_fits (length xs)"
    and "length xs \<le> 65507" and "no_fragment io = 0"
  shows "\<exists>w' tr dg h pl cs. udp_send (link_tx transmit) p src dst sp dp d (length xs) w = Returns (length dg) w'
    \<and> trace w' = trace w @ tr \<and> polite 0x2f8 False (slip_frame dg) tr
    \<and> (rfc1055_receive [] (slip_frame dg) = [dg] \<longleftrightarrow> slip_clean dg)
    \<and> rfc791_receive dg = Some (h, pl) \<and> hsrc h = src \<and> hdst h = dst
    \<and> ptcl h = word_of_int (protocol s) \<and> ttl h = sopt_ttl io
    \<and> rfc768_receive pl = Some (sp, dp, xs)
    \<and> heap w' = (heap w)(b \<mapsto> Bytes cs) \<and> insert 0 (bits_elems cs) = insert 0 (bits_elems bs)"
proof -
  from udp_send_slip [OF assms(1-11), of transmit src dst sp dp] obtain i cs w' tr where
    r: "udp_send (link_tx transmit) p src dst sp dp d (length xs) w = Returns (length xs + 28) w'"
      "heap w' = (heap w)(b \<mapsto> Bytes cs)" "insert 0 (bits_elems cs) = insert 0 (bits_elems bs)"
      "trace w' = trace w @ tr"
      "polite 0x2f8 False (slip_frame (ipv4_hdr_bytes (sock_hdr s io src dst (length xs + 8) i)
        @ be16 sp @ be16 dp @ be16 (u16_of_size (length xs + 8)) @ [0, 0] @ xs)) tr"
    by (elim exE conjE) (rule that)
  define h where "h = sock_hdr s io src dst (length xs + 8) i"
  define pl where "pl = message_hdr sp dp (length xs) @ xs"
  define dg where "dg = ipv4_hdr_bytes h @ pl"
  have "polite 0x2f8 False (slip_frame dg) tr"
    using r(5) by (simp add: dg_def h_def pl_def message_hdr_def)
  moreover have "length dg = length xs + 28" "rfc791_receive dg = Some (h, pl)"
      "rfc768_receive pl = Some (sp, dp, xs)"
    unfolding dg_def h_def pl_def by (rule sent_datagram_received [OF assms(11,12) refl])+
  moreover from this(1) have "dg \<noteq> []" by auto
  then have "rfc1055_receive [] (slip_frame dg) = [dg] \<longleftrightarrow> slip_clean dg"
    using receive_not_clean [of dg] receive_frame [of dg "[]"] frame_clean [of dg]
    by (cases "slip_clean dg") auto
  moreover have "hsrc h = src" "hdst h = dst" "ptcl h = word_of_int (protocol s)" "ttl h = sopt_ttl io"
    unfolding h_def by (rule sock_hdr_addresses)+
  ultimately show ?thesis
    using r(1-4) by (intro exI [of _ w'] exI [of _ tr] exI [of _ dg] exI [of _ h] exI [of _ pl]
        exI [of _ cs] conjI) simp_all
qed

theorem udp_slip_delivery_witness:
  "\<exists>w' dg h pl. udp_send (link_tx lf_os_transmit) (Ptr 0 0) 1 2 1234 1337 (Ptr 6 0) (length [72, 105 :: u8])
      (demo_net SLIP [72, 105]) = Returns (length dg) w'
    \<and> rfc791_receive dg = Some (h, pl) \<and> rfc768_receive pl = Some (1234, 1337, [72, 105])"
proof -
  have "udp_fits (length [72, 105 :: u8])" "length [72, 105 :: u8] \<le> 65507"
    by (simp_all add: udp_fits_def)
  from udp_slip_delivery [OF demo_net_slip demo_net_iopts demo_net_uart demo_net_ids demo_net_foot _ _ _
      demo_net_data this demo_iopts_fragment, of lf_os_transmit 1 2 1234 1337]
  show ?thesis by simp blast
qed

text \<open>C2: over Ethernet on Linux, a message that fits is delivered in one frame: the first 14 bytes are
  the header of the socket, the rest is received with its addresses, ports and data. What
  \<open>sendto\<close> returned comes back cut to 16 bits, so that the caller sees 65535 where -1 is
  documented.\<close>

theorem udp_linux_delivery:
  assumes "eth_sock (e, name) (heap w) p s" and "iopts_at (heap w) s io" and "memory_ok w"
    and "ids_ok w b bs" and "b \<notin> link_foot (heap w) p" and "mem_inv w"
    and "\<not> moves w (Suc (brk w))" and "src_at (heap w) d xs" and "udp_fits (length xs)"
    and "length xs \<le> 65507" and "no_fragment io = 0"
  shows "\<exists>w' frame h pl cs. udp_send (link_tx linux_transmit) p src dst sp dp d (length xs) w
      = Returns (size_of_int (returns_of w 1) mod 65536) w'
    \<and> trace w' = trace w @ [If_nametoindex name, Sendto (raw_sockfd s) frame (linux_sockaddr (mac_src e) (returns_of w 0))]
    \<and> eth_hdr_of (take 14 frame) = e
    \<and> rfc791_receive (drop 14 frame) = Some (h, pl) \<and> hsrc h = src \<and> hdst h = dst
    \<and> ptcl h = word_of_int (protocol s) \<and> ttl h = sopt_ttl io
    \<and> rfc768_receive pl = Some (sp, dp, xs)
    \<and> heap w' = (heap w)(b \<mapsto> Bytes cs) \<and> insert 0 (bits_elems cs) = insert 0 (bits_elems bs)"
proof -
  from eth_linux.udp_send_run [OF assms(1,2,3,4,5,6,3,7-10), of src dst sp dp] obtain i cs r w' tr where
    r: "udp_send (link_tx linux_transmit) p src dst sp dp d (length xs) w = Returns (r mod 65536) w'"
      "heap w' = (heap w)(b \<mapsto> Bytes cs)" "insert 0 (bits_elems cs) = insert 0 (bits_elems bs)"
      "trace w' = trace w @ tr"
      "eth_carries linux_calls (e, name) s (returns_of w) (ipv4_hdr_bytes (sock_hdr s io src dst (length xs + 8) i)
        @ message_hdr sp dp (length xs) @ xs) r tr"
    by (elim exE conjE) (rule that)
  define h where "h = sock_hdr s io src dst (length xs + 8) i"
  define pl where "pl = message_hdr sp dp (length xs) @ xs"
  define frame where "frame = eth_hdr_bytes e @ ipv4_hdr_bytes h @ pl"
  have tr: "tr = [If_nametoindex name, Sendto (raw_sockfd s) frame (linux_sockaddr (mac_src e) (returns_of w 0))]"
      "r mod 65536 = size_of_int (returns_of w 1) mod 65536"
    using r(5) by (simp_all add: eth_carries_def linux_calls_def Let_def frame_def h_def pl_def)
  have "eth_hdr_wf e" using assms(1) by (auto simp: eth_sock_def)
  then have "eth_hdr_of (take 14 frame) = e" "drop 14 frame = ipv4_hdr_bytes h @ pl"
    unfolding frame_def by (simp_all only: eth.dec_prefix) (simp add: eth.enc_length)
  moreover have "rfc791_receive (ipv4_hdr_bytes h @ pl) = Some (h, pl)" "rfc768_receive pl = Some (sp, dp, xs)"
    unfolding h_def pl_def by (rule sent_datagram_received [OF assms(10,11) refl])+
  moreover have "hsrc h = src" "hdst h = dst" "ptcl h = word_of_int (protocol s)" "ttl h = sopt_ttl io"
    unfolding h_def by (rule sock_hdr_addresses)+
  ultimately show ?thesis
    using r(1) [unfolded tr(2)] r(2-4) tr(1)
    by (intro exI [of _ w'] exI [of _ frame] exI [of _ h] exI [of _ pl] exI [of _ cs] conjI) simp_all
qed

theorem udp_linux_delivery_witness:
  "\<exists>w' fr. udp_send (link_tx linux_transmit) (Ptr 0 0) 1 2 1234 1337 (Ptr 6 0) (length [72, 105 :: u8])
      (demo_net ETH [72, 105]) = Returns 1 w' \<and> eth_hdr_of (take 14 fr) = demo_eth"
proof -
  have "udp_fits (length [72, 105 :: u8])" "length [72, 105 :: u8] \<le> 65507"
    by (simp_all add: udp_fits_def)
  from udp_linux_delivery [OF demo_net_eth demo_net_iopts _ demo_net_ids demo_net_foot _ _ demo_net_data this demo_iopts_fragment,
      of 1 2 1234 1337]
  show ?thesis by (simp add: size_of_int_def) blast
qed

text \<open>C34: over Ethernet on LF OS every message is lost without a sign: its \<open>transmit\<close> is empty, so that
  nothing goes to the outside, and \<open>udp_send\<close> returns 0, which is no error value. The memory is left as
  after a message that was sent.\<close>

theorem udp_lf_os_lost:
  assumes "eth_sock c (heap w) p s" and "iopts_at (heap w) s io" and "memory_ok w"
    and "ids_ok w b bs" and "b \<notin> link_foot (heap w) p" and "mem_inv w"
    and "\<not> moves w (Suc (brk w))" and "src_at (heap w) d xs" and "udp_fits (length xs)"
    and "length xs \<le> 65507"
  shows "\<exists>w' cs. udp_send (link_tx lf_os_transmit) p src dst sp dp d (length xs) w = Returns 0 w'
    \<and> trace w' = trace w
    \<and> heap w' = (heap w)(b \<mapsto> Bytes cs) \<and> insert 0 (bits_elems cs) = insert 0 (bits_elems bs)"
proof -
  from eth_lf_os.udp_send_run [OF assms(1-6,3,7-10), of src dst sp dp] obtain i cs r w' tr where
    r: "udp_send (link_tx lf_os_transmit) p src dst sp dp d (length xs) w = Returns (r mod 65536) w'"
      "heap w' = (heap w)(b \<mapsto> Bytes cs)" "insert 0 (bits_elems cs) = insert 0 (bits_elems bs)"
      "trace w' = trace w @ tr"
      "eth_carries lf_os_calls c s (returns_of w) (ipv4_hdr_bytes (sock_hdr s io src dst (length xs + 8) i)
        @ message_hdr sp dp (length xs) @ xs) r tr"
    by (elim exE conjE) (rule that)
  have "tr = []" "r = 0" using r(5) by (simp_all add: eth_carries_def lf_os_calls_def)
  with r(1-4) show ?thesis by auto
qed

theorem udp_lf_os_lost_witness:
  "\<exists>w'. udp_send (link_tx lf_os_transmit) (Ptr 0 0) 1 2 1234 1337 (Ptr 6 0) (length [72, 105 :: u8])
      (demo_net ETH [72, 105]) = Returns 0 w' \<and> trace w' = []"
proof -
  have "udp_fits (length [72, 105 :: u8])" "length [72, 105 :: u8] \<le> 65507"
    by (simp_all add: udp_fits_def)
  from udp_lf_os_lost [OF demo_net_eth demo_net_iopts _ demo_net_ids demo_net_foot _ _ demo_net_data this,
      of 1 2 1234 1337]
  show ?thesis by simp blast
qed

end
